theory Spec2Isabelle
  imports Main
begin

section \<open>Values, errors and configuration\<close>

text \<open>
  A shallow embedding of \<^verbatim>\<open>lib/converter/xpath-converter.impl.ts\<close>.

  Values that can be stored in a built element. The type parameter \<open>'n\<close> is the
  JavaScript number type; the runtime function \<open>Number\<close> is a parameter of the model
  (see \<open>options\<close>). \<open>VSym g d\<close> is the symbol made by \<open>Symbol.for(d)\<close> when \<open>g\<close> holds
  and by \<open>Symbol(d)\<close> otherwise; \<open>VDate v f\<close> is the object \<open>moment(v, f)\<close>;
  \<open>VColl t xs\<close> is the collection object that \<open>createTypedCollection\<close> constructs
  for the lower-cased type tag \<open>t\<close> from the elements \<open>xs\<close>. Objects are association
  lists in insertion order with distinct keys.
\<close>

datatype 'n jvalue =
    VNull
  | VStr string
  | VNum 'n
  | VBool bool
  | VSym bool string
  | VDate string string
  | VArr "'n jvalue list"
  | VColl string "'n jvalue list"
  | VObj "(string \<times> 'n jvalue) list"

type_synonym 'n element = "(string \<times> 'n jvalue) list"

text \<open>
  Every \<open>throw\<close> of the source is a constructor. \<open>classOf\<close> gives the exception class.
  The last three are the \<open>TypeError\<close>s of the runtime: of \<open>R.concat\<close> on values that
  are not two arrays or two strings, of the conversion of a symbol to a string or a
  number, and of a \<open>WeakMap\<close> given a primitive key. The diagnostic \<open>subject\<close> path of
  the exceptions is not modelled.
\<close>

datatype 'n jerror =
    CircularReference "'n jvalue"
  | ElementNotFound string string string
  | PrimitivesCannotContain string
  | InvalidAssocValueType string
  | InvalidAssocType
  | StringMatcherTerminated
  | ElementCollision "'n jvalue"
  | MissingKeyAttribute string "'n jvalue"
  | MalformedMapEntry string
  | OpenExpressionFails string
  | CloseExpressionFails string
  | InvalidMatchers string
  | NoTransformer string
  | ConcatTypeError
  | SymbolToStringError
  | WeakKeyError

datatype errorClass = JaxConfigError | JaxSolicitedError | JaxParseError | JaxInternalError | TypeError

fun classOf :: "'n jerror \<Rightarrow> errorClass" where
  "classOf (CircularReference _) = JaxConfigError"
| "classOf (ElementNotFound _ _ _) = JaxConfigError"
| "classOf (PrimitivesCannotContain _) = JaxConfigError"
| "classOf (InvalidAssocValueType _) = JaxConfigError"
| "classOf InvalidAssocType = JaxConfigError"
| "classOf StringMatcherTerminated = JaxSolicitedError"
| "classOf (ElementCollision _) = JaxSolicitedError"
| "classOf (MissingKeyAttribute _ _) = JaxSolicitedError"
| "classOf (MalformedMapEntry _) = JaxParseError"
| "classOf (OpenExpressionFails _) = JaxParseError"
| "classOf (CloseExpressionFails _) = JaxParseError"
| "classOf (InvalidMatchers _) = JaxInternalError"
| "classOf (NoTransformer _) = JaxInternalError"
| "classOf ConcatTypeError = TypeError"
| "classOf SymbolToStringError = TypeError"
| "classOf WeakKeyError = TypeError"

text \<open>\<open>ITransformResult\<close>.\<close>

record 'n transformResult =
  tvalue :: "'n jvalue"
  succeeded :: bool

text \<open>\<open>types.PrimitiveType\<close>.\<close>

datatype primitiveType = PNumber | PBoolean

text \<open>
  The configured \<open>assoc/keyType\<close> and \<open>assoc/valueType\<close>: a string, an array of
  strings, or anything else.
\<close>

datatype assocType = AssocName string | AssocNames "string list" | AssocOther

text \<open>\<open>IElementInfo\<close> and \<open>IParseInfo\<close>; an absent field is \<open>None\<close>.\<close>

record descendantsInfo =
  descBy :: "string option"
  throwIfCollision :: "bool option"
  throwIfMissing :: "bool option"

record elementInfo =
  infoId :: "string option"
  infoRecurse :: "string option"
  infoDiscards :: "string list option"
  infoDescendants :: "descendantsInfo option"

record parseInfo =
  piElements :: "string \<Rightarrow> elementInfo option"
  piDef :: "elementInfo option"

text \<open>
  The options that the converter reads through \<open>fetchSpecOption\<close> for the
  \<open>attributes\<close> context, already resolved against the fall-back spec, together with
  the constants of the \<open>specs\<close> and \<open>types\<close> modules and the runtime functions the
  converter calls: \<open>Number\<close> (\<open>None\<close> is \<open>NaN\<close>), \<open>moment(v, f).isValid()\<close>
  (\<open>None\<close> when the call throws) and the conversion of a number, symbol or object to
  a property key, and the property read \<open>v[k]\<close> on a value that is no plain object.
\<close>

record 'n options =
  labelsAttributes :: "string option"
  labelsElement :: string
  labelsDescendants :: string
  labelsText :: string
  coercionActive :: bool
  matchers :: "string list option"
  primitives :: "primitiveType list"
  dateFormat :: string
  symbolPrefix :: string
  symbolGlobal :: bool
  stringAcceptable :: bool
  collectionDelim :: string
  collectionOpen :: string
  collectionClose :: string
  assocDelim :: string
  assocKeyType :: assocType
  assocValueType :: assocType
  textTrim :: bool
  collectionTypePlaceHolder :: string
  collectionTypeLabel :: string
  jsNumber :: "string \<Rightarrow> 'n option"
  jsMoment :: "string \<Rightarrow> string \<Rightarrow> bool option"
  jsPropertyKey :: "'n jvalue \<Rightarrow> string"
  jsGetProperty :: "'n jvalue \<Rightarrow> string \<Rightarrow> 'n jvalue option"
  emptyElementInfo :: elementInfo

section \<open>Strings\<close>

text \<open>
  Strings are lists of 8-bit characters, read as the code units below 256 (Latin-1).
  \<open>toLower\<close> and \<open>trim\<close> are \<open>toLowerCase\<close> and \<open>trim\<close> on such strings: the upper case
  letters are A to Z and the code units 192 to 222 other than 215, each 32 below its
  lower case letter; the white space is tab, line feed, vertical tab, form feed,
  carriage return, space and the no-break space 160.
\<close>

definition toLowerChar :: "char \<Rightarrow> char" where
  "toLowerChar c =
     (let n = (of_char c :: nat)
      in if (65 \<le> n \<and> n \<le> 90) \<or> (192 \<le> n \<and> n \<le> 222 \<and> n \<noteq> 215)
         then char_of (n + 32) else c)"

definition toLower :: "string \<Rightarrow> string" where
  "toLower s = map toLowerChar s"

definition startsWith :: "string \<Rightarrow> string \<Rightarrow> bool" where
  "startsWith s p = (take (length p) s = p)"

definition endsWith :: "string \<Rightarrow> string \<Rightarrow> bool" where
  "endsWith s p = (length p \<le> length s \<and> drop (length s - length p) s = p)"

text \<open>
  \<open>s.split(sep)\<close> for a non-empty separator: \<open>skip\<close> counts the characters of a
  separator just matched that are still to be passed over.
\<close>

fun splitAux :: "string \<Rightarrow> string \<Rightarrow> nat \<Rightarrow> string \<Rightarrow> string list" where
  "splitAux sep acc skip [] = [rev acc]"
| "splitAux sep acc (Suc k) (c # cs) = splitAux sep acc k cs"
| "splitAux sep acc 0 (c # cs) =
     (if startsWith (c # cs) sep then rev acc # splitAux sep [] (length sep - 1) cs
      else splitAux sep (c # acc) 0 cs)"

definition split :: "string \<Rightarrow> string \<Rightarrow> string list" where
  "split sep s = (if sep = [] then map (\<lambda>c. [c]) s else splitAux sep [] 0 s)"

text \<open>
  \<open>s.replace(pat, rep)\<close> with a string pattern replaces the first occurrence. The
  replacement strings the converter passes contain no \<open>$\<close> pattern.
\<close>

fun replaceFirst :: "string \<Rightarrow> string \<Rightarrow> string \<Rightarrow> string" where
  "replaceFirst pat rep [] = (if pat = [] then rep else [])"
| "replaceFirst pat rep (c # cs) =
     (if startsWith (c # cs) pat then rep @ drop (length pat) (c # cs)
      else c # replaceFirst pat rep cs)"

text \<open>\<open>s.slice(0, e)\<close>: a negative end counts from the end of the string.\<close>

definition slice0 :: "string \<Rightarrow> int \<Rightarrow> string" where
  "slice0 s e =
     (let n = int (length s); k = (if e < 0 then max (n + e) 0 else min e n)
      in take (nat k) s)"

definition isWhiteSpace :: "char \<Rightarrow> bool" where
  "isWhiteSpace c = ((of_char c :: nat) \<in> {9, 10, 11, 12, 13, 32, 160})"

definition trim :: "string \<Rightarrow> string" where
  "trim s = rev (dropWhile isWhiteSpace (rev (dropWhile isWhiteSpace s)))"

text \<open>The character class of \<open>typeExpr\<close>: a word character or a square bracket.\<close>

definition isTypeChar :: "char \<Rightarrow> bool" where
  "isTypeChar c =
     (let n = (of_char c :: nat)
      in (48 \<le> n \<and> n \<le> 57) \<or> (65 \<le> n \<and> n \<le> 90) \<or> (97 \<le> n \<and> n \<le> 122)
         \<or> n = 95 \<or> n = 91 \<or> n = 93)"

text \<open>
  \<open>typeExpr.exec(s)\<close>: the expression is an opening angle bracket, a named group
  \<open>type\<close> of one or more class characters, and a closing angle bracket. The result is
  the captured group of the leftmost match. The class contains no angle bracket, so a
  match at a given opening bracket is the maximal run of class characters, when it is
  non-empty and followed by the closing bracket.
\<close>

fun typeExprExec :: "string \<Rightarrow> string option" where
  "typeExprExec [] = None"
| "typeExprExec (c # cs) =
     (if c = CHR ''<'' \<and> takeWhile isTypeChar cs \<noteq> []
          \<and> startsWith (dropWhile isTypeChar cs) ''>''
      then Some (takeWhile isTypeChar cs)
      else typeExprExec cs)"

section \<open>Objects\<close>

fun objSet :: "string \<Rightarrow> 'v \<Rightarrow> (string \<times> 'v) list \<Rightarrow> (string \<times> 'v) list" where
  "objSet k v [] = [(k, v)]"
| "objSet k v ((k', v') # kvs) =
     (if k = k' then (k, v) # kvs else (k', v') # objSet k v kvs)"

definition objGet :: "(string \<times> 'v) list \<Rightarrow> string \<Rightarrow> 'v option" where
  "objGet obj k = map_of obj k"

definition objHas :: "string \<Rightarrow> (string \<times> 'v) list \<Rightarrow> bool" where
  "objHas k obj = (k \<in> set (map fst obj))"

definition dissoc :: "string \<Rightarrow> (string \<times> 'v) list \<Rightarrow> (string \<times> 'v) list" where
  "dissoc k obj = filter (\<lambda>kv. fst kv \<noteq> k) obj"

text \<open>\<open>R.mergeAll([a, b])\<close>: the keys of \<open>a\<close>, then those of \<open>b\<close>, the value of \<open>b\<close> winning.\<close>

definition mergeAll2 :: "(string \<times> 'v) list \<Rightarrow> (string \<times> 'v) list \<Rightarrow> (string \<times> 'v) list" where
  "mergeAll2 a b = foldl (\<lambda>acc kv. objSet (fst kv) (snd kv) acc) a b"

text \<open>
  \<open>R.fromPairs\<close> and \<open>R.objOf\<close> assign \<open>result[key] = value\<close> on a fresh object: the
  assignment to the key \<open>__proto__\<close> adds no property. The keys that the converter
  itself reads or assigns (the labels and the \<open>id\<close> of an element info) are taken not to
  name a member of \<open>Object.prototype\<close>, so that a read of a key finds an own property
  or nothing.
\<close>

definition fromPairs :: "(string \<times> 'v) list \<Rightarrow> (string \<times> 'v) list" where
  "fromPairs kvs = mergeAll2 [] (filter (\<lambda>kv. fst kv \<noteq> ''__proto__'') kvs)"

definition objOf :: "string \<Rightarrow> 'v \<Rightarrow> (string \<times> 'v) list" where
  "objOf k v = fromPairs [(k, v)]"

definition propertyKey :: "'n options \<Rightarrow> 'n jvalue \<Rightarrow> string" where
  "propertyKey opts v =
     (case v of VStr s \<Rightarrow> s
      | VBool b \<Rightarrow> (if b then ''true'' else ''false'')
      | VNull \<Rightarrow> ''null''
      | _ \<Rightarrow> jsPropertyKey opts v)"

section \<open>The transformer chain\<close>

definition transformNumber :: "'n options \<Rightarrow> string \<Rightarrow> 'n transformResult" where
  "transformNumber opts numberValue =
     (case jsNumber opts numberValue of
        Some n \<Rightarrow> \<lparr>tvalue = VNum n, succeeded = True\<rparr>
      | None \<Rightarrow> \<lparr>tvalue = VStr numberValue, succeeded = False\<rparr>)"

text \<open>
  The value is always a string read from the document, so the branch of the source for
  a value that is already a boolean is never taken.
\<close>

definition transformBoolean :: "string \<Rightarrow> 'n transformResult" where
  "transformBoolean booleanValue =
     (let lowerBooleanValue = toLower booleanValue
      in if lowerBooleanValue = ''true'' \<or> lowerBooleanValue = ''false''
         then \<lparr>tvalue = VBool (lowerBooleanValue \<noteq> ''false''), succeeded = True\<rparr>
         else \<lparr>tvalue = VBool False, succeeded = False\<rparr>)"

definition transformPrimitive :: "'n options \<Rightarrow> primitiveType \<Rightarrow> string \<Rightarrow> 'n transformResult" where
  "transformPrimitive opts val v =
     (case val of PNumber \<Rightarrow> transformNumber opts v | PBoolean \<Rightarrow> transformBoolean v)"

fun primitivesSome :: "'n options \<Rightarrow> string \<Rightarrow> primitiveType list \<Rightarrow> 'n transformResult" where
  "primitivesSome opts v [] = \<lparr>tvalue = VNull, succeeded = False\<rparr>"
| "primitivesSome opts v (val # vals) =
     (let coercedResult = transformPrimitive opts val v
      in if succeeded coercedResult
         then \<lparr>tvalue = tvalue coercedResult, succeeded = True\<rparr>
         else primitivesSome opts v vals)"

definition transformPrimitives :: "'n options \<Rightarrow> string \<Rightarrow> 'n jerror + 'n transformResult" where
  "transformPrimitives opts primitiveValue =
     (if toLower primitiveValue \<in> set [''primitives'', ''collection'']
      then Inl (PrimitivesCannotContain primitiveValue)
      else Inr (primitivesSome opts primitiveValue (primitives opts)))"

definition transformDate :: "'n options \<Rightarrow> string \<Rightarrow> 'n transformResult" where
  "transformDate opts dateValue =
     (case jsMoment opts dateValue (dateFormat opts) of
        Some valid \<Rightarrow> \<lparr>tvalue = VDate dateValue (dateFormat opts), succeeded = valid\<rparr>
      | None \<Rightarrow> \<lparr>tvalue = VStr dateValue, succeeded = False\<rparr>)"

definition transformSymbol :: "'n options \<Rightarrow> string \<Rightarrow> 'n transformResult" where
  "transformSymbol opts symbolValue =
     \<lparr>tvalue = VSym (symbolGlobal opts) symbolValue,
      succeeded = startsWith symbolValue (symbolPrefix opts)\<rparr>"

definition transformString :: "'n options \<Rightarrow> string \<Rightarrow> 'n jerror + 'n transformResult" where
  "transformString opts stringValue =
     (if \<not> stringAcceptable opts then Inl StringMatcherTerminated
      else Inr \<lparr>tvalue = VStr stringValue, succeeded = True\<rparr>)"

fun assocSome :: "'n options \<Rightarrow> string \<Rightarrow> string list \<Rightarrow> 'n jerror + 'n transformResult" where
  "assocSome opts assocValue [] = Inr \<lparr>tvalue = VNull, succeeded = False\<rparr>"
| "assocSome opts assocValue (val # vals) =
     (if val \<in> set [''number'', ''boolean'', ''symbol'', ''string'']
      then (case (if val = ''number'' then Inr (transformNumber opts assocValue)
                  else if val = ''boolean'' then Inr (transformBoolean assocValue)
                  else if val = ''symbol'' then Inr (transformSymbol opts assocValue)
                  else transformString opts assocValue) of
              Inl e \<Rightarrow> Inl e
            | Inr coercedResult \<Rightarrow>
                (if succeeded coercedResult
                 then Inr \<lparr>tvalue = tvalue coercedResult, succeeded = True\<rparr>
                 else assocSome opts assocValue vals))
      else Inl (InvalidAssocValueType val))"

definition transformAssoc :: "'n options \<Rightarrow> assocType \<Rightarrow> string \<Rightarrow> 'n jerror + 'n transformResult" where
  "transformAssoc opts assocType assocValue =
     (case assocType of
        AssocName t \<Rightarrow> assocSome opts assocValue [t]
      | AssocNames ts \<Rightarrow> assocSome opts assocValue ts
      | AssocOther \<Rightarrow> Inl InvalidAssocType)"

definition unaryCollectionTypes :: "string list" where
  "unaryCollectionTypes = [''[]'', ''int8array'', ''uint8array'', ''uint8clampedarray'',
     ''int16array'', ''int16array'', ''int32array'', ''uint32array'', ''float32array'',
     ''float64array'', ''set'']"

definition isUnaryCollection :: "string \<Rightarrow> bool" where
  "isUnaryCollection definedType = (toLower definedType \<in> set unaryCollectionTypes)"

definition typedCollectionNames :: "string list" where
  "typedCollectionNames = [''int8array'', ''uint8array'', ''uint8clampedarray'',
     ''int16array'', ''uint16array'', ''int32array'', ''uint32array'', ''float32array'',
     ''float64array'', ''set'', ''weakset'', ''map'', ''weakmap'']"

text \<open>
  The conversion of a value to a string or to a number throws a \<open>TypeError\<close> on a
  symbol, and on an array with such an element, which is joined from the strings of its
  elements.
\<close>

fun throwsOnToString :: "'n jvalue \<Rightarrow> bool" where
  "throwsOnToString (VSym g d) = True"
| "throwsOnToString (VArr vs) = list_ex throwsOnToString vs"
| "throwsOnToString v = False"

definition typedArrayNames :: "string list" where
  "typedArrayNames = [''int8array'', ''uint8array'', ''uint8clampedarray'',
     ''int16array'', ''uint16array'', ''int32array'', ''uint32array'', ''float32array'',
     ''float64array'']"

text \<open>
  \<open>createTypedCollection\<close>. A typed array converts each element to a number; a
  \<open>WeakMap\<close> takes no primitive key, and every key that \<open>transformAssoc\<close> gives is one
  (a symbol is a primitive, and the runtimes that the package was written for take no
  symbol as a key either). The elements of a \<open>WeakSet\<close> are the key and value pairs,
  which are arrays.
\<close>

definition createTypedCollection :: "string \<Rightarrow> 'n jvalue list \<Rightarrow> 'n jerror + 'n jvalue" where
  "createTypedCollection t collectionElements =
     (if t \<in> set typedArrayNames
      then (if list_ex throwsOnToString collectionElements then Inl SymbolToStringError
            else Inr (VColl t collectionElements))
      else if t = ''weakmap''
      then (if collectionElements = [] then Inr (VColl t []) else Inl WeakKeyError)
      else if t \<in> set typedCollectionNames then Inr (VColl t collectionElements)
      else Inr (VArr collectionElements))"

definition extractCoreCollectionValue :: "string \<Rightarrow> string \<Rightarrow> string \<Rightarrow> string" where
  "extractCoreCollectionValue open close collectionValue =
     (if startsWith collectionValue open \<and> endsWith collectionValue close
      then (let coreValue = replaceFirst open [] collectionValue
            in slice0 coreValue (int (length coreValue) - int (length close)))
      else collectionValue)"

definition extractTypeFromCollectionValue :: "'n options \<Rightarrow> string \<Rightarrow> string" where
  "extractTypeFromCollectionValue opts v =
     (case typeExprExec v of
        None \<Rightarrow> []
      | Some t \<Rightarrow> (if collectionTypeLabel opts = ''type'' then t else []))"

fun unaryItems :: "'n options \<Rightarrow> string list \<Rightarrow> 'n jerror + 'n jvalue list" where
  "unaryItems opts [] = Inr []"
| "unaryItems opts (item # items) =
     (case transformPrimitives opts item of
        Inl e \<Rightarrow> Inl e
      | Inr itemResult \<Rightarrow>
          (case unaryItems opts items of
             Inl e \<Rightarrow> Inl e
           | Inr vs \<Rightarrow> Inr ((if succeeded itemResult then tvalue itemResult else VStr item) # vs)))"

definition transformUnaryCollection :: "'n options \<Rightarrow> string list \<Rightarrow> 'n jerror + 'n transformResult" where
  "transformUnaryCollection opts sourceCollection =
     (case unaryItems opts sourceCollection of
        Inl e \<Rightarrow> Inl e
      | Inr vs \<Rightarrow> Inr \<lparr>tvalue = VArr vs, succeeded = True\<rparr>)"

fun assocPairs :: "'n options \<Rightarrow> ('n jvalue \<times> 'n jvalue) list \<Rightarrow> string list
    \<Rightarrow> 'n jerror + ('n jvalue \<times> 'n jvalue) list" where
  "assocPairs opts acc [] = Inr acc"
| "assocPairs opts acc (collectionPair # rest) =
     (let elements = split (assocDelim opts) collectionPair
      in if length elements = 2
         then (case transformAssoc opts (assocKeyType opts) (elements ! 0) of
                 Inl e \<Rightarrow> Inl e
               | Inr coercedKeyResult \<Rightarrow>
                   (case transformAssoc opts (assocValueType opts) (elements ! 1) of
                      Inl e \<Rightarrow> Inl e
                    | Inr coercedValueResult \<Rightarrow>
                        (if succeeded coercedKeyResult \<and> succeeded coercedValueResult
                         then assocPairs opts
                                (acc @ [(tvalue coercedKeyResult, tvalue coercedValueResult)]) rest
                         else assocPairs opts acc rest)))
         else Inl (MalformedMapEntry collectionPair))"

definition transformAssociativeCollection :: "'n options \<Rightarrow> string \<Rightarrow> string list
    \<Rightarrow> 'n jerror + 'n transformResult" where
  "transformAssociativeCollection opts collectionType sourceCollection =
     (case assocPairs opts [] sourceCollection of
        Inl e \<Rightarrow> Inl e
      | Inr transformValue \<Rightarrow>
          (case (if toLower collectionType \<in> set [''object'', ''{}'']
                 then Inr (VObj (fromPairs
                        (map (\<lambda>kv. (propertyKey opts (fst kv), snd kv)) transformValue)))
                 else createTypedCollection (toLower collectionType)
                        (map (\<lambda>kv. VArr [fst kv, snd kv]) transformValue)) of
             Inl e \<Rightarrow> Inl e
           | Inr result \<Rightarrow> Inr \<lparr>tvalue = result, succeeded = True\<rparr>))"

definition transformCollection :: "'n options \<Rightarrow> string \<Rightarrow> 'n jerror + 'n transformResult" where
  "transformCollection opts collectionValue =
     (let collectionType = extractTypeFromCollectionValue opts collectionValue
      in if collectionType \<noteq> []
         then (let openExpression = replaceFirst (collectionTypePlaceHolder opts)
                                      (''<'' @ collectionType @ ''>'') (collectionOpen opts);
                   close = collectionClose opts
               in if startsWith collectionValue openExpression \<and> endsWith collectionValue close
                  then (if openExpression = [] then Inl (OpenExpressionFails collectionValue)
                        else if close = [] then Inl (CloseExpressionFails collectionValue)
                        else (let coreValue = extractCoreCollectionValue openExpression close
                                                collectionValue;
                                  arrayElements = split (collectionDelim opts) coreValue
                              in if isUnaryCollection collectionType
                                 then transformUnaryCollection opts arrayElements
                                 else transformAssociativeCollection opts collectionType
                                        arrayElements))
                  else Inr \<lparr>tvalue = VNull, succeeded = False\<rparr>)
         else Inr \<lparr>tvalue = VNull, succeeded = False\<rparr>)"

text \<open>\<open>getTransformer(name)\<close> applied to a value in the \<open>attributes\<close> context.\<close>

definition getTransformer :: "'n options \<Rightarrow> string \<Rightarrow> string \<Rightarrow> 'n jerror + 'n transformResult" where
  "getTransformer opts name v =
     (if name = ''number'' then Inr (transformNumber opts v)
      else if name = ''boolean'' then Inr (transformBoolean v)
      else if name = ''primitives'' then transformPrimitives opts v
      else if name = ''collection'' then transformCollection opts v
      else if name = ''date'' then Inr (transformDate opts v)
      else if name = ''symbol'' then Inr (transformSymbol opts v)
      else if name = ''string'' then transformString opts v
      else Inl (NoTransformer name))"

fun coerceSome :: "'n options \<Rightarrow> string \<Rightarrow> string list \<Rightarrow> 'n jerror + 'n jvalue" where
  "coerceSome opts rawValue [] = Inr (VStr rawValue)"
| "coerceSome opts rawValue (mt # mts) =
     (case getTransformer opts (toLower mt) rawValue of
        Inl e \<Rightarrow> Inl e
      | Inr result \<Rightarrow>
          (if succeeded result then Inr (tvalue result) else coerceSome opts rawValue mts))"

definition coerceAttributeValue :: "'n options \<Rightarrow> string list option \<Rightarrow> string \<Rightarrow> 'n jerror + 'n jvalue" where
  "coerceAttributeValue opts ms rawValue =
     (case ms of
        None \<Rightarrow> Inl (InvalidMatchers rawValue)
      | Some names \<Rightarrow> coerceSome opts rawValue names)"

section \<open>The document\<close>

text \<open>
  A DOM node: an element with its name, attributes and child nodes, or a character
  data node (text, CDATA section or comment) with its node name and data.
\<close>

datatype xnode =
    XElement string "(string \<times> string) list" "xnode list"
  | XCharData string string

fun nodeName :: "xnode \<Rightarrow> string" where
  "nodeName (XElement n as cs) = n"
| "nodeName (XCharData n d) = n"

fun nodeAttributes :: "xnode \<Rightarrow> (string \<times> string) list" where
  "nodeAttributes (XElement n as cs) = as"
| "nodeAttributes (XCharData n d) = []"

fun childNodes :: "xnode \<Rightarrow> xnode list" where
  "childNodes (XElement n as cs) = cs"
| "childNodes (XCharData n d) = []"

fun isElement :: "xnode \<Rightarrow> bool" where
  "isElement (XElement n as cs) = True"
| "isElement (XCharData n d) = False"

text \<open>\<open>node.getAttribute(name) ?? ''\<close>.\<close>

definition getAttribute :: "xnode \<Rightarrow> string \<Rightarrow> string" where
  "getAttribute node name = (case map_of (nodeAttributes node) name of None \<Rightarrow> [] | Some v \<Rightarrow> v)"

text \<open>The descendants of a node in document order, each with its parent.\<close>

fun descendantNodes :: "xnode \<Rightarrow> (xnode \<times> xnode) list" where
  "descendantNodes (XElement n as cs) =
     concat (map (\<lambda>c. (XElement n as cs, c) # descendantNodes c) cs)"
| "descendantNodes (XCharData n d) = []"

text \<open>
  \<open>selectElementNodeById\<close>: the first descendant element of \<open>rootNode\<close> in document
  order that has the name \<open>elementName\<close> and an attribute \<open>id\<close> with the value \<open>name\<close>,
  returned with its parent node. The names are taken to be ones the query string can
  hold.
\<close>

definition selectElementNodeById :: "string \<Rightarrow> string \<Rightarrow> string \<Rightarrow> xnode option
    \<Rightarrow> (xnode \<times> xnode) option" where
  "selectElementNodeById elementName idName name rootNode =
     (case rootNode of
        None \<Rightarrow> None
      | Some root \<Rightarrow>
          find (\<lambda>pc. isElement (snd pc) \<and> nodeName (snd pc) = elementName
                      \<and> map_of (nodeAttributes (snd pc)) idName = Some name)
               (descendantNodes root))"

definition getElementInfo :: "'n options \<Rightarrow> parseInfo \<Rightarrow> string \<Rightarrow> elementInfo" where
  "getElementInfo opts pi elementName =
     (case piElements pi elementName of
        Some info \<Rightarrow> info
      | None \<Rightarrow> (case piDef pi of Some info \<Rightarrow> info | None \<Rightarrow> emptyElementInfo opts))"

text \<open>
  The property key that \<open>elementInfo.id\<close> denotes when used as \<open>obj[id]\<close>, in
  \<open>R.has(id)\<close> and in the query string: an absent \<open>id\<close> reads as \<open>undefined\<close>.
\<close>

definition idKey :: "elementInfo \<Rightarrow> string" where
  "idKey info = (case infoId info of None \<Rightarrow> ''undefined'' | Some i \<Rightarrow> i)"

definition recurseOf :: "elementInfo \<Rightarrow> string" where
  "recurseOf info = (case infoRecurse info of None \<Rightarrow> [] | Some r \<Rightarrow> r)"

definition discardsOf :: "elementInfo \<Rightarrow> string list" where
  "discardsOf info = (case infoDiscards info of None \<Rightarrow> [] | Some ds \<Rightarrow> ds)"

section \<open>Building an element\<close>

fun coerceAttributes :: "'n options \<Rightarrow> (string \<times> string) list
    \<Rightarrow> 'n jerror + (string \<times> 'n jvalue) list" where
  "coerceAttributes opts [] = Inr []"
| "coerceAttributes opts (a # as) =
     (case (if coercionActive opts then coerceAttributeValue opts (matchers opts) (snd a)
            else Inr (VStr (snd a))) of
        Inl e \<Rightarrow> Inl e
      | Inr v \<Rightarrow>
          (case coerceAttributes opts as of
             Inl e \<Rightarrow> Inl e
           | Inr vs \<Rightarrow> Inr ((fst a, v) # vs)))"

definition buildLocalAttributes :: "'n options \<Rightarrow> xnode \<Rightarrow> 'n jerror + 'n element" where
  "buildLocalAttributes opts localNode =
     (case coerceAttributes opts (nodeAttributes localNode) of
        Inl e \<Rightarrow> Inl e
      | Inr pairs \<Rightarrow>
          (case labelsAttributes opts of
             None \<Rightarrow> Inr (fromPairs pairs)
           | Some attributesLabel \<Rightarrow>
               (if attributesLabel \<noteq> []
                then Inr [(attributesLabel,
                           VArr (map (\<lambda>kv. VObj (objOf (fst kv) (snd kv))) pairs))]
                else Inr (fromPairs pairs))))"

text \<open>
  \<open>R.equals\<close> on two values made by different transform calls: structural, except that
  two symbols are equal only when both are registered ones of the same description.
\<close>

fun rEquals :: "'n jvalue \<Rightarrow> 'n jvalue \<Rightarrow> bool" where
  "rEquals (VSym g d) (VSym g' d') = (g \<and> g' \<and> d = d')"
| "rEquals (VArr xs) (VArr ys) = list_all2 rEquals xs ys"
| "rEquals (VColl t xs) (VColl t' ys) = (t = t' \<and> list_all2 rEquals xs ys)"
| "rEquals (VObj a) (VObj b) =
     (length a = length b \<and>
      list_all (\<lambda>kv. case map_of b (fst kv) of None \<Rightarrow> False | Some w \<Rightarrow> rEquals (snd kv) w) a)"
| "rEquals v w = (v = w)"

text \<open>\<open>R.includes(v, list)\<close>; \<open>None\<close> is \<open>undefined\<close>.\<close>

definition includesValue :: "'n jvalue \<Rightarrow> 'n jvalue list \<Rightarrow> bool" where
  "includesValue v vs = list_ex (rEquals v) vs"

definition includesOpt :: "'n jvalue option \<Rightarrow> 'n jvalue option list \<Rightarrow> bool" where
  "includesOpt v vs =
     list_ex (\<lambda>w. case (v, w) of (None, None) \<Rightarrow> True
                  | (Some a, Some b) \<Rightarrow> rEquals a b
                  | _ \<Rightarrow> False) vs"

text \<open>\<open>R.concat\<close>: two arrays or two strings, a \<open>TypeError\<close> otherwise.\<close>

definition concatValues :: "'n jvalue \<Rightarrow> 'n jvalue \<Rightarrow> 'n jerror + 'n jvalue" where
  "concatValues a b =
     (case (a, b) of
        (VArr xs, VArr ys) \<Rightarrow> Inr (VArr (xs @ ys))
      | (VStr s, VStr t) \<Rightarrow> Inr (VStr (s @ t))
      | _ \<Rightarrow> Inl ConcatTypeError)"

text \<open>
  \<open>doMergeElements\<close>, the function that \<open>recurseThroughAttribute\<close> reduces the
  inherited elements with.
\<close>

definition doMergeElements :: "'n options \<Rightarrow> 'n element \<Rightarrow> 'n element \<Rightarrow> 'n jerror + 'n element" where
  "doMergeElements opts a b =
     (let descendantsLabel = labelsDescendants opts
      in case (objGet a descendantsLabel, objGet b descendantsLabel) of
           (Some da, Some db) \<Rightarrow>
             (case concatValues da db of
                Inl e \<Rightarrow> Inl e
              | Inr mergedChildren \<Rightarrow> Inr (objSet descendantsLabel mergedChildren (mergeAll2 a b)))
         | _ \<Rightarrow> Inr (mergeAll2 a b))"

fun reduceMerge :: "'n options \<Rightarrow> 'n element \<Rightarrow> 'n element list \<Rightarrow> 'n jerror + 'n element" where
  "reduceMerge opts acc [] = Inr acc"
| "reduceMerge opts acc (b # bs) =
     (case doMergeElements opts acc b of
        Inl e \<Rightarrow> Inl e
      | Inr merged \<Rightarrow> reduceMerge opts merged bs)"

text \<open>\<open>val[id]\<close> and \<open>R.prop(id)(val)\<close>; \<open>None\<close> is \<open>undefined\<close>.\<close>

definition propOf :: "'n options \<Rightarrow> string \<Rightarrow> 'n jvalue \<Rightarrow> 'n jvalue option" where
  "propOf opts k v = (case v of VObj obj \<Rightarrow> objGet obj k | _ \<Rightarrow> jsGetProperty opts v k)"

definition keyOfProp :: "'n options \<Rightarrow> string \<Rightarrow> 'n jvalue \<Rightarrow> string" where
  "keyOfProp opts k v =
     (case propOf opts k v of None \<Rightarrow> ''undefined'' | Some x \<Rightarrow> propertyKey opts x)"

text \<open>The reduction of \<open>buildChildren\<close> that looks for two descendants with one key.\<close>

fun collisionCheck :: "'n options \<Rightarrow> string \<Rightarrow> 'n jvalue option list \<Rightarrow> 'n jvalue list
    \<Rightarrow> 'n jerror + unit" where
  "collisionCheck opts k acc [] = Inr ()"
| "collisionCheck opts k acc (val # vals) =
     (if includesOpt (propOf opts k val) acc then Inl (ElementCollision val)
      else collisionCheck opts k (acc @ [propOf opts k val]) vals)"

definition indexBy :: "'n options \<Rightarrow> string \<Rightarrow> 'n jvalue list \<Rightarrow> 'n jvalue" where
  "indexBy opts k vals =
     VObj (foldl (\<lambda>acc val. objSet (keyOfProp opts k val) val acc) [] vals)"

definition groupBy :: "'n options \<Rightarrow> string \<Rightarrow> 'n jvalue list \<Rightarrow> 'n jvalue" where
  "groupBy opts k vals =
     VObj (map (\<lambda>kv. (fst kv, VArr (snd kv)))
            (foldl (\<lambda>acc val.
                      objSet (keyOfProp opts k val)
                        ((case objGet acc (keyOfProp opts k val) of None \<Rightarrow> [] | Some g \<Rightarrow> g) @ [val])
                        acc)
                   [] vals))"

text \<open>
  The part of \<open>buildChildren\<close> that follows the building of the child elements:
  the children are put before a value already present under the descendants label, and
  the descendants are re-keyed as the parse info of the element asks.
\<close>

definition mergeDescendants :: "'n options \<Rightarrow> 'n element \<Rightarrow> 'n element list \<Rightarrow> 'n jerror + 'n element" where
  "mergeDescendants opts element children =
     (let descendantsLabel = labelsDescendants opts
      in case objGet element descendantsLabel of
           Some inherited \<Rightarrow>
             (case concatValues (VArr (map VObj children)) inherited of
                Inl e \<Rightarrow> Inl e
              | Inr merged \<Rightarrow> Inr (objSet descendantsLabel merged element))
         | None \<Rightarrow> Inr (objSet descendantsLabel (VArr (map VObj children)) element))"

definition descendantsList :: "'n options \<Rightarrow> 'n element \<Rightarrow> 'n jvalue list" where
  "descendantsList opts element =
     (case objGet element (labelsDescendants opts) of Some (VArr vs) \<Rightarrow> vs | _ \<Rightarrow> [])"

definition elementInfoOf :: "'n options \<Rightarrow> parseInfo \<Rightarrow> 'n element \<Rightarrow> elementInfo" where
  "elementInfoOf opts pi element =
     (case objGet element (labelsElement opts) of
        Some (VStr name) \<Rightarrow> getElementInfo opts pi name
      | _ \<Rightarrow> (case piDef pi of Some info \<Rightarrow> info | None \<Rightarrow> emptyElementInfo opts))"

definition isTrue :: "bool option \<Rightarrow> bool" where
  "isTrue b = (b = Some True)"

definition indexDescendants :: "'n options \<Rightarrow> parseInfo \<Rightarrow> 'n element \<Rightarrow> 'n element list
    \<Rightarrow> 'n jerror + 'n element" where
  "indexDescendants opts pi element children =
     (let descendantsLabel = labelsDescendants opts;
          elementInfo = elementInfoOf opts pi element
      in case infoDescendants elementInfo of
           None \<Rightarrow> Inr element
         | Some dinfo \<Rightarrow>
             (case descBy dinfo of
                None \<Rightarrow> Inr element
              | Some by \<Rightarrow>
                  (let descendants = descendantsList opts element
                   in if list_all (objHas (idKey elementInfo)) children
                      then (if by = ''index''
                            then (case (if isTrue (throwIfMissing dinfo)
                                        then collisionCheck opts (idKey elementInfo) [] descendants
                                        else Inr ()) of
                                    Inl e \<Rightarrow> Inl e
                                  | Inr u \<Rightarrow>
                                      Inr (objSet descendantsLabel
                                             (indexBy opts (idKey elementInfo) descendants) element))
                            else if by = ''group''
                            then Inr (objSet descendantsLabel
                                        (groupBy opts (idKey elementInfo) descendants) element)
                            else Inr element)
                      else if isTrue (throwIfMissing dinfo)
                      then Inl (MissingKeyAttribute (idKey elementInfo)
                                  (case find (\<lambda>c. \<not> objHas (idKey elementInfo) c) children of
                                     None \<Rightarrow> VObj [] | Some missing \<Rightarrow> VObj missing))
                      else Inr element)))"

fun composeTextFrom :: "'n options \<Rightarrow> string \<Rightarrow> xnode list \<Rightarrow> string" where
  "composeTextFrom opts text [] = text"
| "composeTextFrom opts text (XElement n as cs # rest) = composeTextFrom opts text rest"
| "composeTextFrom opts text (XCharData n d # rest) =
     composeTextFrom opts
       (if d \<noteq> [] then (if textTrim opts then text @ trim d else text @ d) else text) rest"

definition composeText :: "'n options \<Rightarrow> xnode \<Rightarrow> string" where
  "composeText opts elementNode = composeTextFrom opts [] (childNodes elementNode)"

definition attachText :: "'n options \<Rightarrow> xnode \<Rightarrow> 'n element \<Rightarrow> 'n element" where
  "attachText opts elementNode element =
     (let elementText = composeText opts elementNode
      in if elementText \<noteq> [] then objSet (labelsText opts) (VStr elementText) element
         else element)"

definition identifierOf :: "'n element \<Rightarrow> string \<Rightarrow> 'n jvalue" where
  "identifierOf element k =
     (case objGet element k of None \<Rightarrow> VStr [] | Some VNull \<Rightarrow> VStr [] | Some v \<Rightarrow> v)"

text \<open>
  \<open>buildElement\<close> calls itself through \<open>recurseThroughAttribute\<close> and
  \<open>buildChildren\<close>. Each of these functions takes the recursive call
  \<open>this.buildElement\<close> as its first argument \<open>build\<close>, and \<open>buildElement\<close> ties the
  knot below. \<open>parentNode\<close> is \<open>elementNode.parentNode\<close>. \<open>inheritedElements\<close> is the
  \<open>R.map\<close> over the referenced identifiers, \<open>buildChildElements\<close> the \<open>R.reduce\<close> over
  the child elements.
\<close>

type_synonym 'n builder =
  "xnode option \<Rightarrow> xnode \<Rightarrow> 'n jvalue list \<Rightarrow> ('n jerror + 'n element) option"

fun inheritedElements :: "'n builder \<Rightarrow> string \<Rightarrow> string \<Rightarrow> xnode option \<Rightarrow> 'n jvalue list
    \<Rightarrow> string list \<Rightarrow> ('n jerror + 'n element list) option" where
  "inheritedElements build name k parentNode seen [] = Some (Inr [])"
| "inheritedElements build name k parentNode seen (at # ats) =
     (case selectElementNodeById name k at parentNode of
        None \<Rightarrow> Some (Inl (ElementNotFound name k at))
      | Some found \<Rightarrow>
          (case build (Some (fst found)) (snd found) seen of
             None \<Rightarrow> None
           | Some (Inl e) \<Rightarrow> Some (Inl e)
           | Some (Inr el) \<Rightarrow>
               (case inheritedElements build name k parentNode seen ats of
                  None \<Rightarrow> None
                | Some (Inl e) \<Rightarrow> Some (Inl e)
                | Some (Inr els) \<Rightarrow> Some (Inr (el # els)))))"

definition inheritSeveral :: "'n builder \<Rightarrow> 'n options \<Rightarrow> 'n element \<Rightarrow> string \<Rightarrow> string
    \<Rightarrow> xnode option \<Rightarrow> 'n jvalue list \<Rightarrow> string list \<Rightarrow> ('n jerror + 'n element) option" where
  "inheritSeveral build opts element name k parentNode seen recurseAttributes =
     (case inheritedElements build name k parentNode seen recurseAttributes of
        None \<Rightarrow> None
      | Some (Inl e) \<Rightarrow> Some (Inl e)
      | Some (Inr inherited) \<Rightarrow>
          (case reduceMerge opts [] inherited of
             Inl e \<Rightarrow> Some (Inl e)
           | Inr mergedInheritedElements \<Rightarrow>
               Some (Inr (mergeAll2 mergedInheritedElements element))))"

definition inheritSingle :: "'n builder \<Rightarrow> 'n element \<Rightarrow> string \<Rightarrow> string
    \<Rightarrow> xnode option \<Rightarrow> 'n jvalue list \<Rightarrow> string \<Rightarrow> ('n jerror + 'n element) option" where
  "inheritSingle build element name k parentNode seen inheritedElementName =
     (case selectElementNodeById name k inheritedElementName parentNode of
        None \<Rightarrow> Some (Inl (ElementNotFound name k inheritedElementName))
      | Some found \<Rightarrow>
          (case build (Some (fst found)) (snd found) seen of
             None \<Rightarrow> None
           | Some (Inl e) \<Rightarrow> Some (Inl e)
           | Some (Inr inheritedElement) \<Rightarrow> Some (Inr (mergeAll2 inheritedElement element))))"

definition recurseThroughAttribute :: "'n builder \<Rightarrow> 'n options \<Rightarrow> parseInfo \<Rightarrow> 'n element
    \<Rightarrow> xnode \<Rightarrow> xnode option \<Rightarrow> 'n jvalue list \<Rightarrow> ('n jerror + 'n element) option" where
  "recurseThroughAttribute build opts pi element elementNode parentNode previouslySeen =
     (let info = getElementInfo opts pi (nodeName elementNode);
          identifier = identifierOf element (idKey info)
      in if identifier = VStr [] then Some (Inr element)
         else if recurseOf info \<noteq> []
         then (if includesValue identifier previouslySeen
               then (if throwsOnToString identifier then Some (Inl SymbolToStringError)
                     else Some (Inl (CircularReference identifier)))
               else (let seen = previouslySeen @ [identifier];
                         recurseAttr = getAttribute elementNode (recurseOf info)
                     in if recurseAttr \<noteq> []
                        then (let recurseAttributes = split '','' recurseAttr
                              in if length recurseAttributes > 1
                                 then inheritSeveral build opts element (nodeName elementNode)
                                        (idKey info) parentNode seen recurseAttributes
                                 else inheritSingle build element (nodeName elementNode)
                                        (idKey info) parentNode seen (hd recurseAttributes))
                        else Some (Inr element)))
         else Some (Inr element))"

fun buildChildElements :: "'n builder \<Rightarrow> xnode \<Rightarrow> 'n jvalue list \<Rightarrow> xnode list
    \<Rightarrow> ('n jerror + 'n element list) option" where
  "buildChildElements build elementNode previouslySeen [] = Some (Inr [])"
| "buildChildElements build elementNode previouslySeen (childElement # rest) =
     (case build (Some elementNode) childElement previouslySeen of
        None \<Rightarrow> None
      | Some (Inl e) \<Rightarrow> Some (Inl e)
      | Some (Inr child) \<Rightarrow>
          (case buildChildElements build elementNode previouslySeen rest of
             None \<Rightarrow> None
           | Some (Inl e) \<Rightarrow> Some (Inl e)
           | Some (Inr children) \<Rightarrow> Some (Inr (child # children))))"

definition buildChildren :: "'n builder \<Rightarrow> 'n options \<Rightarrow> parseInfo \<Rightarrow> 'n element \<Rightarrow> xnode
    \<Rightarrow> 'n jvalue list \<Rightarrow> ('n jerror + 'n element) option" where
  "buildChildren build opts pi element elementNode previouslySeen =
     (if filter isElement (childNodes elementNode) \<noteq> []
      then (case buildChildElements build elementNode previouslySeen
                   (filter isElement (childNodes elementNode)) of
              None \<Rightarrow> None
            | Some (Inl e) \<Rightarrow> Some (Inl e)
            | Some (Inr children) \<Rightarrow>
                (case mergeDescendants opts element children of
                   Inl e \<Rightarrow> Some (Inl e)
                 | Inr merged \<Rightarrow>
                     (case indexDescendants opts pi merged children of
                        Inl e \<Rightarrow> Some (Inl e)
                      | Inr indexed \<Rightarrow> Some (Inr (attachText opts elementNode indexed)))))
      else Some (Inr (attachText opts elementNode element)))"

definition discardAttributes :: "string list \<Rightarrow> 'n element \<Rightarrow> 'n element" where
  "discardAttributes discards element = foldl (\<lambda>el at. dissoc at el) element discards"

definition buildElementBody :: "'n builder \<Rightarrow> 'n options \<Rightarrow> parseInfo \<Rightarrow> xnode option \<Rightarrow> xnode
    \<Rightarrow> 'n jvalue list \<Rightarrow> ('n jerror + 'n element) option" where
  "buildElementBody build opts pi parentNode elementNode previouslySeen =
     (case buildLocalAttributes opts elementNode of
        Inl e \<Rightarrow> Some (Inl e)
      | Inr local \<Rightarrow>
          (let element = objSet (labelsElement opts) (VStr (nodeName elementNode)) local;
               info = getElementInfo opts pi (nodeName elementNode)
           in case (if recurseOf info \<noteq> [] \<and> isElement elementNode
                    then recurseThroughAttribute build opts pi element elementNode parentNode
                           previouslySeen
                    else Some (Inr element)) of
                None \<Rightarrow> None
              | Some (Inl e) \<Rightarrow> Some (Inl e)
              | Some (Inr resolved) \<Rightarrow>
                  (let kept = discardAttributes (discardsOf info) resolved
                   in if childNodes elementNode \<noteq> []
                      then buildChildren build opts pi kept elementNode previouslySeen
                      else Some (Inr kept))))"

text \<open>
  \<open>buildElement\<close>: the first argument bounds the depth of nested \<open>buildElement\<close>
  calls; \<open>None\<close> means that the bound was reached.
\<close>

fun buildElement :: "nat \<Rightarrow> 'n options \<Rightarrow> parseInfo \<Rightarrow> 'n builder" where
  "buildElement 0 opts pi = (\<lambda>parentNode elementNode previouslySeen. None)"
| "buildElement (Suc n) opts pi = buildElementBody (buildElement n opts pi) opts pi"

section \<open>The default configuration and example documents\<close>

text \<open>
  Modelled from the spec: the default configuration \<open>Specs.default\<close> and the constants
  \<open>CollectionTypePlaceHolder\<close> and \<open>CollectionTypeLabel\<close> of the \<open>specs\<close> module, and
  \<open>EmptyElementInfo\<close> of the \<open>types\<close> module, none of which is in the source. The
  primitives are number then boolean; the collection literal opens with \<open>!<type>[\<close>,
  where the type tag takes the place of \<open><type>\<close>, closes with \<open>]\<close> and separates its
  elements by a comma; string coercion is acceptable; the labels are those the tests
  of the converter read. The runtime functions are arguments.
\<close>

definition defaultOptions :: "(string \<Rightarrow> 'n option) \<Rightarrow> (string \<Rightarrow> string \<Rightarrow> bool option)
    \<Rightarrow> ('n jvalue \<Rightarrow> string) \<Rightarrow> ('n jvalue \<Rightarrow> string \<Rightarrow> 'n jvalue option) \<Rightarrow> 'n options" where
  "defaultOptions num mom key prop =
     \<lparr>labelsAttributes = None,
      labelsElement = ''_'',
      labelsDescendants = ''_children'',
      labelsText = ''_text'',
      coercionActive = True,
      matchers = Some [''primitives'', ''collection'', ''date'', ''symbol'', ''string''],
      primitives = [PNumber, PBoolean],
      dateFormat = ''YYYY-MM-DD'',
      symbolPrefix = ''$'',
      symbolGlobal = True,
      stringAcceptable = True,
      collectionDelim = '','',
      collectionOpen = ''!<type>['',
      collectionClose = '']'',
      assocDelim = ''='',
      assocKeyType = AssocName ''string'',
      assocValueType = AssocName ''string'',
      textTrim = True,
      collectionTypePlaceHolder = ''<type>'',
      collectionTypeLabel = ''type'',
      jsNumber = num,
      jsMoment = mom,
      jsPropertyKey = key,
      jsGetProperty = prop,
      emptyElementInfo = \<lparr>infoId = None, infoRecurse = None, infoDiscards = None,
                           infoDescendants = None\<rparr>\<rparr>"

text \<open>
  An instance of the runtime for the examples: \<open>Number\<close> on the empty string, which
  is 0, and on the strings of decimal digits, which is all the examples need of it
  (every other string of the examples is not a number), and no string of the examples
  is a date.
\<close>

definition digitValue :: "char \<Rightarrow> int option" where
  "digitValue c =
     (let n = (of_char c :: nat) in if 48 \<le> n \<and> n \<le> 57 then Some (int n - 48) else None)"

fun decimalFrom :: "int \<Rightarrow> string \<Rightarrow> int option" where
  "decimalFrom acc [] = Some acc"
| "decimalFrom acc (c # cs) =
     (case digitValue c of None \<Rightarrow> None | Some d \<Rightarrow> decimalFrom (10 * acc + d) cs)"

definition decimalNumber :: "string \<Rightarrow> int option" where
  "decimalNumber s = decimalFrom 0 s"

definition exampleOptions :: "int options" where
  "exampleOptions =
     defaultOptions decimalNumber (\<lambda>v f. Some False) (\<lambda>v. ''[object]'') (\<lambda>v k. None)"

text \<open>The parse info of the converter's tests.\<close>

definition commandInfo :: elementInfo where
  "commandInfo =
     \<lparr>infoId = Some ''name'', infoRecurse = Some ''inherits'',
      infoDiscards = Some [''inherits'', ''abstract''],
      infoDescendants = Some \<lparr>descBy = Some ''index'', throwIfCollision = Some False,
                                throwIfMissing = Some False\<rparr>\<rparr>"

definition testParseInfo :: parseInfo where
  "testParseInfo =
     \<lparr>piElements = (\<lambda>name. if name = ''Command'' then Some commandInfo else None),
      piDef = None\<rparr>"

text \<open>The example configuration with string coercion disallowed.\<close>

definition strictOptions :: "int options" where
  "strictOptions = exampleOptions\<lparr>stringAcceptable := False\<rparr>"

text \<open>
  An entry of an associative collection is malformed when it does not split into
  exactly two parts; \<open>entryCoerces\<close> holds of a well-formed entry whose key and value
  coercions do not raise.
\<close>

definition malformedEntry :: "'n options \<Rightarrow> string \<Rightarrow> bool" where
  "malformedEntry opts collectionPair = (length (split (assocDelim opts) collectionPair) \<noteq> 2)"

definition isRaised :: "'e + 'a \<Rightarrow> bool" where
  "isRaised r = (case r of Inl e \<Rightarrow> True | Inr v \<Rightarrow> False)"

definition entryCoerces :: "'n options \<Rightarrow> string \<Rightarrow> bool" where
  "entryCoerces opts collectionPair =
     (let elements = split (assocDelim opts) collectionPair
      in length elements = 2
         \<and> \<not> isRaised (transformAssoc opts (assocKeyType opts) (elements ! 0))
         \<and> \<not> isRaised (transformAssoc opts (assocValueType opts) (elements ! 1)))"

text \<open>The example configuration with a key type that no associative collection admits.\<close>

definition dateKeyOptions :: "int options" where
  "dateKeyOptions = exampleOptions\<lparr>assocKeyType := AssocName ''date''\<rparr>"

text \<open>A JavaScript object has each of its keys once.\<close>

definition isObject :: "(string \<times> 'v) list \<Rightarrow> bool" where
  "isObject obj = distinct (map fst obj)"

text \<open>\<open>elementInfo.descendants.by\<close>, when the path is present.\<close>

definition descendantsPolicy :: "elementInfo \<Rightarrow> string option" where
  "descendantsPolicy info = (case infoDescendants info of None \<Rightarrow> None | Some d \<Rightarrow> descBy d)"


text \<open>
  Two descendants share a key when \<open>R.includes\<close> finds the key value of the later one
  among the key values collected so far, which hold that of the earlier one.
\<close>

definition sameKey :: "'n options \<Rightarrow> string \<Rightarrow> 'n jvalue \<Rightarrow> 'n jvalue \<Rightarrow> bool" where
  "sameKey opts k later earlier = includesOpt (propOf opts k later) [propOf opts k earlier]"

text \<open>The parse info of the tests with \<open>throwIfMissing\<close> set, and built children.\<close>

definition strictParseInfo :: parseInfo where
  "strictParseInfo =
     \<lparr>piElements = (\<lambda>name. if name = ''Command''
        then Some (commandInfo\<lparr>infoDescendants :=
               Some \<lparr>descBy = Some ''index'', throwIfCollision = Some False,
                      throwIfMissing = Some True\<rparr>\<rparr>)
        else None),
      piDef = None\<rparr>"

definition childA :: "int element" where
  "childA = [(''name'', VStr ''a''), (''_'', VStr ''Command'')]"

definition childA2 :: "int element" where
  "childA2 = [(''name'', VStr ''a''), (''type'', VStr ''second''), (''_'', VStr ''Command'')]"

definition childNoName :: "int element" where
  "childNoName = [(''_'', VStr ''Arguments'')]"


text \<open>
  The parse info \<open>pi\<close> with the \<open>throwIfCollision\<close> field of every declared
  descendants policy replaced: by \<open>f name\<close> for the tag \<open>name\<close>, by \<open>g\<close> for the default
  record. Two parse infos that differ only in \<open>throwIfCollision\<close> fields are related in
  this way.
\<close>

definition setCollisionInfo :: "bool option \<Rightarrow> elementInfo \<Rightarrow> elementInfo" where
  "setCollisionInfo c info =
     info\<lparr>infoDescendants := map_option (\<lambda>d. d\<lparr>throwIfCollision := c\<rparr>) (infoDescendants info)\<rparr>"

definition setCollision :: "(string \<Rightarrow> bool option) \<Rightarrow> bool option \<Rightarrow> parseInfo \<Rightarrow> parseInfo" where
  "setCollision f g pi =
     \<lparr>piElements = (\<lambda>name. map_option (setCollisionInfo (f name)) (piElements pi name)),
      piDef = map_option (setCollisionInfo g) (piDef pi)\<rparr>"

text \<open>Two element infos that are equal up to the \<open>throwIfCollision\<close> field.\<close>

definition sameButCollision :: "elementInfo \<Rightarrow> elementInfo \<Rightarrow> bool" where
  "sameButCollision a b = (a = b \<or> (\<exists>c. a = setCollisionInfo c b))"

text \<open>
  What the circular-reference branch of \<open>recurseThroughAttribute\<close> throws: the message
  of the configuration error is built from the identifier, which throws a \<open>TypeError\<close>
  first when the identifier is a symbol.
\<close>

definition circularError :: "'n jvalue \<Rightarrow> 'n jerror" where
  "circularError identifier =
     (if throwsOnToString identifier then SymbolToStringError else CircularReference identifier)"

text \<open>
  The element of a node before inheritance is resolved: its local attributes and the
  element name. \<open>elementIdentifier\<close> is the identifier that \<open>recurseThroughAttribute\<close>
  reads from it, when the local attributes build.
\<close>

definition localElement :: "'n options \<Rightarrow> xnode \<Rightarrow> 'n jerror + 'n element" where
  "localElement opts node =
     (case buildLocalAttributes opts node of
        Inl e \<Rightarrow> Inl e
      | Inr local \<Rightarrow> Inr (objSet (labelsElement opts) (VStr (nodeName node)) local))"

definition elementIdentifier :: "'n options \<Rightarrow> parseInfo \<Rightarrow> xnode \<Rightarrow> 'n jvalue option" where
  "elementIdentifier opts pi node =
     (case localElement opts node of
        Inl e \<Rightarrow> None
      | Inr element \<Rightarrow> Some (identifierOf element (idKey (getElementInfo opts pi (nodeName node)))))"

text \<open>The identifiers that the recurse attribute of a node lists.\<close>

definition references :: "'n options \<Rightarrow> parseInfo \<Rightarrow> xnode \<Rightarrow> string list" where
  "references opts pi node =
     (let recurseAttr = getAttribute node (recurseOf (getElementInfo opts pi (nodeName node)))
      in if recurseAttr \<noteq> [] then split '','' recurseAttr else [])"

text \<open>The node that a reference of \<open>node\<close> selects, with its parent.\<close>

definition resolve :: "'n options \<Rightarrow> parseInfo \<Rightarrow> xnode option \<Rightarrow> xnode \<Rightarrow> string
    \<Rightarrow> (xnode \<times> xnode) option" where
  "resolve opts pi parentNode node ref =
     selectElementNodeById (nodeName node) (idKey (getElementInfo opts pi (nodeName node))) ref
       parentNode"

text \<open>
  The step of \<open>inheritedElements\<close> for one reference, and whether it returns an element.
\<close>

definition inheritedBuild :: "'n builder \<Rightarrow> string \<Rightarrow> string \<Rightarrow> xnode option \<Rightarrow> 'n jvalue list
    \<Rightarrow> string \<Rightarrow> ('n jerror + 'n element) option" where
  "inheritedBuild build name k parentNode seen at =
     (case selectElementNodeById name k at parentNode of
        None \<Rightarrow> Some (Inl (ElementNotFound name k at))
      | Some found \<Rightarrow> build (Some (fst found)) (snd found) seen)"

definition returnsElement :: "('e + 'a) option \<Rightarrow> bool" where
  "returnsElement r = (case r of Some (Inr el) \<Rightarrow> True | _ \<Rightarrow> False)"

text \<open>
  The documents of the converter's tests for a command that inherits from itself and
  for two commands that inherit from each other.
\<close>

definition selfLeaf :: xnode where
  "selfLeaf = XElement ''Command''
     [(''name'', ''leaf''), (''describe'', ''this is a leaf command''), (''inherits'', ''leaf'')] []"

definition selfDocument :: xnode where
  "selfDocument = XElement ''Commands'' [] [selfLeaf]"

definition cycleAlpha :: xnode where
  "cycleAlpha = XElement ''Command''
     [(''name'', ''alpha-command''), (''inherits'', ''beta-command'')] []"

definition cycleBeta :: xnode where
  "cycleBeta = XElement ''Command''
     [(''name'', ''beta-command''), (''inherits'', ''alpha-command'')] []"

definition cycleDocument :: xnode where
  "cycleDocument = XElement ''Commands'' []
     [cycleAlpha, cycleBeta,
      XElement ''Command''
        [(''name'', ''leaf''), (''inherits'', ''beta-command''),
         (''describe'', ''this is a leaf command'')] []]"



text \<open>
  The value of the key \<open>k\<close> in the latest of the built bases that has the key; and
  whether what a built element has under the descendants label, if anything, is a list.
\<close>

definition latestValue :: "string \<Rightarrow> 'n element list \<Rightarrow> 'n jvalue option" where
  "latestValue k bases =
     (case find (objHas k) (rev bases) of None \<Rightarrow> None | Some b \<Rightarrow> objGet b k)"

definition descendantsAreList :: "'n options \<Rightarrow> 'n element \<Rightarrow> bool" where
  "descendantsAreList opts el =
     (case objGet el (labelsDescendants opts) of
        None \<Rightarrow> True | Some (VArr vs) \<Rightarrow> True | Some v \<Rightarrow> False)"

text \<open>
  The document of the converter's test for two bases that both define \<open>filter\<close>, and
  the built elements of its nodes.
\<close>

definition dualLeaf :: xnode where
  "dualLeaf = XElement ''Command''
     [(''name'', ''leaf''), (''inherits'', ''alpha-command,beta-command''),
      (''describe'', ''this is a leaf command'')] []"

definition dualDocument :: xnode where
  "dualDocument = XElement ''Commands'' []
     [XElement ''Command'' [(''name'', ''alpha-command''), (''filter'', ''alpha'')] [],
      XElement ''Command'' [(''name'', ''beta-command''), (''filter'', ''beta'')] [],
      dualLeaf]"

definition dualLeafElement :: "int element" where
  "dualLeafElement =
     [(''name'', VStr ''leaf''), (''inherits'', VStr ''alpha-command,beta-command''),
      (''describe'', VStr ''this is a leaf command''), (''_'', VStr ''Command'')]"

definition dualBases :: "int element list" where
  "dualBases =
     [[(''name'', VStr ''alpha-command''), (''filter'', VStr ''alpha''), (''_'', VStr ''Command'')],
      [(''name'', VStr ''beta-command''), (''filter'', VStr ''beta''), (''_'', VStr ''Command'')]]"

text \<open>
  A command whose name and \<open>inherits\<close> attribute are the same symbol literal, and the
  example configuration with symbols that are not registered.
\<close>

definition symbolLeaf :: xnode where
  "symbolLeaf = XElement ''Command'' [(''name'', ''$x''), (''inherits'', ''$x'')] []"

definition symbolDocument :: xnode where
  "symbolDocument = XElement ''Commands'' [] [symbolLeaf]"

definition localSymbolOptions :: "int options" where
  "localSymbolOptions = exampleOptions\<lparr>symbolGlobal := False\<rparr>"


text \<open>A command with two child commands of one name, and one with a child without a name.\<close>

definition collidingGroup :: xnode where
  "collidingGroup = XElement ''Command'' [(''name'', ''group'')]
     [XElement ''Command'' [(''name'', ''a'')] [],
      XElement ''Command'' [(''name'', ''a''), (''type'', ''second'')] []]"

definition unnamedGroup :: xnode where
  "unnamedGroup = XElement ''Command'' [(''name'', ''group'')]
     [XElement ''Command'' [(''name'', ''a'')] [], XElement ''Arguments'' [] []]"


text \<open>
  What the built bases of an element leave under the descendants label when they are
  merged in the listed order: nothing when no base has descendants, and otherwise their
  descendants lists one after the other.
\<close>

definition inheritedDescendants :: "'n options \<Rightarrow> 'n element list \<Rightarrow> 'n jvalue option" where
  "inheritedDescendants opts bases =
     (if list_ex (objHas (labelsDescendants opts)) bases
      then Some (VArr (concat (map (descendantsList opts) bases)))
      else None)"

text \<open>
  What \<open>buildChildren\<close> does with the descendants list of an element whose parse info
  is \<open>info\<close> and whose newly built children are \<open>children\<close>: the list is kept when no
  \<open>descendants.by\<close> is declared, when it is neither \<open>index\<close> nor \<open>group\<close>, and when a
  child lacks the id key while \<open>throwIfMissing\<close> is not set; it is re-keyed when every
  child has the id key and \<open>descendants.by\<close> is \<open>index\<close> or \<open>group\<close>.
\<close>

definition missingThrows :: "elementInfo \<Rightarrow> bool" where
  "missingThrows info =
     (case infoDescendants info of None \<Rightarrow> False | Some dinfo \<Rightarrow> isTrue (throwIfMissing dinfo))"

definition keepsList :: "elementInfo \<Rightarrow> 'n element list \<Rightarrow> bool" where
  "keepsList info children =
     (case descendantsPolicy info of
        None \<Rightarrow> True
      | Some by_value \<Rightarrow>
          (if list_all (objHas (idKey info)) children
           then by_value \<noteq> ''index'' \<and> by_value \<noteq> ''group''
           else \<not> missingThrows info))"

definition rekeysBy :: "elementInfo \<Rightarrow> 'n element list \<Rightarrow> string \<Rightarrow> bool" where
  "rekeysBy info children by_value =
     (list_all (objHas (idKey info)) children \<and> descendantsPolicy info = Some by_value)"

text \<open>
  The parse info that \<open>buildChildren\<close> reads for a node: that of its tag, unless the
  discards of the tag remove the element label from the built element.
\<close>

definition childrenInfo :: "'n options \<Rightarrow> parseInfo \<Rightarrow> xnode \<Rightarrow> elementInfo" where
  "childrenInfo opts pi node =
     (if labelsElement opts \<in> set (discardsOf (getElementInfo opts pi (nodeName node)))
      then (case piDef pi of Some info \<Rightarrow> info | None \<Rightarrow> emptyElementInfo opts)
      else getElementInfo opts pi (nodeName node))"

text \<open>
  The document of the converter's test for a command with single inheritance and local
  and inherited arguments and groups, and the elements built from its nodes.
\<close>

definition argumentRef :: "string \<Rightarrow> xnode" where
  "argumentRef name = XElement ''ArgumentRef'' [(''name'', name)] []"

definition singleDuo :: xnode where
  "singleDuo = XElement ''Command'' [(''name'', ''duo-command''), (''abstract'', ''true'')]
     [XElement ''Arguments'' [] [argumentRef ''from'', argumentRef ''to''],
      XElement ''ArgumentGroups'' []
        [XElement ''Implies'' [] [argumentRef ''from'', argumentRef ''to'']]]"

definition singleTest :: xnode where
  "singleTest = XElement ''Command''
     [(''name'', ''test''), (''describe'', ''Test regular expression definitions''),
      (''inherits'', ''duo-command'')]
     [XElement ''Arguments'' []
        [argumentRef ''config'', argumentRef ''expr'', argumentRef ''input''],
      XElement ''ArgumentGroups'' []
        [XElement ''Implies'' []
           [argumentRef ''input'', argumentRef ''expr'', argumentRef ''input'']]]"

definition singleDocument :: xnode where
  "singleDocument = XElement ''Commands'' [] [singleDuo, singleTest]"

definition builtRefs :: "string \<Rightarrow> string list \<Rightarrow> int element" where
  "builtRefs tag names =
     [(''_'', VStr tag),
      (''_children'',
       VArr (map (\<lambda>name. VObj [(''name'', VStr name), (''_'', VStr ''ArgumentRef'')]) names))]"

definition builtGroups :: "string list \<Rightarrow> int element" where
  "builtGroups names =
     [(''_'', VStr ''ArgumentGroups''),
      (''_children'', VArr [VObj (builtRefs ''Implies'' names)])]"

text \<open>
  A command with a child that has the id key, inheriting from a command with two
  children without it; and the parse info of the tests with \<open>by: group\<close>, and with the
  descendants label among the discards and no descendants policy.
\<close>

definition keyedBase :: xnode where
  "keyedBase = XElement ''Command'' [(''name'', ''base'')]
     [XElement ''Arguments'' [] [], XElement ''Groups'' [] []]"

definition keyedLeaf :: xnode where
  "keyedLeaf = XElement ''Command'' [(''name'', ''leaf''), (''inherits'', ''base'')]
     [XElement ''Command'' [(''name'', ''x'')] []]"

definition keyedDocument :: xnode where
  "keyedDocument = XElement ''Commands'' [] [keyedBase, keyedLeaf]"

definition groupParseInfo :: parseInfo where
  "groupParseInfo =
     \<lparr>piElements = (\<lambda>name. if name = ''Command''
        then Some (commandInfo\<lparr>infoDescendants :=
               Some \<lparr>descBy = Some ''group'', throwIfCollision = Some False,
                      throwIfMissing = Some False\<rparr>\<rparr>)
        else None),
      piDef = None\<rparr>"

definition discardChildrenParseInfo :: parseInfo where
  "discardChildrenParseInfo =
     \<lparr>piElements = (\<lambda>name. if name = ''Command''
        then Some (commandInfo\<lparr>infoDiscards := Some [''inherits'', ''abstract'', ''_children''],
                                infoDescendants := None\<rparr>)
        else None),
      piDef = None\<rparr>"

text \<open>
  The document of the converter's test for a command with dual inheritance and local
  and inherited arguments; and a command with an attribute named by the descendants
  label that inherits from a command with children.
\<close>

definition dualUni :: xnode where
  "dualUni = XElement ''Command'' [(''name'', ''uni-command''), (''abstract'', ''true'')]
     [XElement ''Arguments'' []
        [argumentRef ''path'', argumentRef ''filesys'', argumentRef ''tree'']]"

definition dualDuo :: xnode where
  "dualDuo = XElement ''Command'' [(''name'', ''duo-command''), (''abstract'', ''true'')]
     [XElement ''Arguments'' [] [argumentRef ''from'', argumentRef ''to'']]"

definition dualTest :: xnode where
  "dualTest = XElement ''Command''
     [(''name'', ''test''), (''describe'', ''Test regular expression definitions''),
      (''inherits'', ''duo-command,uni-command'')]
     [XElement ''Arguments'' []
        [argumentRef ''config'', argumentRef ''expr'', argumentRef ''input'']]"

definition dualArguments :: xnode where
  "dualArguments = XElement ''Commands'' [] [dualUni, dualDuo, dualTest]"

definition ownLeaf :: xnode where
  "ownLeaf = XElement ''Command''
     [(''name'', ''leaf''), (''inherits'', ''base''), (''_children'', ''!<[]>[1]'')] []"

definition ownDocument :: xnode where
  "ownDocument = XElement ''Commands'' [] [keyedBase, ownLeaf]"

definition builtCommand :: "string \<Rightarrow> int element list \<Rightarrow> int element" where
  "builtCommand name children =
     [(''name'', VStr name), (''_'', VStr ''Command''),
      (''_children'', VArr (map VObj children))]"

definition dualTestElement :: "int element" where
  "dualTestElement =
     [(''name'', VStr ''test''), (''describe'', VStr ''Test regular expression definitions''),
      (''inherits'', VStr ''duo-command,uni-command''), (''_'', VStr ''Command'')]"

definition singleTestElement :: "int element" where
  "singleTestElement =
     [(''name'', VStr ''test''), (''describe'', VStr ''Test regular expression definitions''),
      (''inherits'', VStr ''duo-command''), (''_'', VStr ''Command'')]"









text \<open>
  The inheritance paths from \<open>node\<close>. \<open>revisitsWithin k\<close> gives the identifier that is
  revisited when, within \<open>k\<close> steps along references, the build comes to an element
  with a configured recurse attribute whose identifier is among those seen; the
  references listed before the one that the path takes build to elements.
  \<open>firstRevisit\<close> goes through the references of one element in listed order.
\<close>

fun firstRevisit :: "(string \<Rightarrow> 'a option) \<Rightarrow> (string \<Rightarrow> bool) \<Rightarrow> string list \<Rightarrow> 'a option" where
  "firstRevisit follow builds [] = None"
| "firstRevisit follow builds (ref # refs) =
     (case follow ref of
        Some again \<Rightarrow> Some again
      | None \<Rightarrow> (if builds ref then firstRevisit follow builds refs else None))"

fun revisitsWithin :: "nat \<Rightarrow> 'n options \<Rightarrow> parseInfo \<Rightarrow> xnode option \<Rightarrow> xnode
    \<Rightarrow> 'n jvalue list \<Rightarrow> 'n jvalue option" where
  "revisitsWithin 0 opts pi parentNode node seen =
     (case elementIdentifier opts pi node of
        None \<Rightarrow> None
      | Some ident \<Rightarrow>
          (if isElement node \<and> recurseOf (getElementInfo opts pi (nodeName node)) \<noteq> []
              \<and> ident \<noteq> VStr [] \<and> includesValue ident seen
           then Some ident else None))"
| "revisitsWithin (Suc k) opts pi parentNode node seen =
     (case elementIdentifier opts pi node of
        None \<Rightarrow> None
      | Some ident \<Rightarrow>
          (if isElement node \<and> recurseOf (getElementInfo opts pi (nodeName node)) \<noteq> []
              \<and> ident \<noteq> VStr []
           then (if includesValue ident seen then Some ident
                 else firstRevisit
                        (\<lambda>ref. case resolve opts pi parentNode node ref of
                                 None \<Rightarrow> None
                               | Some found \<Rightarrow>
                                   revisitsWithin k opts pi (Some (fst found)) (snd found)
                                     (seen @ [ident]))
                        (\<lambda>ref. returnsElement
                                 (inheritedBuild (buildElement k opts pi) (nodeName node)
                                    (idKey (getElementInfo opts pi (nodeName node)))
                                    parentNode (seen @ [ident]) ref))
                        (references opts pi node))
           else None))"

text \<open>A command whose second reference is the command itself.\<close>

definition secondLeaf :: xnode where
  "secondLeaf = XElement ''Command'' [(''name'', ''leaf''), (''inherits'', ''base,leaf'')] []"

definition secondDocument :: xnode where
  "secondDocument = XElement ''Commands'' []
     [XElement ''Command'' [(''name'', ''base'')] [], secondLeaf]"

text \<open>
  The document of the converter's test for a chain of three commands with local and
  inherited arguments.
\<close>

definition chainDuo :: xnode where
  "chainDuo = XElement ''Command''
     [(''name'', ''duo-command''), (''abstract'', ''true''), (''inherits'', ''uni-command'')]
     [XElement ''Arguments'' [] [argumentRef ''from'', argumentRef ''to'']]"

definition chainTest :: xnode where
  "chainTest = XElement ''Command''
     [(''name'', ''test''), (''describe'', ''Test regular expression definitions''),
      (''inherits'', ''duo-command'')]
     [XElement ''Arguments'' []
        [argumentRef ''config'', argumentRef ''expr'', argumentRef ''input'']]"

definition chainDocument :: xnode where
  "chainDocument = XElement ''Commands'' [] [dualUni, chainDuo, chainTest]"

section \<open>Properties of the transformer chain\<close>

lemma coerceSome_skip:
  "\<forall>m \<in> set pre. \<exists>r. getTransformer opts (toLower m) raw = Inr r \<and> \<not> succeeded r
   \<Longrightarrow> coerceSome opts raw (pre @ rest) = coerceSome opts raw rest"
  by (induction pre) auto

text \<open>
  C4. The matchers are tried in the configured order. When the matchers \<open>pre\<close> all
  fail without raising: a next matcher that succeeds gives the result; when there is no
  further matcher the result is the raw string; and when the next matcher is the string
  matcher and string coercion is configured as not acceptable, the coercion raises the
  solicited error of the string matcher.
\<close>

theorem coerceAttributeValue_first_success_wins:
  assumes soft: "\<forall>m \<in> set pre. \<exists>r. getTransformer opts (toLower m) raw = Inr r \<and> \<not> succeeded r"
  shows "(getTransformer opts (toLower mt) raw = Inr r \<and> succeeded r
            \<longrightarrow> coerceAttributeValue opts (Some (pre @ mt # post)) raw = Inr (tvalue r))
       \<and> coerceAttributeValue opts (Some pre) raw = Inr (VStr raw)
       \<and> (toLower mt = ''string'' \<and> \<not> stringAcceptable opts
            \<longrightarrow> coerceAttributeValue opts (Some (pre @ mt # post)) raw = Inl StringMatcherTerminated
                \<and> classOf (StringMatcherTerminated :: 'n jerror) = JaxSolicitedError)"
proof -
  have skip: "\<And>rest. coerceSome opts raw (pre @ rest) = coerceSome opts raw rest"
    using soft by (rule coerceSome_skip)
  have a: "getTransformer opts (toLower mt) raw = Inr r \<and> succeeded r
            \<longrightarrow> coerceAttributeValue opts (Some (pre @ mt # post)) raw = Inr (tvalue r)"
    by (simp add: coerceAttributeValue_def skip)
  have b: "coerceAttributeValue opts (Some pre) raw = Inr (VStr raw)"
    using skip [of "[]"] by (simp add: coerceAttributeValue_def)
  have c: "toLower mt = ''string'' \<and> \<not> stringAcceptable opts
            \<longrightarrow> coerceAttributeValue opts (Some (pre @ mt # post)) raw = Inl StringMatcherTerminated"
    by (simp add: coerceAttributeValue_def skip getTransformer_def transformString_def)
  show ?thesis using a b c by simp
qed

theorem coerceAttributeValue_first_success_wins_witness:
  "coerceAttributeValue strictOptions (Some [''number'', ''Boolean'', ''string'']) ''TRUE''
     = Inr (VBool True)
   \<and> coerceAttributeValue strictOptions (Some [''number'']) ''TRUE'' = Inr (VStr ''TRUE'')
   \<and> coerceAttributeValue strictOptions (Some [''number'', ''String'']) ''TRUE''
     = Inl StringMatcherTerminated"
proof -
  have n: "getTransformer strictOptions (toLower ''number'') ''TRUE''
             = Inr \<lparr>tvalue = VStr ''TRUE'', succeeded = False\<rparr>"
    by code_simp
  have soft: "\<forall>m \<in> set [''number''].
      \<exists>r. getTransformer strictOptions (toLower m) ''TRUE'' = Inr r \<and> \<not> succeeded r"
    using n by simp
  have b: "getTransformer strictOptions (toLower ''Boolean'') ''TRUE''
             = Inr \<lparr>tvalue = VBool True, succeeded = True\<rparr>"
    by code_simp
  have s: "toLower ''String'' = ''string''" by code_simp
  have f: "\<not> stringAcceptable strictOptions" by (simp add: strictOptions_def)
  show ?thesis
    using coerceAttributeValue_first_success_wins [OF soft, of "''Boolean''"
            "\<lparr>tvalue = VBool True, succeeded = True\<rparr>" "[''string'']"]
          coerceAttributeValue_first_success_wins [OF soft, of "''String''" _ "[]"]
          b s f
    by simp
qed

lemma isRaised_simps [simp]: "isRaised (Inl e)" "\<not> isRaised (Inr v)"
  by (simp_all add: isRaised_def)

lemma assocPairs_malformed_raises:
  "malformedEntry opts seg \<Longrightarrow> isRaised (assocPairs opts acc (pre @ seg # post))"
proof (induction pre arbitrary: acc)
  case Nil
  then show ?case by (simp add: malformedEntry_def)
next
  case (Cons p pre)
  have ih: "\<And>acc'. isRaised (assocPairs opts acc' (pre @ seg # post))"
    using Cons.IH [OF Cons.prems] .
  show ?case
    by (simp add: Let_def ih split: sum.splits)
qed

lemma assocPairs_first_malformed:
  "malformedEntry opts seg \<Longrightarrow> list_all (entryCoerces opts) pre
   \<Longrightarrow> assocPairs opts acc (pre @ seg # post) = Inl (MalformedMapEntry seg)"
proof (induction pre arbitrary: acc)
  case Nil
  then show ?case by (simp add: malformedEntry_def)
next
  case (Cons p pre)
  then show ?case
    by (auto simp add: Let_def entryCoerces_def isRaised_def split: sum.splits)
qed

text \<open>
  C7, as the claim states it, fails: with a key type that is not admitted, the first
  well-formed entry of \<open>!<map>[a=b,c]\<close> raises a configuration error, and the malformed
  entry \<open>c\<close> after it raises no parse error.
\<close>

theorem malformed_entry_config_error_counterexample:
  "malformedEntry dateKeyOptions ''c''
   \<and> transformAssociativeCollection dateKeyOptions ''map'' [''a=b'', ''c'']
       = Inl (InvalidAssocValueType ''date'')
   \<and> transformCollection dateKeyOptions ''!<map>[a=b,c]'' = Inl (InvalidAssocValueType ''date'')
   \<and> classOf (InvalidAssocValueType ''date'' :: int jerror) \<noteq> JaxParseError"
  by code_simp

text \<open>
  C7, amended. An associative collection with a malformed entry always raises: it
  gives no transform result, soft or otherwise, and the entry is not dropped. The
  error is the parse error naming the first malformed entry whenever the key and value
  coercions of the entries before it do not raise.
\<close>

theorem malformed_entry_raises:
  assumes bad: "malformedEntry opts seg"
  shows "isRaised (transformAssociativeCollection opts ct (pre @ seg # post))
       \<and> (list_all (entryCoerces opts) pre
            \<longrightarrow> transformAssociativeCollection opts ct (pre @ seg # post) = Inl (MalformedMapEntry seg)
                \<and> classOf (MalformedMapEntry seg :: 'n jerror) = JaxParseError)"
proof -
  have a: "isRaised (transformAssociativeCollection opts ct (pre @ seg # post))"
    using assocPairs_malformed_raises [OF bad, of "[]" pre post]
    by (cases "assocPairs opts [] (pre @ seg # post)")
       (simp_all add: transformAssociativeCollection_def)
  have b: "list_all (entryCoerces opts) pre
       \<longrightarrow> transformAssociativeCollection opts ct (pre @ seg # post) = Inl (MalformedMapEntry seg)"
    using assocPairs_first_malformed [OF bad, of pre "[]" post]
    by (simp add: transformAssociativeCollection_def)
  show ?thesis using a b by simp
qed

theorem malformed_entry_raises_witness:
  "malformedEntry exampleOptions ''c'' \<and> list_all (entryCoerces exampleOptions) [''a=b'']
   \<and> isRaised (transformAssociativeCollection exampleOptions ''map'' [''a=b'', ''c''])
   \<and> transformAssociativeCollection exampleOptions ''map'' [''a=b'', ''c'']
       = Inl (MalformedMapEntry ''c'')"
proof -
  have bad: "malformedEntry exampleOptions ''c''" by code_simp
  have ok: "list_all (entryCoerces exampleOptions) [''a=b'']" by code_simp
  show ?thesis
    using malformed_entry_raises [OF bad, of "''map''" "[''a=b'']" "[]"] bad ok by simp
qed

lemma collection_literal_facts:
  "typeExprExec ''!<[]>[1,collection]'' = Some ''[]''"
  "replaceFirst ''<type>'' ''<[]>'' ''!<type>['' = ''!<[]>[''"
  "startsWith ''!<[]>[1,collection]'' ''!<[]>[''"
  "endsWith ''!<[]>[1,collection]'' '']''"
  "extractCoreCollectionValue ''!<[]>['' '']'' ''!<[]>[1,collection]'' = ''1,collection''"
  "split '','' ''1,collection'' = [''1'', ''collection'']"
  "isUnaryCollection ''[]''"
  "toLower ''1'' = ''1''"
  "toLower ''collection'' = ''collection''"
  by code_simp+

text \<open>
  C8. Under the default configuration, with any runtime, the unary collection literal
  \<open>!<[]>[1,collection]\<close> gives no transform result: \<open>transformPrimitives\<close> tests the
  item itself, not the configured primitives, against the names \<open>primitives\<close> and
  \<open>collection\<close>, and raises a configuration error.
\<close>

theorem collection_item_named_collection_raises:
  "transformCollection (defaultOptions num mom key prop) ''!<[]>[1,collection]''
     = Inl (PrimitivesCannotContain ''collection'')"
  apply (simp only: transformCollection_def extractTypeFromCollectionValue_def defaultOptions_def
        collection_literal_facts Let_def options.simps option.simps append.simps if_True refl)
  apply (simp add: collection_literal_facts transformUnaryCollection_def transformPrimitives_def)
  done

section \<open>Properties of objects and merges\<close>

lemma objGet_objSet: "objGet (objSet k v obj) k' = (if k' = k then Some v else objGet obj k')"
  by (induction obj) (auto simp: objGet_def)

lemma objGet_Cons: "objGet (kv # obj) k = (if k = fst kv then Some (snd kv) else objGet obj k)"
  by (cases kv) (simp add: objGet_def)

lemma objGet_None_iff: "objGet obj k = None \<longleftrightarrow> k \<notin> fst ` set obj"
  by (simp add: objGet_def map_of_eq_None_iff)

lemma objGet_mergeAll2_absent:
  "objGet b k = None \<Longrightarrow> objGet (mergeAll2 a b) k = objGet a k"
proof (induction b arbitrary: a)
  case Nil
  then show ?case by (simp add: mergeAll2_def)
next
  case (Cons x b)
  have "objGet b k = None" and "k \<noteq> fst x"
    using Cons.prems by (auto simp: objGet_Cons split: if_splits)
  then show ?case
    using Cons.IH [of "objSet (fst x) (snd x) a"]
    by (simp add: mergeAll2_def objGet_objSet)
qed

lemma objGet_mergeAll2:
  "isObject b \<Longrightarrow>
   objGet (mergeAll2 a b) k = (case objGet b k of Some v \<Rightarrow> Some v | None \<Rightarrow> objGet a k)"
proof (induction b arbitrary: a)
  case Nil
  then show ?case by (simp add: mergeAll2_def objGet_def)
next
  case (Cons x b)
  have ob: "isObject b" and fresh: "fst x \<notin> fst ` set b"
    using Cons.prems by (auto simp: isObject_def)
  have step: "mergeAll2 a (x # b) = mergeAll2 (objSet (fst x) (snd x) a) b"
    by (simp add: mergeAll2_def)
  show ?case
  proof (cases "k = fst x")
    case True
    then have "objGet b k = None" using fresh by (simp add: objGet_None_iff)
    then show ?thesis
      using True by (simp add: step objGet_mergeAll2_absent objGet_objSet objGet_Cons)
  next
    case False
    then show ?thesis
      using Cons.IH [OF ob, of "objSet (fst x) (snd x) a"]
      by (simp add: step objGet_objSet objGet_Cons split: option.splits)
  qed
qed

lemma elementInfoOf_objSet:
  "k \<noteq> labelsElement opts \<Longrightarrow> elementInfoOf opts pi (objSet k v element) = elementInfoOf opts pi element"
  by (simp add: elementInfoOf_def objGet_objSet)

lemma objGet_attachText:
  "k \<noteq> labelsText opts \<Longrightarrow> objGet (attachText opts node element) k = objGet element k"
  by (simp add: attachText_def Let_def objGet_objSet)

section \<open>Properties of the descendants policy\<close>




lemma find_snoc:
  "find P (xs @ [x]) = (case find P xs of Some v \<Rightarrow> Some v | None \<Rightarrow> if P x then Some x else None)"
  by (induction xs) auto



section \<open>Independence of the collision flag\<close>

lemma getElementInfo_setCollision:
  "sameButCollision (getElementInfo opts (setCollision f g pi) name) (getElementInfo opts pi name)"
  by (auto simp: getElementInfo_def setCollision_def sameButCollision_def split: option.splits)

lemma elementInfoOf_setCollision:
  "sameButCollision (elementInfoOf opts (setCollision f g pi) element) (elementInfoOf opts pi element)"
proof (cases "\<exists>name. objGet element (labelsElement opts) = Some (VStr name)")
  case True
  then show ?thesis
    using getElementInfo_setCollision [of opts f g pi] by (auto simp: elementInfoOf_def)
next
  case False
  then have "\<And>p. elementInfoOf opts p element
               = (case piDef p of Some info \<Rightarrow> info | None \<Rightarrow> emptyElementInfo opts)"
    by (auto simp: elementInfoOf_def split: option.splits jvalue.splits)
  then show ?thesis
    by (auto simp: setCollision_def sameButCollision_def split: option.splits)
qed

lemma sameButCollision_fields:
  assumes "sameButCollision a b"
  shows "idKey a = idKey b" "recurseOf a = recurseOf b" "discardsOf a = discardsOf b"
    "map_option descBy (infoDescendants a) = map_option descBy (infoDescendants b)"
    "map_option throwIfMissing (infoDescendants a) = map_option throwIfMissing (infoDescendants b)"
  using assms
  by (auto simp: sameButCollision_def setCollisionInfo_def idKey_def recurseOf_def discardsOf_def
        option.map_comp comp_def)

lemma indexDescendants_setCollision:
  "indexDescendants opts (setCollision f g pi) element children
     = indexDescendants opts pi element children"
proof -
  let ?a = "elementInfoOf opts (setCollision f g pi) element"
  let ?b = "elementInfoOf opts pi element"
  have s: "sameButCollision ?a ?b" by (rule elementInfoOf_setCollision)
  note flds = sameButCollision_fields [OF s]
  show ?thesis
  proof (cases "infoDescendants ?b")
    case None
    then have "infoDescendants ?a = None" using flds(4) by simp
    then show ?thesis using None by (simp add: indexDescendants_def Let_def)
  next
    case (Some db)
    then obtain da where da: "infoDescendants ?a = Some da"
      and byEq: "descBy da = descBy db" and miss: "throwIfMissing da = throwIfMissing db"
      using flds(4) flds(5) by (cases "infoDescendants ?a") auto
    show ?thesis
      by (cases "descBy db")
         (simp_all add: indexDescendants_def Let_def da Some byEq miss flds(1)
            cong: sum.case_cong)
  qed
qed

lemma buildChildren_setCollision:
  "buildChildren build opts (setCollision f g pi) = buildChildren build opts pi"
  by (intro ext)
     (simp add: buildChildren_def indexDescendants_setCollision
        cong: option.case_cong sum.case_cong)

lemma recurseThroughAttribute_setCollision:
  "recurseThroughAttribute build opts (setCollision f g pi)
     = recurseThroughAttribute build opts pi"
proof (intro ext)
  fix element elementNode parentNode previouslySeen
  note flds = sameButCollision_fields
    [OF getElementInfo_setCollision [of opts f g pi "nodeName elementNode"]]
  show "recurseThroughAttribute build opts (setCollision f g pi) element elementNode parentNode
          previouslySeen
        = recurseThroughAttribute build opts pi element elementNode parentNode previouslySeen"
    by (simp add: recurseThroughAttribute_def Let_def flds(1) flds(2)
          cong: option.case_cong sum.case_cong if_cong)
qed

lemma buildElementBody_setCollision:
  "buildElementBody build opts (setCollision f g pi) = buildElementBody build opts pi"
proof (intro ext)
  fix parentNode elementNode previouslySeen
  note flds = sameButCollision_fields
    [OF getElementInfo_setCollision [of opts f g pi "nodeName elementNode"]]
  show "buildElementBody build opts (setCollision f g pi) parentNode elementNode previouslySeen
        = buildElementBody build opts pi parentNode elementNode previouslySeen"
    by (simp add: buildElementBody_def Let_def flds(2) flds(3)
          recurseThroughAttribute_setCollision buildChildren_setCollision
          cong: option.case_cong sum.case_cong if_cong)
qed

lemma buildElement_setCollision:
  "buildElement n opts (setCollision f g pi) = buildElement n opts pi"
  by (induction n) (simp_all add: buildElementBody_setCollision)

text \<open>
  C10. The result of \<open>buildElement\<close>, a built element or an error, is the same for two
  parse infos that differ only in \<open>throwIfCollision\<close> fields: the field is never read.
\<close>

theorem buildElement_ignores_throwIfCollision:
  "buildElement n opts (setCollision f g pi) parentNode elementNode previouslySeen
     = buildElement n opts pi parentNode elementNode previouslySeen"
  by (simp add: buildElement_setCollision)

section \<open>Properties of inheritance\<close>

lemma inheritedElements_step:
  "inheritedElements build name k parentNode seen (at # ats)
     = (case inheritedBuild build name k parentNode seen at of
          None \<Rightarrow> None
        | Some (Inl e) \<Rightarrow> Some (Inl e)
        | Some (Inr el) \<Rightarrow>
            (case inheritedElements build name k parentNode seen ats of
               None \<Rightarrow> None
             | Some (Inl e) \<Rightarrow> Some (Inl e)
             | Some (Inr els) \<Rightarrow> Some (Inr (el # els))))"
  by (simp add: inheritedBuild_def split: option.splits)

lemma inheritedElements_raise:
  "list_all (\<lambda>r. returnsElement (inheritedBuild build name k parentNode seen r)) pre
   \<Longrightarrow> inheritedBuild build name k parentNode seen ref = Some (Inl e)
   \<Longrightarrow> inheritedElements build name k parentNode seen (pre @ ref # post) = Some (Inl e)"
proof (induction pre)
  case Nil
  then show ?case by (simp add: inheritedElements_step del: inheritedElements.simps)
next
  case (Cons r pre)
  then show ?case
    by (auto simp add: inheritedElements_step returnsElement_def
          simp del: inheritedElements.simps split: option.splits sum.splits)
qed

lemma recurse_circular:
  assumes "identifierOf element (idKey (getElementInfo opts pi (nodeName node))) = ident"
    and "ident \<noteq> VStr []" and "recurseOf (getElementInfo opts pi (nodeName node)) \<noteq> []"
    and "includesValue ident seen"
  shows "recurseThroughAttribute build opts pi element node parentNode seen
           = Some (Inl (circularError ident))"
  using assms by (simp add: recurseThroughAttribute_def Let_def circularError_def)

lemma recurse_inherited_raise:
  assumes id: "identifierOf element (idKey (getElementInfo opts pi (nodeName node))) = ident"
    and ne: "ident \<noteq> VStr []" and rec: "recurseOf (getElementInfo opts pi (nodeName node)) \<noteq> []"
    and unseen: "\<not> includesValue ident seen"
    and refs: "references opts pi node = pre @ ref # post"
    and pre: "list_all (\<lambda>r. returnsElement
                (inheritedBuild build (nodeName node) (idKey (getElementInfo opts pi (nodeName node)))
                   parentNode (seen @ [ident]) r)) pre"
    and raise: "inheritedBuild build (nodeName node) (idKey (getElementInfo opts pi (nodeName node)))
                   parentNode (seen @ [ident]) ref = Some (Inl e)"
  shows "recurseThroughAttribute build opts pi element node parentNode seen = Some (Inl e)"
proof -
  let ?info = "getElementInfo opts pi (nodeName node)"
  let ?attr = "getAttribute node (recurseOf ?info)"
  have attr: "?attr \<noteq> []" and sp: "split '','' ?attr = pre @ ref # post"
    using refs by (auto simp: references_def Let_def split: if_splits)
  show ?thesis
  proof (cases "length (split '','' ?attr) > 1")
    case True
    have "inheritedElements build (nodeName node) (idKey ?info) parentNode (seen @ [ident])
            (pre @ ref # post) = Some (Inl e)"
      using pre raise by (rule inheritedElements_raise)
    then show ?thesis
      using id ne rec unseen attr sp True
      by (simp add: recurseThroughAttribute_def Let_def inheritSeveral_def)
  next
    case False
    then have "pre = []" "post = []" using sp by (cases pre; simp)+
    then have hd: "hd (split '','' ?attr) = ref" using sp by simp
    show ?thesis
      using id ne rec unseen attr False hd raise
      by (auto simp add: recurseThroughAttribute_def Let_def inheritSingle_def inheritedBuild_def
            split: option.splits)
  qed
qed

lemma buildElementBody_recurse:
  assumes "localElement opts node = Inr element" and "isElement node"
    and "recurseOf (getElementInfo opts pi (nodeName node)) \<noteq> []"
    and "recurseThroughAttribute build opts pi element node parentNode seen = Some (Inl e)"
  shows "buildElementBody build opts pi parentNode node seen = Some (Inl e)"
  using assms
  by (auto simp add: buildElementBody_def localElement_def Let_def split: sum.splits)

lemma includesValue_append:
  "includesValue v (seen @ ws) = (includesValue v seen \<or> includesValue v ws)"
  by (simp add: includesValue_def)

lemma body_circular:
  assumes el: "isElement node"
    and rec: "recurseOf (getElementInfo opts pi (nodeName node)) \<noteq> []"
    and id: "elementIdentifier opts pi node = Some ident"
    and ne: "ident \<noteq> VStr []"
    and seen: "includesValue ident seen"
  shows "buildElementBody build opts pi parentNode node seen
           = Some (Inl (circularError ident))"
proof -
  obtain element where le: "localElement opts node = Inr element"
    and ie: "identifierOf element (idKey (getElementInfo opts pi (nodeName node))) = ident"
    using id by (auto simp: elementIdentifier_def split: sum.splits)
  show ?thesis
    using buildElementBody_recurse [OF le el rec recurse_circular [OF ie ne rec seen]] .
qed

lemma body_inherited_raise:
  assumes el: "isElement node"
    and rec: "recurseOf (getElementInfo opts pi (nodeName node)) \<noteq> []"
    and id: "elementIdentifier opts pi node = Some ident"
    and ne: "ident \<noteq> VStr []"
    and unseen: "\<not> includesValue ident seen"
    and refs: "references opts pi node = pre @ ref # post"
    and pre: "list_all (\<lambda>r. returnsElement
                (inheritedBuild build (nodeName node) (idKey (getElementInfo opts pi (nodeName node)))
                   parentNode (seen @ [ident]) r)) pre"
    and res: "resolve opts pi parentNode node ref = Some found"
    and raise: "build (Some (fst found)) (snd found) (seen @ [ident]) = Some (Inl e)"
  shows "buildElementBody build opts pi parentNode node seen = Some (Inl e)"
proof -
  obtain element where le: "localElement opts node = Inr element"
    and ie: "identifierOf element (idKey (getElementInfo opts pi (nodeName node))) = ident"
    using id by (auto simp: elementIdentifier_def split: sum.splits)
  have ib: "inheritedBuild build (nodeName node) (idKey (getElementInfo opts pi (nodeName node)))
              parentNode (seen @ [ident]) ref = Some (Inl e)"
    using res raise by (simp add: inheritedBuild_def resolve_def)
  show ?thesis
    using buildElementBody_recurse
            [OF le el rec recurse_inherited_raise [OF ie ne rec unseen refs pre ib]] .
qed

section \<open>Precedence of inherited attributes\<close>

lemma objHas_objGet: "objHas k obj \<longleftrightarrow> objGet obj k \<noteq> None"
  by (simp add: objHas_def objGet_None_iff)

lemma returnsElement_iff: "returnsElement x \<longleftrightarrow> (\<exists>el. x = Some (Inr el))"
  by (auto simp: returnsElement_def split: option.splits sum.splits)

lemma latestValue_Nil: "latestValue k [] = None"
  by (simp add: latestValue_def)

lemma latestValue_Cons:
  "latestValue k (b # bases)
     = (case latestValue k bases of Some v \<Rightarrow> Some v | None \<Rightarrow> objGet b k)"
proof (cases "find (objHas k) (rev bases)")
  case None
  then show ?thesis
    by (auto simp: latestValue_def find_snoc objHas_objGet)
next
  case (Some b')
  then have "objHas k b'" by (auto simp: find_Some_iff)
  then obtain v where "objGet b' k = Some v" by (auto simp: objHas_objGet)
  then show ?thesis using Some by (simp add: latestValue_def find_snoc)
qed

lemma doMergeElements_lookup:
  assumes "isObject b" and "doMergeElements opts a b = Inr m" and "k \<noteq> labelsDescendants opts"
  shows "objGet m k = (case objGet b k of Some v \<Rightarrow> Some v | None \<Rightarrow> objGet a k)"
  using assms
  by (auto simp: doMergeElements_def Let_def objGet_objSet objGet_mergeAll2
        split: option.splits sum.splits)

lemma reduceMerge_lookup:
  "list_all isObject bases \<Longrightarrow> reduceMerge opts acc bases = Inr merged
   \<Longrightarrow> k \<noteq> labelsDescendants opts
   \<Longrightarrow> objGet merged k = (case latestValue k bases of Some v \<Rightarrow> Some v | None \<Rightarrow> objGet acc k)"
proof (induction bases arbitrary: acc)
  case Nil
  then show ?case by (simp add: latestValue_Nil)
next
  case (Cons b bases)
  obtain m1 where m1: "doMergeElements opts acc b = Inr m1"
    and rest: "reduceMerge opts m1 bases = Inr merged"
    using Cons.prems(2) by (auto split: sum.splits)
  have ob: "isObject b" and obs: "list_all isObject bases" using Cons.prems(1) by simp_all
  have l1: "objGet m1 k = (case objGet b k of Some v \<Rightarrow> Some v | None \<Rightarrow> objGet acc k)"
    using doMergeElements_lookup [OF ob m1 Cons.prems(3)] .
  show ?case
    using Cons.IH [OF obs rest Cons.prems(3)] l1
    by (simp add: latestValue_Cons split: option.splits)
qed

lemma descendantsAreList_doMerge:
  assumes "isObject b" and "descendantsAreList opts a" and "descendantsAreList opts b"
  shows "\<exists>m. doMergeElements opts a b = Inr m \<and> descendantsAreList opts m"
  using assms
  by (auto simp: doMergeElements_def descendantsAreList_def Let_def concatValues_def
        objGet_objSet objGet_mergeAll2 split: option.splits jvalue.splits)

lemma reduceMerge_returns:
  "list_all isObject bases \<Longrightarrow> list_all (descendantsAreList opts) bases
   \<Longrightarrow> descendantsAreList opts acc \<Longrightarrow> \<exists>m. reduceMerge opts acc bases = Inr m"
proof (induction bases arbitrary: acc)
  case Nil
  then show ?case by simp
next
  case (Cons b bases)
  obtain m1 where m1: "doMergeElements opts acc b = Inr m1" and d1: "descendantsAreList opts m1"
    using descendantsAreList_doMerge [of b opts acc] Cons.prems by auto
  show ?case using Cons.IH [of m1] Cons.prems m1 d1 by simp
qed

lemma inheritedElements_nth:
  "inheritedElements build name k parentNode seen refs = Some (Inr bases)
   \<Longrightarrow> length bases = length refs
       \<and> (\<forall>i < length refs. inheritedBuild build name k parentNode seen (refs ! i)
                               = Some (Inr (bases ! i)))"
proof (induction refs arbitrary: bases)
  case Nil
  then show ?case by simp
next
  case (Cons r refs)
  obtain b bs where b: "inheritedBuild build name k parentNode seen r = Some (Inr b)"
    and bs: "inheritedElements build name k parentNode seen refs = Some (Inr bs)"
    and eq: "bases = b # bs"
    using Cons.prems
    by (auto simp add: inheritedElements_step simp del: inheritedElements.simps
          split: option.splits sum.splits)
  show ?case
    using Cons.IH [OF bs] b eq by (auto simp: nth_Cons split: nat.splits)
qed

lemma objGet_dissoc: "objGet (dissoc a obj) k = (if k = a then None else objGet obj k)"
  by (induction obj) (auto simp: objGet_def dissoc_def)

lemma objGet_discardAttributes:
  "objGet (discardAttributes ds obj) k = (if k \<in> set ds then None else objGet obj k)"
proof (induction ds arbitrary: obj)
  case Nil
  then show ?case by (simp add: discardAttributes_def)
next
  case (Cons a ds)
  have "discardAttributes (a # ds) obj = discardAttributes ds (dissoc a obj)"
    by (simp add: discardAttributes_def)
  then show ?case using Cons.IH [of "dissoc a obj"] by (simp add: objGet_dissoc)
qed

lemma mergeDescendants_other:
  "mergeDescendants opts element children = Inr m \<Longrightarrow> k \<noteq> labelsDescendants opts
   \<Longrightarrow> objGet m k = objGet element k"
  by (auto simp: mergeDescendants_def Let_def objGet_objSet split: option.splits sum.splits)

lemma indexDescendants_other:
  assumes "indexDescendants opts pi element children = Inr m" and "k \<noteq> labelsDescendants opts"
  shows "objGet m k = objGet element k"
proof (cases "infoDescendants (elementInfoOf opts pi element)")
  case None
  then show ?thesis using assms by (simp add: indexDescendants_def Let_def)
next
  case (Some dinfo)
  show ?thesis
  proof (cases "descBy dinfo")
    case None
    then show ?thesis using assms Some by (simp add: indexDescendants_def Let_def)
  next
    case (Some b)
    then show ?thesis
      using assms \<open>infoDescendants (elementInfoOf opts pi element) = Some dinfo\<close>
      by (auto simp: indexDescendants_def Let_def objGet_objSet split: if_splits sum.splits)
  qed
qed

lemma buildChildren_other:
  assumes "buildChildren build opts pi element node seen = Some (Inr final)"
    and "k \<noteq> labelsDescendants opts" and "k \<noteq> labelsText opts"
  shows "objGet final k = objGet element k"
proof (cases "filter isElement (childNodes node) \<noteq> []")
  case False
  then show ?thesis using assms by (auto simp: buildChildren_def objGet_attachText)
next
  case True
  then obtain children merged indexed where
    m: "mergeDescendants opts element children = Inr merged"
    and i: "indexDescendants opts pi merged children = Inr indexed"
    and f: "final = attachText opts node indexed"
    using assms(1) by (auto simp: buildChildren_def split: option.splits sum.splits)
  show ?thesis
    using mergeDescendants_other [OF m assms(2)] indexDescendants_other [OF i assms(2)]
    by (simp add: f objGet_attachText [OF assms(3)])
qed

lemma buildElementBody_resolved:
  assumes le: "localElement opts node = Inr element" and el: "isElement node"
    and rec: "recurseOf (getElementInfo opts pi (nodeName node)) \<noteq> []"
    and fin: "buildElementBody build opts pi parentNode node seen = Some (Inr final)"
  shows "\<exists>r. recurseThroughAttribute build opts pi element node parentNode seen = Some (Inr r)
            \<and> (\<forall>k. k \<notin> set (discardsOf (getElementInfo opts pi (nodeName node)))
                   \<and> k \<noteq> labelsDescendants opts \<and> k \<noteq> labelsText opts
                  \<longrightarrow> objGet final k = objGet r k)"
proof -
  let ?info = "getElementInfo opts pi (nodeName node)"
  obtain local where loc: "buildLocalAttributes opts node = Inr local"
    and e: "element = objSet (labelsElement opts) (VStr (nodeName node)) local"
    using le by (auto simp: localElement_def split: sum.splits)
  obtain r where r: "recurseThroughAttribute build opts pi element node parentNode seen
                       = Some (Inr r)"
    and rest: "(if childNodes node \<noteq> []
                then buildChildren build opts pi (discardAttributes (discardsOf ?info) r) node seen
                else Some (Inr (discardAttributes (discardsOf ?info) r))) = Some (Inr final)"
    using fin el rec
    by (auto simp: buildElementBody_def loc Let_def e [symmetric] split: option.splits sum.splits)
  have "\<forall>k. k \<notin> set (discardsOf ?info) \<and> k \<noteq> labelsDescendants opts \<and> k \<noteq> labelsText opts
          \<longrightarrow> objGet final k = objGet r k"
  proof (intro allI impI)
    fix k
    assume k: "k \<notin> set (discardsOf ?info) \<and> k \<noteq> labelsDescendants opts \<and> k \<noteq> labelsText opts"
    show "objGet final k = objGet r k"
    proof (cases "childNodes node \<noteq> []")
      case True
      then have "buildChildren build opts pi (discardAttributes (discardsOf ?info) r) node seen
                   = Some (Inr final)"
        using rest by simp
      then show ?thesis
        using buildChildren_other [of build opts pi _ node seen final k] k
        by (simp add: objGet_discardAttributes)
    next
      case False
      then show ?thesis using rest k by (auto simp: objGet_discardAttributes)
    qed
  qed
  then show ?thesis using r by blast
qed

text \<open>
  C2. Let the references of an element build to the elements \<open>bases\<close>, in the order in
  which the recurse attribute lists them. Then \<open>recurseThroughAttribute\<close> returns an
  element (provided that what each base has under the descendants label is a list),
  and in the element it returns every key other than the descendants label has the
  value of the element's own local attribute when there is one, and otherwise the value
  from the latest-listed base that has the key. The element that \<open>buildElement\<close>
  returns has the same value for every such key that is neither discarded nor the text
  label.
\<close>

theorem inherited_attribute_precedence:
  assumes id: "identifierOf element (idKey (getElementInfo opts pi (nodeName node))) = ident"
    and ne: "ident \<noteq> VStr []"
    and rec: "recurseOf (getElementInfo opts pi (nodeName node)) \<noteq> []"
    and unseen: "\<not> includesValue ident seen"
    and refs: "references opts pi node \<noteq> []"
    and built: "inheritedElements build (nodeName node)
                  (idKey (getElementInfo opts pi (nodeName node))) parentNode (seen @ [ident])
                  (references opts pi node) = Some (Inr bases)"
    and objs: "list_all isObject bases"
    and obj: "isObject element"
  shows "(list_all (descendantsAreList opts) bases
          \<longrightarrow> returnsElement (recurseThroughAttribute build opts pi element node parentNode seen))
       \<and> (recurseThroughAttribute build opts pi element node parentNode seen = Some (Inr r)
            \<and> k \<noteq> labelsDescendants opts
          \<longrightarrow> objGet r k
                = (case objGet element k of Some v \<Rightarrow> Some v | None \<Rightarrow> latestValue k bases))
       \<and> (build = buildElement n opts pi \<and> localElement opts node = Inr element
            \<and> isElement node
            \<and> buildElement (Suc n) opts pi parentNode node seen = Some (Inr final)
            \<and> k \<notin> set (discardsOf (getElementInfo opts pi (nodeName node)))
            \<and> k \<noteq> labelsDescendants opts \<and> k \<noteq> labelsText opts
          \<longrightarrow> objGet final k
                = (case objGet element k of Some v \<Rightarrow> Some v | None \<Rightarrow> latestValue k bases))
       \<and> length bases = length (references opts pi node)
       \<and> (\<forall>i < length (references opts pi node).
            inheritedBuild build (nodeName node) (idKey (getElementInfo opts pi (nodeName node)))
              parentNode (seen @ [ident]) (references opts pi node ! i)
              = Some (Inr (bases ! i)))"
proof -
  let ?info = "getElementInfo opts pi (nodeName node)"
  let ?attr = "getAttribute node (recurseOf ?info)"
  let ?refs = "references opts pi node"
  let ?res = "recurseThroughAttribute build opts pi element node parentNode seen"
  have attr: "?attr \<noteq> []" and sp: "split '','' ?attr = ?refs"
    using refs by (auto simp: references_def Let_def split: if_splits)
  note nth = inheritedElements_nth [OF built]
  have shape: "?res = (if length ?refs > 1
        then (case reduceMerge opts [] bases of
                Inl e \<Rightarrow> Some (Inl e)
              | Inr merged \<Rightarrow> Some (Inr (mergeAll2 merged element)))
        else Some (Inr (mergeAll2 (hd bases) element)))"
  proof (cases "length ?refs > 1")
    case True
    then show ?thesis
      using id ne rec unseen attr sp built
      by (simp add: recurseThroughAttribute_def Let_def inheritSeveral_def)
  next
    case False
    then obtain ref where one: "?refs = [ref]" using refs by (cases ?refs) auto
    then obtain b where bb: "bases = [b]"
      and ib: "inheritedBuild build (nodeName node) (idKey ?info) parentNode (seen @ [ident]) ref
                = Some (Inr b)"
      using nth by (cases bases) auto
    have "inheritSingle build element (nodeName node) (idKey ?info) parentNode (seen @ [ident]) ref
            = Some (Inr (mergeAll2 b element))"
      using ib by (auto simp: inheritSingle_def inheritedBuild_def split: option.splits sum.splits)
    then show ?thesis
      using id ne rec unseen attr sp one bb False
      by (simp add: recurseThroughAttribute_def Let_def)
  qed
  have returns: "list_all (descendantsAreList opts) bases \<longrightarrow> returnsElement ?res"
  proof
    assume dl: "list_all (descendantsAreList opts) bases"
    have "descendantsAreList opts []" by (simp add: descendantsAreList_def objGet_def)
    then obtain m where "reduceMerge opts [] bases = Inr m"
      using reduceMerge_returns [OF objs dl] by blast
    then show "returnsElement ?res" by (simp add: shape returnsElement_def)
  qed
  have lookupAny: "\<And>r'. ?res = Some (Inr r') \<Longrightarrow> k \<noteq> labelsDescendants opts
      \<Longrightarrow> objGet r' k = (case objGet element k of Some v \<Rightarrow> Some v | None \<Rightarrow> latestValue k bases)"
  proof -
    fix r'
    assume h: "?res = Some (Inr r')" and kd: "k \<noteq> labelsDescendants opts"
    show "objGet r' k = (case objGet element k of Some v \<Rightarrow> Some v | None \<Rightarrow> latestValue k bases)"
    proof (cases "length ?refs > 1")
      case True
      then obtain merged where mg: "reduceMerge opts [] bases = Inr merged"
        and rr: "r' = mergeAll2 merged element"
        using h shape by (auto split: sum.splits)
      have "objGet merged k = latestValue k bases"
        using reduceMerge_lookup [OF objs mg, of k] kd
        by (simp add: objGet_def split: option.splits)
      then show ?thesis by (simp add: rr objGet_mergeAll2 [OF obj] split: option.splits)
    next
      case False
      then obtain ref where one: "?refs = [ref]" using refs by (cases ?refs) auto
      then obtain b where bb: "bases = [b]" using nth by (cases bases) auto
      have rr: "r' = mergeAll2 b element" using h shape False bb by simp
      have "latestValue k [b] = objGet b k"
        by (simp add: latestValue_Cons latestValue_Nil)
      then show ?thesis by (simp add: rr bb objGet_mergeAll2 [OF obj] split: option.splits)
    qed
  qed
  have lookup: "?res = Some (Inr r) \<and> k \<noteq> labelsDescendants opts
      \<longrightarrow> objGet r k = (case objGet element k of Some v \<Rightarrow> Some v | None \<Rightarrow> latestValue k bases)"
    using lookupAny [of r] by simp
  have final: "build = buildElement n opts pi \<and> localElement opts node = Inr element
        \<and> isElement node
        \<and> buildElement (Suc n) opts pi parentNode node seen = Some (Inr final)
        \<and> k \<notin> set (discardsOf ?info)
        \<and> k \<noteq> labelsDescendants opts \<and> k \<noteq> labelsText opts
      \<longrightarrow> objGet final k
            = (case objGet element k of Some v \<Rightarrow> Some v | None \<Rightarrow> latestValue k bases)"
  proof
    assume h: "build = buildElement n opts pi \<and> localElement opts node = Inr element
        \<and> isElement node
        \<and> buildElement (Suc n) opts pi parentNode node seen = Some (Inr final)
        \<and> k \<notin> set (discardsOf ?info)
        \<and> k \<noteq> labelsDescendants opts \<and> k \<noteq> labelsText opts"
    then have le: "localElement opts node = Inr element" and el: "isElement node"
      and fin: "buildElementBody build opts pi parentNode node seen = Some (Inr final)"
      by simp_all
    obtain r' where r': "?res = Some (Inr r')"
      and same: "\<forall>k. k \<notin> set (discardsOf ?info)
                   \<and> k \<noteq> labelsDescendants opts \<and> k \<noteq> labelsText opts
                  \<longrightarrow> objGet final k = objGet r' k"
      using buildElementBody_resolved [OF le el rec fin] by blast
    show "objGet final k
            = (case objGet element k of Some v \<Rightarrow> Some v | None \<Rightarrow> latestValue k bases)"
      using same h lookupAny [OF r'] by simp
  qed
  show ?thesis using returns lookup final nth by simp
qed

theorem inherited_attribute_precedence_witness:
  "references exampleOptions testParseInfo dualLeaf = [''alpha-command'', ''beta-command'']
   \<and> inheritedElements (buildElement (Suc 0) exampleOptions testParseInfo) ''Command'' ''name''
        (Some dualDocument) [VStr ''leaf''] [''alpha-command'', ''beta-command'']
       = Some (Inr dualBases)
   \<and> (\<exists>r. recurseThroughAttribute (buildElement (Suc 0) exampleOptions testParseInfo)
             exampleOptions testParseInfo dualLeafElement dualLeaf (Some dualDocument) []
             = Some (Inr r)
          \<and> objGet r ''filter'' = Some (VStr ''beta'')
          \<and> objGet r ''name'' = Some (VStr ''leaf''))
   \<and> (\<exists>final. buildElement (Suc (Suc 0)) exampleOptions testParseInfo (Some dualDocument)
                 dualLeaf [] = Some (Inr final)
          \<and> objGet final ''filter'' = Some (VStr ''beta''))"
proof -
  let ?build = "buildElement (Suc 0) exampleOptions testParseInfo"
  have nm: "nodeName dualLeaf = ''Command''" by code_simp
  have key: "idKey (getElementInfo exampleOptions testParseInfo ''Command'') = ''name''"
    by code_simp
  have id: "identifierOf dualLeafElement
              (idKey (getElementInfo exampleOptions testParseInfo (nodeName dualLeaf)))
            = VStr ''leaf''"
    by code_simp
  have ne: "VStr ''leaf'' \<noteq> (VStr [] :: int jvalue)" by simp
  have rec: "recurseOf (getElementInfo exampleOptions testParseInfo (nodeName dualLeaf)) \<noteq> []"
    by code_simp
  have unseen: "\<not> includesValue (VStr ''leaf'' :: int jvalue) []" by code_simp
  have rf: "references exampleOptions testParseInfo dualLeaf
              = [''alpha-command'', ''beta-command'']"
    by code_simp
  have refs: "references exampleOptions testParseInfo dualLeaf \<noteq> []" using rf by simp
  have bs: "inheritedElements ?build ''Command'' ''name'' (Some dualDocument)
              ([] @ [VStr ''leaf'']) [''alpha-command'', ''beta-command''] = Some (Inr dualBases)"
    by code_simp
  have built: "inheritedElements ?build (nodeName dualLeaf)
                 (idKey (getElementInfo exampleOptions testParseInfo (nodeName dualLeaf)))
                 (Some dualDocument) ([] @ [VStr ''leaf''])
                 (references exampleOptions testParseInfo dualLeaf) = Some (Inr dualBases)"
    using bs by (simp only: nm key rf)
  have objs: "list_all isObject dualBases" by code_simp
  have obj: "isObject dualLeafElement" by code_simp
  have dl: "list_all (descendantsAreList exampleOptions) dualBases" by code_simp
  have lab: "''filter'' \<noteq> labelsDescendants exampleOptions"
    "''name'' \<noteq> labelsDescendants exampleOptions" by code_simp+
  have own: "objGet dualLeafElement ''filter'' = None"
    "objGet dualLeafElement ''name'' = Some (VStr ''leaf'')" by code_simp+
  have latest: "latestValue ''filter'' dualBases = Some (VStr ''beta'')" by code_simp
  note prec = inherited_attribute_precedence [OF id ne rec unseen refs built objs obj]
  obtain r where r: "recurseThroughAttribute ?build exampleOptions testParseInfo dualLeafElement
                       dualLeaf (Some dualDocument) [] = Some (Inr r)"
    using prec [THEN conjunct1, THEN mp, OF dl, THEN returnsElement_iff [THEN iffD1]] ..
  have "objGet r ''filter'' = Some (VStr ''beta'')"
    using prec [of r "''filter''"] r lab own latest by (simp del: buildElement.simps)
  moreover have "objGet r ''name'' = Some (VStr ''leaf'')"
    using prec [of r "''name''"] r lab own by (simp del: buildElement.simps)
  moreover have "\<exists>final. buildElement (Suc (Suc 0)) exampleOptions testParseInfo
                     (Some dualDocument) dualLeaf [] = Some (Inr final)
                   \<and> objGet final ''filter'' = Some (VStr ''beta'')"
  proof -
    have le: "localElement exampleOptions dualLeaf = Inr dualLeafElement" by code_simp
    have el: "isElement dualLeaf" by code_simp
    have fin: "buildElement (Suc (Suc 0)) exampleOptions testParseInfo (Some dualDocument)
                 dualLeaf []
               = Some (Inr [(''name'', VStr ''leaf''), (''filter'', VStr ''beta''),
                            (''_'', VStr ''Command''),
                            (''describe'', VStr ''this is a leaf command'')])"
      by code_simp
    have nd: "''filter'' \<notin> set (discardsOf (getElementInfo exampleOptions testParseInfo
                                          (nodeName dualLeaf)))"
      by code_simp
    have nt: "''filter'' \<noteq> labelsText exampleOptions" by code_simp
    have "objGet [(''name'', VStr ''leaf''), (''filter'', VStr ''beta''),
                  (''_'', VStr ''Command''),
                  (''describe'', VStr ''this is a leaf command'')] ''filter''
            = (case objGet dualLeafElement ''filter'' of Some v \<Rightarrow> Some v
               | None \<Rightarrow> latestValue ''filter'' dualBases)"
      using prec [where k = "''filter''" and n = "Suc 0"
                    and final = "[(''name'', VStr ''leaf''), (''filter'', VStr ''beta''),
                                  (''_'', VStr ''Command''),
                                  (''describe'', VStr ''this is a leaf command'')]"]
            le el fin nd nt lab
      by (simp del: buildElement.simps)
    then show ?thesis using fin own latest by (simp del: buildElement.simps)
  qed
  ultimately show ?thesis using rf bs r by (simp del: buildElement.simps)
qed

section \<open>Built elements are objects\<close>

lemma keys_objSet: "set (map fst (objSet k v obj)) = insert k (set (map fst obj))"
  by (induction k v obj rule: objSet.induct) (simp_all add: insert_commute)

lemma isObject_objSet: "isObject obj \<Longrightarrow> isObject (objSet k v obj)"
proof (induction obj)
  case Nil
  then show ?case by (simp add: isObject_def)
next
  case (Cons kv obj)
  then have "isObject obj" by (simp add: isObject_def)
  then have "isObject (objSet k v obj)" by (rule Cons.IH)
  then show ?case
    using Cons.prems keys_objSet [of k v obj] by (cases kv) (auto simp: isObject_def)
qed

lemma isObject_single: "isObject [(k, v)]"
  by (simp add: isObject_def)

lemma isObject_mergeAll2: "isObject a \<Longrightarrow> isObject (mergeAll2 a b)"
proof (induction b arbitrary: a)
  case Nil
  then show ?case by (simp add: mergeAll2_def)
next
  case (Cons x b)
  have "mergeAll2 a (x # b) = mergeAll2 (objSet (fst x) (snd x) a) b"
    by (simp add: mergeAll2_def)
  then show ?case using Cons.IH [OF isObject_objSet [OF Cons.prems]] by simp
qed

lemma isObject_fromPairs: "isObject (fromPairs kvs)"
  using isObject_mergeAll2 [of "[]" "filter (\<lambda>kv. fst kv \<noteq> ''__proto__'') kvs"]
  by (simp add: fromPairs_def isObject_def)

lemma isObject_dissoc: "isObject obj \<Longrightarrow> isObject (dissoc k obj)"
  by (simp add: isObject_def dissoc_def distinct_map_filter)

lemma isObject_discardAttributes: "isObject obj \<Longrightarrow> isObject (discardAttributes ds obj)"
proof (induction ds arbitrary: obj)
  case Nil
  then show ?case by (simp add: discardAttributes_def)
next
  case (Cons a ds)
  have "discardAttributes (a # ds) obj = discardAttributes ds (dissoc a obj)"
    by (simp add: discardAttributes_def)
  then show ?case using Cons.IH [OF isObject_dissoc [OF Cons.prems]] by simp
qed

lemma isObject_buildLocalAttributes:
  "buildLocalAttributes opts node = Inr local \<Longrightarrow> isObject local"
  by (auto simp: buildLocalAttributes_def isObject_fromPairs isObject_single
        split: sum.splits option.splits if_splits)

lemma isObject_doMergeElements:
  "isObject a \<Longrightarrow> doMergeElements opts a b = Inr m \<Longrightarrow> isObject m"
  by (auto simp: doMergeElements_def Let_def isObject_objSet isObject_mergeAll2
        split: option.splits sum.splits)

lemma isObject_reduceMerge:
  "isObject acc \<Longrightarrow> reduceMerge opts acc bases = Inr m \<Longrightarrow> isObject m"
proof (induction bases arbitrary: acc)
  case Nil
  then show ?case by simp
next
  case (Cons b bases)
  then show ?case
    by (auto split: sum.splits dest: isObject_doMergeElements)
qed

lemma isObject_mergeDescendants:
  "isObject element \<Longrightarrow> mergeDescendants opts element children = Inr m \<Longrightarrow> isObject m"
  by (auto simp: mergeDescendants_def Let_def isObject_objSet split: option.splits sum.splits)

lemma isObject_indexDescendants:
  assumes "isObject element" and "indexDescendants opts pi element children = Inr m"
  shows "isObject m"
proof (cases "infoDescendants (elementInfoOf opts pi element)")
  case None
  then show ?thesis using assms by (simp add: indexDescendants_def Let_def)
next
  case (Some dinfo)
  show ?thesis
  proof (cases "descBy dinfo")
    case None
    then show ?thesis using assms Some by (simp add: indexDescendants_def Let_def)
  next
    case (Some b)
    then show ?thesis
      using assms \<open>infoDescendants (elementInfoOf opts pi element) = Some dinfo\<close>
      by (auto simp: indexDescendants_def Let_def isObject_objSet split: if_splits sum.splits)
  qed
qed

lemma isObject_attachText: "isObject element \<Longrightarrow> isObject (attachText opts node element)"
  by (simp add: attachText_def Let_def isObject_objSet)

lemma isObject_buildChildren:
  assumes "isObject element" and "buildChildren build opts pi element node seen = Some (Inr final)"
  shows "isObject final"
proof (cases "filter isElement (childNodes node) \<noteq> []")
  case False
  then show ?thesis using assms by (auto simp: buildChildren_def isObject_attachText)
next
  case True
  then obtain children merged indexed where
    m: "mergeDescendants opts element children = Inr merged"
    and i: "indexDescendants opts pi merged children = Inr indexed"
    and f: "final = attachText opts node indexed"
    using assms(2) by (auto simp: buildChildren_def split: option.splits sum.splits)
  show ?thesis
    using isObject_indexDescendants [OF isObject_mergeDescendants [OF assms(1) m] i]
    by (simp add: f isObject_attachText)
qed

lemma isObject_inheritSeveral:
  "inheritSeveral build opts element name k parentNode seen refs = Some (Inr r) \<Longrightarrow> isObject r"
proof -
  assume "inheritSeveral build opts element name k parentNode seen refs = Some (Inr r)"
  then obtain bases merged where "reduceMerge opts [] bases = Inr merged"
    and "r = mergeAll2 merged element"
    by (auto simp: inheritSeveral_def split: option.splits sum.splits)
  moreover have "isObject ([] :: 'a element)" by (simp add: isObject_def)
  ultimately have "isObject merged" and "r = mergeAll2 merged element"
    using isObject_reduceMerge by blast+
  then show "isObject r" by (simp add: isObject_mergeAll2)
qed

lemma isObject_inheritSingle:
  assumes "\<And>p nd sn e. build p nd sn = Some (Inr e) \<Longrightarrow> isObject e"
    and "inheritSingle build element name k parentNode seen ref = Some (Inr r)"
  shows "isObject r"
proof -
  obtain found b where "build (Some (fst found)) (snd found) seen = Some (Inr b)"
    and "r = mergeAll2 b element"
    using assms(2) by (auto simp: inheritSingle_def split: option.splits sum.splits)
  then show ?thesis using assms(1) by (simp add: isObject_mergeAll2)
qed

lemma isObject_recurseThroughAttribute:
  assumes "\<And>p nd sn e. build p nd sn = Some (Inr e) \<Longrightarrow> isObject e"
    and "isObject element"
    and "recurseThroughAttribute build opts pi element node parentNode seen = Some (Inr r)"
  shows "isObject r"
  using assms(2) assms(3) isObject_inheritSeveral isObject_inheritSingle [OF assms(1)]
  by (auto simp: recurseThroughAttribute_def Let_def split: if_splits)

lemma isObject_buildElementBody:
  assumes "\<And>p nd sn e. build p nd sn = Some (Inr e) \<Longrightarrow> isObject e"
    and "buildElementBody build opts pi parentNode node seen = Some (Inr final)"
  shows "isObject final"
proof -
  let ?info = "getElementInfo opts pi (nodeName node)"
  obtain local where loc: "buildLocalAttributes opts node = Inr local"
    using assms(2) by (auto simp: buildElementBody_def split: sum.splits)
  let ?element = "objSet (labelsElement opts) (VStr (nodeName node)) local"
  have oe: "isObject ?element"
    using isObject_objSet [OF isObject_buildLocalAttributes [OF loc]] .
  obtain r where r: "(if recurseOf ?info \<noteq> [] \<and> isElement node
                      then recurseThroughAttribute build opts pi ?element node parentNode seen
                      else Some (Inr ?element)) = Some (Inr r)"
    and rest: "(if childNodes node \<noteq> []
                then buildChildren build opts pi (discardAttributes (discardsOf ?info) r) node seen
                else Some (Inr (discardAttributes (discardsOf ?info) r))) = Some (Inr final)"
    using assms(2)
    by (auto simp: buildElementBody_def loc Let_def split: option.splits sum.splits)
  have "isObject r"
    using r oe isObject_recurseThroughAttribute [OF assms(1) oe]
    by (auto split: if_splits)
  then have "isObject (discardAttributes (discardsOf ?info) r)"
    by (rule isObject_discardAttributes)
  then show ?thesis
    using rest isObject_buildChildren
    by (auto split: if_splits)
qed

text \<open>
  Every element that \<open>buildElement\<close> returns has each of its keys once, whatever the
  document: the elements that the theorems on merges take as objects are such.
\<close>

lemma isObject_buildElement:
  "buildElement n opts pi parentNode node seen = Some (Inr final) \<Longrightarrow> isObject final"
proof (induction n arbitrary: parentNode node seen final)
  case 0
  then show ?case by simp
next
  case (Suc n)
  have "buildElementBody (buildElement n opts pi) opts pi parentNode node seen = Some (Inr final)"
    using Suc.prems by simp
  then show ?case using isObject_buildElementBody [of "buildElement n opts pi"] Suc.IH by blast
qed

section \<open>Unary collections\<close>

lemma unaryItems_kept:
  "\<forall>item \<in> set items. toLower item \<notin> set [''primitives'', ''collection'']
   \<Longrightarrow> unaryItems opts items
       = Inr (map (\<lambda>item. if succeeded (primitivesSome opts item (primitives opts))
                           then tvalue (primitivesSome opts item (primitives opts))
                           else VStr item) items)"
  by (induction items) (auto simp: transformPrimitives_def)

text \<open>
  A unary collection none of whose items is the word \<open>primitives\<close> or \<open>collection\<close>
  succeeds, each item coerced by the first configured primitive that succeeds on it and
  kept as the raw string when none does.
\<close>

lemma transformUnaryCollection_succeeds:
  "\<forall>item \<in> set items. toLower item \<notin> set [''primitives'', ''collection'']
   \<Longrightarrow> transformUnaryCollection opts items
       = Inr \<lparr>tvalue = VArr (map (\<lambda>item. if succeeded (primitivesSome opts item (primitives opts))
                                          then tvalue (primitivesSome opts item (primitives opts))
                                          else VStr item) items),
              succeeded = True\<rparr>"
  by (simp add: transformUnaryCollection_def unaryItems_kept)

text \<open>The literal of the specification under the example configuration.\<close>

lemma transformCollection_numeric_literal:
  "transformCollection exampleOptions ''!<[]>[1,2,3,4]''
     = Inr \<lparr>tvalue = VArr [VNum 1, VNum 2, VNum 3, VNum 4], succeeded = True\<rparr>"
  by code_simp

section \<open>A larger depth bound keeps every result\<close>

lemma inheritedElements_mono:
  assumes "\<And>p nd s r. build p nd s = Some r \<Longrightarrow> build' p nd s = Some r"
  shows "inheritedElements build name k parentNode seen refs = Some r
         \<Longrightarrow> inheritedElements build' name k parentNode seen refs = Some r"
proof (induction refs arbitrary: r)
  case Nil
  then show ?case by simp
next
  case (Cons ref refs)
  show ?case
  proof (cases "selectElementNodeById name k ref parentNode")
    case None
    then show ?thesis using Cons.prems by simp
  next
    case (Some found)
    then obtain b where b: "build (Some (fst found)) (snd found) seen = Some b"
      using Cons.prems by (auto split: option.splits)
    note b' = assms [OF b]
    show ?thesis
    proof (cases b)
      case (Inl e)
      then show ?thesis using Cons.prems Some b b' by simp
    next
      case (Inr el)
      then obtain rest where rest: "inheritedElements build name k parentNode seen refs = Some rest"
        using Cons.prems Some b by (auto split: option.splits)
      show ?thesis using Cons.prems Some b b' Inr rest Cons.IH [OF rest] by simp
    qed
  qed
qed

lemma buildChildElements_mono:
  assumes "\<And>p nd s r. build p nd s = Some r \<Longrightarrow> build' p nd s = Some r"
  shows "buildChildElements build node seen cs = Some r
         \<Longrightarrow> buildChildElements build' node seen cs = Some r"
proof (induction cs arbitrary: r)
  case Nil
  then show ?case by simp
next
  case (Cons c cs)
  obtain b where b: "build (Some node) c seen = Some b"
    using Cons.prems by (auto split: option.splits)
  note b' = assms [OF b]
  show ?case
  proof (cases b)
    case (Inl e)
    then show ?thesis using Cons.prems b b' by simp
  next
    case (Inr el)
    then obtain rest where rest: "buildChildElements build node seen cs = Some rest"
      using Cons.prems b by (auto split: option.splits)
    show ?thesis using Cons.prems b b' Inr rest Cons.IH [OF rest] by simp
  qed
qed

lemma recurseThroughAttribute_mono:
  assumes ext: "\<And>p nd s r. build p nd s = Some r \<Longrightarrow> build' p nd s = Some r"
    and res: "recurseThroughAttribute build opts pi element node parentNode seen = Some r"
  shows "recurseThroughAttribute build' opts pi element node parentNode seen = Some r"
proof -
  have several: "\<And>name k p s refs. inheritSeveral build opts element name k p s refs = Some r
                  \<Longrightarrow> inheritSeveral build' opts element name k p s refs = Some r"
  proof -
    fix name k p s refs
    assume a: "inheritSeveral build opts element name k p s refs = Some r"
    then obtain bs where bs: "inheritedElements build name k p s refs = Some bs"
      by (auto simp: inheritSeveral_def split: option.splits)
    show "inheritSeveral build' opts element name k p s refs = Some r"
      using a bs inheritedElements_mono [of build build', OF ext bs]
      by (simp add: inheritSeveral_def)
  qed
  have single: "\<And>name k p s ref. inheritSingle build element name k p s ref = Some r
                  \<Longrightarrow> inheritSingle build' element name k p s ref = Some r"
  proof -
    fix name k p s ref
    assume a: "inheritSingle build element name k p s ref = Some r"
    show "inheritSingle build' element name k p s ref = Some r"
    proof (cases "selectElementNodeById name k ref p")
      case None
      then show ?thesis using a by (simp add: inheritSingle_def)
    next
      case (Some found)
      then obtain b where b: "build (Some (fst found)) (snd found) s = Some b"
        using a by (auto simp: inheritSingle_def split: option.splits)
      show ?thesis using a Some b ext [OF b] by (simp add: inheritSingle_def)
    qed
  qed
  show ?thesis
    using res several single
    by (auto simp: recurseThroughAttribute_def Let_def split: if_splits)
qed

lemma buildChildren_mono:
  assumes ext: "\<And>p nd s r. build p nd s = Some r \<Longrightarrow> build' p nd s = Some r"
    and res: "buildChildren build opts pi element node seen = Some r"
  shows "buildChildren build' opts pi element node seen = Some r"
proof (cases "filter isElement (childNodes node) \<noteq> []")
  case True
  then obtain cs where cs: "buildChildElements build node seen (filter isElement (childNodes node))
                              = Some cs"
    using res by (auto simp: buildChildren_def split: option.splits)
  show ?thesis
    using res True cs buildChildElements_mono [of build build', OF ext cs]
    by (simp add: buildChildren_def)
next
  case False
  then show ?thesis using res by (simp add: buildChildren_def)
qed

lemma buildElementBody_mono:
  assumes ext: "\<And>p nd s r. build p nd s = Some r \<Longrightarrow> build' p nd s = Some r"
    and res: "buildElementBody build opts pi parentNode node seen = Some r"
  shows "buildElementBody build' opts pi parentNode node seen = Some r"
proof (cases "buildLocalAttributes opts node")
  case (Inl e)
  have "\<And>b. buildElementBody b opts pi parentNode node seen = Some (Inl e)"
    by (simp add: buildElementBody_def Inl)
  then show ?thesis using res by metis
next
  case (Inr local)
  let ?element = "objSet (labelsElement opts) (VStr (nodeName node)) local"
  let ?info = "getElementInfo opts pi (nodeName node)"
  let ?step = "\<lambda>b. if recurseOf ?info \<noteq> [] \<and> isElement node
                    then recurseThroughAttribute b opts pi ?element node parentNode seen
                    else Some (Inr ?element)"
  obtain x where x: "?step build = Some x"
    using res Inr by (auto simp: buildElementBody_def Let_def split: option.splits)
  have x': "?step build' = Some x"
    using x recurseThroughAttribute_mono [of build build', OF ext] by (auto split: if_splits)
  show ?thesis
  proof (cases x)
    case (Inl e)
    then show ?thesis
      using res Inr x x' by (auto simp add: buildElementBody_def Let_def)
  next
    case (Inr resolved)
    then show ?thesis
      using res \<open>buildLocalAttributes opts node = Inr local\<close> x x'
        buildChildren_mono [of build build', OF ext]
      by (auto simp add: buildElementBody_def Let_def split: if_splits)
  qed
qed

lemma buildElement_Suc_mono:
  "buildElement n opts pi parentNode node seen = Some r
   \<Longrightarrow> buildElement (Suc n) opts pi parentNode node seen = Some r"
proof (induction n arbitrary: parentNode node seen r)
  case 0
  then show ?case by simp
next
  case (Suc n)
  have "buildElementBody (buildElement (Suc n) opts pi) opts pi parentNode node seen = Some r"
    using buildElementBody_mono [of "buildElement n opts pi" "buildElement (Suc n) opts pi"]
      Suc.IH Suc.prems by simp
  then show ?case by simp
qed

lemma buildElement_mono:
  "buildElement n opts pi parentNode node seen = Some r
   \<Longrightarrow> buildElement (n + m) opts pi parentNode node seen = Some r"
proof (induction m)
  case 0
  then show ?case by simp
next
  case (Suc m)
  then show ?case using buildElement_Suc_mono [of "n + m"] by simp
qed

section \<open>Circular references\<close>

lemma circularError_plain:
  "\<not> throwsOnToString v \<Longrightarrow> circularError v = CircularReference v
     \<and> classOf (CircularReference v) = JaxConfigError"
  by (simp add: circularError_def)

text \<open>
  An element with a configured recurse attribute and a non-empty identifier that has
  been seen raises at once, at every depth bound.
\<close>

lemma buildElement_circular:
  assumes "isElement node"
    and "recurseOf (getElementInfo opts pi (nodeName node)) \<noteq> []"
    and "elementIdentifier opts pi node = Some ident"
    and "ident \<noteq> VStr []"
    and "includesValue ident seen"
  shows "buildElement (Suc m) opts pi parentNode node seen = Some (Inl (circularError ident))"
  using body_circular [OF assms] by simp

text \<open>
  An error raised in the build of a referenced element, the references before it
  building, is the error of the build of the referring element one level up.
\<close>

lemma buildElement_inherited_raise:
  assumes el: "isElement node"
    and rec: "recurseOf (getElementInfo opts pi (nodeName node)) \<noteq> []"
    and id: "elementIdentifier opts pi node = Some ident"
    and ne: "ident \<noteq> VStr []"
    and unseen: "\<not> includesValue ident seen"
    and refs: "references opts pi node = pre @ ref # post"
    and pre: "list_all (\<lambda>r. returnsElement
                (inheritedBuild (buildElement m opts pi) (nodeName node)
                   (idKey (getElementInfo opts pi (nodeName node)))
                   parentNode (seen @ [ident]) r)) pre"
    and res: "resolve opts pi parentNode node ref = Some found"
    and raise: "buildElement m opts pi (Some (fst found)) (snd found) (seen @ [ident])
                  = Some (Inl e)"
  shows "buildElement (Suc m) opts pi parentNode node seen = Some (Inl e)"
  using body_inherited_raise [where build = "buildElement m opts pi",
          OF el rec id ne unseen refs pre res raise]
  by simp

text \<open>
  An element one of whose references selects the element itself raises the error of a
  circular reference at every depth bound of two or more, when \<open>R.equals\<close> equates its
  identifier with itself.
\<close>

lemma self_reference_raises:
  assumes el: "isElement node"
    and rec: "recurseOf (getElementInfo opts pi (nodeName node)) \<noteq> []"
    and id: "elementIdentifier opts pi node = Some ident"
    and ne: "ident \<noteq> VStr []"
    and eq: "rEquals ident ident"
    and refs: "references opts pi node = pre @ ref # post"
    and pre: "list_all (\<lambda>r. returnsElement
                (inheritedBuild (buildElement (Suc n) opts pi) (nodeName node)
                   (idKey (getElementInfo opts pi (nodeName node)))
                   parentNode (seen @ [ident]) r)) pre"
    and res: "resolve opts pi parentNode node ref = Some (p, node)"
  shows "buildElement (Suc (Suc n)) opts pi parentNode node seen
           = Some (Inl (circularError ident))"
proof (cases "includesValue ident seen")
  case True
  then show ?thesis using buildElement_circular [OF el rec id ne] by blast
next
  case False
  have "includesValue ident (seen @ [ident])" using eq by (simp add: includesValue_def)
  then have again: "buildElement (Suc n) opts pi (Some (fst (p, node))) (snd (p, node))
                      (seen @ [ident]) = Some (Inl (circularError ident))"
    using buildElement_circular [OF el rec id ne] by simp
  show ?thesis
    using buildElement_inherited_raise [OF el rec id ne False refs pre res again] .
qed

text \<open>
  The tests of the repository: a command that inherits from itself, and a leaf that
  inherits from one of two commands that inherit from each other.
\<close>

lemma repository_cycle_tests:
  "buildElement 2 exampleOptions testParseInfo (Some selfDocument) selfLeaf []
     = Some (Inl (CircularReference (VStr ''leaf'')))"
  "buildElement 4 exampleOptions testParseInfo (Some cycleDocument) (childNodes cycleDocument ! 2) []
     = Some (Inl (CircularReference (VStr ''beta-command'')))"
  by code_simp+

text \<open>
  The error of a revisited identifier reaches the element from which the path started.
\<close>

lemma firstRevisit_Some:
  "firstRevisit follow builds refs = Some again
   \<Longrightarrow> \<exists>pre ref post. refs = pre @ ref # post \<and> follow ref = Some again \<and> list_all builds pre"
proof (induction refs)
  case Nil
  then show ?case by simp
next
  case (Cons r refs)
  show ?case
  proof (cases "follow r")
    case (Some a)
    then have "r # refs = [] @ r # refs \<and> follow r = Some again \<and> list_all builds []"
      using Cons.prems by simp
    then show ?thesis by blast
  next
    case None
    then have "builds r" and "firstRevisit follow builds refs = Some again"
      using Cons.prems by (auto split: if_splits)
    then obtain pre ref post where "refs = pre @ ref # post" and "follow ref = Some again"
      and "list_all builds pre"
      using Cons.IH by blast
    then have "r # refs = (r # pre) @ ref # post \<and> follow ref = Some again
                 \<and> list_all builds (r # pre)"
      using \<open>builds r\<close> by simp
    then show ?thesis by blast
  qed
qed

lemma returnsElement_mono:
  "returnsElement (inheritedBuild (buildElement k opts pi) name key parentNode seen ref)
   \<Longrightarrow> returnsElement (inheritedBuild (buildElement (k + n) opts pi) name key parentNode seen ref)"
  using buildElement_mono [of k opts pi _ _ seen _ n]
  by (auto simp: returnsElement_iff inheritedBuild_def split: option.splits)

lemma revisitsWithin_raises:
  "revisitsWithin k opts pi parentNode node seen = Some again
   \<Longrightarrow> buildElement (Suc (k + n)) opts pi parentNode node seen
         = Some (Inl (circularError again))"
proof (induction k arbitrary: parentNode node seen n)
  case 0
  then obtain ident where id: "elementIdentifier opts pi node = Some ident"
    by (cases "elementIdentifier opts pi node") auto
  then have "isElement node"
    and "recurseOf (getElementInfo opts pi (nodeName node)) \<noteq> []"
    and "ident \<noteq> VStr []" and "includesValue ident seen" and "again = ident"
    using "0.prems" by (auto split: if_splits)
  then show ?case using buildElement_circular [OF _ _ id, of seen "0 + n" parentNode] by simp
next
  case (Suc k)
  let ?info = "getElementInfo opts pi (nodeName node)"
  obtain ident where id: "elementIdentifier opts pi node = Some ident"
    using Suc.prems by (cases "elementIdentifier opts pi node") auto
  then have el: "isElement node" and rec: "recurseOf ?info \<noteq> []" and ne: "ident \<noteq> VStr []"
    using Suc.prems by (auto split: if_splits)
  show ?case
  proof (cases "includesValue ident seen")
    case True
    then have "again = ident" using Suc.prems id el rec ne by simp
    then show ?thesis
      using buildElement_circular [OF el rec id ne True, of "Suc k + n" parentNode] by simp
  next
    case False
    let ?follow = "\<lambda>ref. case resolve opts pi parentNode node ref of
                           None \<Rightarrow> None
                         | Some found \<Rightarrow>
                             revisitsWithin k opts pi (Some (fst found)) (snd found)
                               (seen @ [ident])"
    let ?builds = "\<lambda>m ref. returnsElement
                             (inheritedBuild (buildElement m opts pi) (nodeName node)
                                (idKey ?info) parentNode (seen @ [ident]) ref)"
    have "firstRevisit ?follow (?builds k) (references opts pi node) = Some again"
      using Suc.prems id el rec ne False by simp
    then obtain pre ref post where refs: "references opts pi node = pre @ ref # post"
      and follow: "?follow ref = Some again" and pre: "list_all (?builds k) pre"
      using firstRevisit_Some [of ?follow "?builds k"] by blast
    obtain found where res: "resolve opts pi parentNode node ref = Some found"
      and rest: "revisitsWithin k opts pi (Some (fst found)) (snd found) (seen @ [ident])
                   = Some again"
      using follow by (auto split: option.splits)
    have raise: "buildElement (Suc (k + n)) opts pi (Some (fst found)) (snd found)
                   (seen @ [ident]) = Some (Inl (circularError again))"
      using Suc.IH [OF rest] .
    have pre': "list_all (?builds (Suc (k + n))) pre"
      using pre returnsElement_mono [of k opts pi "nodeName node" "idKey ?info" parentNode
              "seen @ [ident]" _ "Suc n"]
      by (auto simp: list_all_iff)
    show ?thesis
      using buildElement_inherited_raise [OF el rec id ne False refs pre' res raise] by simp
  qed
qed

lemma rEquals_local_symbol: "\<not> rEquals (VSym False d) w"
  by (cases w) simp_all

text \<open>
  With symbols that are not registered the identifier of \<open>symbolLeaf\<close> is never found
  among those seen, and the build reaches every depth bound.
\<close>

lemma local_symbol_never_returns:
  "buildElement n localSymbolOptions testParseInfo (Some symbolDocument) symbolLeaf seen = None"
proof (induction n arbitrary: seen)
  case 0
  then show ?case by simp
next
  case (Suc n)
  have le: "localElement localSymbolOptions symbolLeaf
              = Inr [(''name'', VSym False ''$x''), (''inherits'', VSym False ''$x''),
                     (''_'', VStr ''Command'')]"
    by code_simp
  have el: "isElement symbolLeaf" by code_simp
  have nm: "nodeName symbolLeaf = ''Command''" by code_simp
  have info: "getElementInfo localSymbolOptions testParseInfo ''Command'' = commandInfo"
    by (simp add: getElementInfo_def testParseInfo_def)
  have k: "idKey commandInfo = ''name''" "recurseOf commandInfo = ''inherits''"
    by (simp_all add: idKey_def recurseOf_def commandInfo_def)
  have ident: "identifierOf [(''name'', VSym False ''$x''), (''inherits'', VSym False ''$x''),
                     (''_'', VStr ''Command'')] ''name'' = (VSym False ''$x'' :: int jvalue)"
    by code_simp
  have unseen: "\<not> includesValue (VSym False ''$x'' :: int jvalue) seen"
    by (simp add: includesValue_def list_ex_iff rEquals_local_symbol)
  have attr: "getAttribute symbolLeaf ''inherits'' = ''$x''" by code_simp
  have sp: "split '','' ''$x'' = [''$x'']" by code_simp
  have sel: "selectElementNodeById ''Command'' ''name'' ''$x'' (Some symbolDocument)
               = Some (symbolDocument, symbolLeaf)"
    by code_simp
  have rta: "recurseThroughAttribute (buildElement n localSymbolOptions testParseInfo)
               localSymbolOptions testParseInfo
               [(''name'', VSym False ''$x''), (''inherits'', VSym False ''$x''),
                (''_'', VStr ''Command'')] symbolLeaf (Some symbolDocument) seen = None"
    using Suc.IH [of "seen @ [VSym False ''$x'']"] unseen
    by (simp add: recurseThroughAttribute_def Let_def nm info k ident attr sp inheritSingle_def sel)
  obtain local where loc: "buildLocalAttributes localSymbolOptions symbolLeaf = Inr local"
    and lab: "objSet (labelsElement localSymbolOptions) (VStr (nodeName symbolLeaf)) local
               = [(''name'', VSym False ''$x''), (''inherits'', VSym False ''$x''),
                  (''_'', VStr ''Command'')]"
    using le by (auto simp: localElement_def split: sum.splits)
  show ?case
    using rta el by (simp add: buildElementBody_def loc lab [unfolded nm] Let_def nm info k)
qed

text \<open>
  Under the example configuration, whose symbol matcher takes the prefix \<open>$\<close>, the
  command \<open>symbolLeaf\<close> names itself in its recurse attribute, and its identifier is a
  symbol. At every depth bound of two or more its build revisits the identifier and
  raises the \<open>TypeError\<close> of the conversion of the symbol to a string.
\<close>

lemma symbol_self_reference:
  "buildElement (Suc (Suc n)) exampleOptions testParseInfo (Some symbolDocument) symbolLeaf []
     = Some (Inl SymbolToStringError)
   \<and> classOf (SymbolToStringError :: int jerror) = TypeError"
proof -
  have el: "isElement symbolLeaf" by code_simp
  have rec: "recurseOf (getElementInfo exampleOptions testParseInfo (nodeName symbolLeaf)) \<noteq> []"
    by code_simp
  have id: "elementIdentifier exampleOptions testParseInfo symbolLeaf = Some (VSym True ''$x'')"
    by code_simp
  have ne: "VSym True ''$x'' \<noteq> (VStr [] :: int jvalue)" by simp
  have eq: "rEquals (VSym True ''$x'' :: int jvalue) (VSym True ''$x'')" by simp
  have refs: "references exampleOptions testParseInfo symbolLeaf = [] @ ''$x'' # []"
    by code_simp
  have res: "resolve exampleOptions testParseInfo (Some symbolDocument) symbolLeaf ''$x''
               = Some (symbolDocument, symbolLeaf)"
    by code_simp
  have "buildElement (Suc (Suc n)) exampleOptions testParseInfo (Some symbolDocument)
          symbolLeaf [] = Some (Inl (circularError (VSym True ''$x'')))"
    using self_reference_raises [OF el rec id ne eq refs _ res] by simp
  then show ?thesis by (simp add: circularError_def)
qed

text \<open>
  C1. When an inheritance path from an element comes, within \<open>k\<close> steps along
  references, to an element whose identifier is among those seen, \<open>buildElement\<close>
  raises at every depth bound above \<open>k\<close>. What it raises is the configuration error of
  a circular reference when the revisited identifier converts to a string; when that
  identifier is a symbol, or an array that holds one, the message of the error cannot
  be built, and the build raises the \<open>TypeError\<close> of the conversion instead.
\<close>

theorem revisiting_path_raises:
  assumes "revisitsWithin k opts pi parentNode node seen = Some again"
  shows "(\<not> throwsOnToString again
          \<longrightarrow> buildElement (Suc (k + n)) opts pi parentNode node seen
                = Some (Inl (CircularReference again))
              \<and> classOf (CircularReference again) = JaxConfigError)
       \<and> (throwsOnToString again
          \<longrightarrow> buildElement (Suc (k + n)) opts pi parentNode node seen
                = Some (Inl SymbolToStringError)
              \<and> classOf (SymbolToStringError :: 'a jerror) = TypeError)"
  using revisitsWithin_raises [OF assms, of n] by (simp add: circularError_def)

theorem revisiting_path_raises_witness:
  "buildElement 2 exampleOptions testParseInfo (Some selfDocument) selfLeaf []
     = Some (Inl (CircularReference (VStr ''leaf'')))
   \<and> buildElement 4 exampleOptions testParseInfo (Some cycleDocument)
       (childNodes cycleDocument ! 2) []
     = Some (Inl (CircularReference (VStr ''beta-command'')))
   \<and> buildElement 3 exampleOptions testParseInfo (Some secondDocument) secondLeaf []
     = Some (Inl (CircularReference (VStr ''leaf'')))
   \<and> buildElement 2 exampleOptions testParseInfo (Some symbolDocument) symbolLeaf []
     = Some (Inl SymbolToStringError)"
proof -
  have a: "revisitsWithin 1 exampleOptions testParseInfo (Some selfDocument) selfLeaf []
             = Some (VStr ''leaf'')" by code_simp
  have b: "revisitsWithin 3 exampleOptions testParseInfo (Some cycleDocument)
             (childNodes cycleDocument ! 2) [] = Some (VStr ''beta-command'')" by code_simp
  have c: "revisitsWithin 2 exampleOptions testParseInfo (Some secondDocument) secondLeaf []
             = Some (VStr ''leaf'')" by code_simp
  have d: "revisitsWithin 1 exampleOptions testParseInfo (Some symbolDocument) symbolLeaf []
             = Some (VSym True ''$x'')" by code_simp
  have plain: "\<not> throwsOnToString (VStr ''leaf'' :: int jvalue)"
    "\<not> throwsOnToString (VStr ''beta-command'' :: int jvalue)"
    "throwsOnToString (VSym True ''$x'' :: int jvalue)" by simp_all
  have two: "Suc (1 + 0) = 2" and three: "Suc (2 + 0) = 3" and four: "Suc (3 + 0) = 4"
    by simp_all
  show ?thesis
    using revisiting_path_raises [OF a, of 0, unfolded two]
      revisiting_path_raises [OF b, of 0, unfolded four]
      revisiting_path_raises [OF c, of 0, unfolded three]
      revisiting_path_raises [OF d, of 0, unfolded two] plain
    by blast
qed

section \<open>Re-keying of descendants in \<open>buildChildren\<close>\<close>

lemma mergeDescendants_list:
  "descendantsAreList opts element
   \<Longrightarrow> mergeDescendants opts element children
       = Inr (objSet (labelsDescendants opts)
                (VArr (map VObj children @ descendantsList opts element)) element)"
  by (auto simp: descendantsAreList_def mergeDescendants_def descendantsList_def Let_def
        concatValues_def split: option.splits jvalue.splits)

lemma buildChildren_unfold:
  assumes "filter isElement (childNodes node) \<noteq> []"
    and "buildChildElements build node seen (filter isElement (childNodes node))
           = Some (Inr children)"
    and "descendantsAreList opts element"
  shows "buildChildren build opts pi element node seen
           = (case indexDescendants opts pi
                     (objSet (labelsDescendants opts)
                        (VArr (map VObj children @ descendantsList opts element)) element)
                     children of
                Inl e \<Rightarrow> Some (Inl e)
              | Inr indexed \<Rightarrow> Some (Inr (attachText opts node indexed)))"
  using assms by (simp add: buildChildren_def mergeDescendants_list)

lemma descendantsList_objSet:
  "descendantsList opts (objSet (labelsDescendants opts) (VArr ds) element) = ds"
  by (simp add: descendantsList_def objGet_objSet)

lemma collisionCheck_first:
  "collisionCheck opts k acc ds = Inl e
   \<Longrightarrow> \<exists>pre v post. ds = pre @ v # post \<and> e = ElementCollision v
         \<and> includesOpt (propOf opts k v) (acc @ map (propOf opts k) pre)
         \<and> (\<forall>m < length pre. \<not> includesOpt (propOf opts k (pre ! m))
                                   (acc @ map (propOf opts k) (take m pre)))"
proof (induction ds arbitrary: acc)
  case Nil
  then show ?case by simp
next
  case (Cons d ds)
  show ?case
  proof (cases "includesOpt (propOf opts k d) acc")
    case True
    then have "e = ElementCollision d" using Cons.prems by simp
    then have "d # ds = [] @ d # ds \<and> e = ElementCollision d
         \<and> includesOpt (propOf opts k d) (acc @ map (propOf opts k) [])
         \<and> (\<forall>m < length ([] :: 'a jvalue list). \<not> includesOpt (propOf opts k ([] ! m))
                                   (acc @ map (propOf opts k) (take m [])))"
      using True by simp
    then show ?thesis by blast
  next
    case False
    then have "collisionCheck opts k (acc @ [propOf opts k d]) ds = Inl e"
      using Cons.prems by simp
    then obtain pre v post where ds: "ds = pre @ v # post" and e: "e = ElementCollision v"
      and inc: "includesOpt (propOf opts k v) ((acc @ [propOf opts k d]) @ map (propOf opts k) pre)"
      and none: "\<forall>m < length pre. \<not> includesOpt (propOf opts k (pre ! m))
                   ((acc @ [propOf opts k d]) @ map (propOf opts k) (take m pre))"
      using Cons.IH by blast
    have none': "\<forall>m < length (d # pre). \<not> includesOpt (propOf opts k ((d # pre) ! m))
                   (acc @ map (propOf opts k) (take m (d # pre)))"
    proof (intro allI impI)
      fix m
      assume m: "m < length (d # pre)"
      show "\<not> includesOpt (propOf opts k ((d # pre) ! m))
                   (acc @ map (propOf opts k) (take m (d # pre)))"
      proof (cases m)
        case 0
        then show ?thesis using False by simp
      next
        case (Suc m')
        then show ?thesis using none m by simp
      qed
    qed
    have "d # ds = (d # pre) @ v # post \<and> e = ElementCollision v
         \<and> includesOpt (propOf opts k v) (acc @ map (propOf opts k) (d # pre))"
      using ds e inc by simp
    then show ?thesis using none' by blast
  qed
qed


lemma includesOpt_map:
  "includesOpt v (map f xs) = (\<exists>x \<in> set xs. includesOpt v [f x])"
  by (induction xs) (simp_all add: includesOpt_def)

lemma collisionCheck_none:
  assumes "\<not> (\<exists>i j. i < j \<and> j < length ds \<and> sameKey opts k (ds ! j) (ds ! i))"
  shows "collisionCheck opts k [] ds = Inr ()"
proof (cases "collisionCheck opts k [] ds")
  case (Inr u)
  then show ?thesis by simp
next
  case (Inl e)
  then obtain pre v post where ds: "ds = pre @ v # post"
    and inc: "includesOpt (propOf opts k v) ([] @ map (propOf opts k) pre)"
    using collisionCheck_first [of opts k "[]" ds e] by blast
  from inc obtain w where w: "w \<in> set pre" and eq: "includesOpt (propOf opts k v) [propOf opts k w]"
    by (auto simp: includesOpt_map)
  from w obtain i where i: "i < length pre" and wi: "pre ! i = w"
    by (auto simp: in_set_conv_nth)
  have "i < length pre \<and> length pre < length ds
        \<and> sameKey opts k (ds ! length pre) (ds ! i)"
    using i wi eq ds by (simp add: sameKey_def nth_append)
  then show ?thesis using assms by blast
qed



lemma by_index_documents:
  "buildElement 2 exampleOptions strictParseInfo None collidingGroup []
     = Some (Inl (ElementCollision (VObj childA2)))"
  "buildElement 2 exampleOptions testParseInfo None collidingGroup []
     = Some (Inr [(''name'', VStr ''group''), (''_'', VStr ''Command''),
                  (''_children'', VObj [(''a'', VObj childA2)])])"
  "buildElement 2 exampleOptions strictParseInfo None unnamedGroup []
     = Some (Inl (MissingKeyAttribute ''name'' (VObj childNoName)))"
  "buildElement 2 exampleOptions testParseInfo None unnamedGroup []
     = Some (Inr [(''name'', VStr ''group''), (''_'', VStr ''Command''),
                  (''_children'', VArr [VObj childA, VObj childNoName])])"
  by code_simp+



section \<open>Descendants through inheritance\<close>

lemma descendantsAreList_cases:
  "descendantsAreList opts a
   \<Longrightarrow> objGet a (labelsDescendants opts)
       = (if objHas (labelsDescendants opts) a then Some (VArr (descendantsList opts a)) else None)"
  by (auto simp: descendantsAreList_def descendantsList_def objHas_objGet
        split: option.splits jvalue.splits)

lemma doMergeElements_descendants:
  assumes "isObject b" and "descendantsAreList opts a" and "descendantsAreList opts b"
  shows "\<exists>m. doMergeElements opts a b = Inr m \<and> descendantsAreList opts m
           \<and> objHas (labelsDescendants opts) m
               = (objHas (labelsDescendants opts) a \<or> objHas (labelsDescendants opts) b)
           \<and> descendantsList opts m = descendantsList opts a @ descendantsList opts b"
proof (cases "objGet a (labelsDescendants opts)")
  case None
  then have "doMergeElements opts a b = Inr (mergeAll2 a b)"
    by (simp add: doMergeElements_def)
  then show ?thesis
    using assms None
    by (auto simp: descendantsAreList_def descendantsList_def objGet_mergeAll2 objHas_objGet
          split: option.splits jvalue.splits)
next
  case (Some va)
  then obtain da where da: "objGet a (labelsDescendants opts) = Some (VArr da)"
    using assms(2) by (auto simp: descendantsAreList_def split: jvalue.splits)
  show ?thesis
  proof (cases "objGet b (labelsDescendants opts)")
    case None
    then have "doMergeElements opts a b = Inr (mergeAll2 a b)"
      by (simp add: doMergeElements_def da)
    then show ?thesis
      using assms(1) None da
      by (simp add: descendantsAreList_def descendantsList_def objGet_mergeAll2 objHas_objGet)
  next
    case (Some vb)
    then obtain db where db: "objGet b (labelsDescendants opts) = Some (VArr db)"
      using assms(3) by (auto simp: descendantsAreList_def split: jvalue.splits)
    have "doMergeElements opts a b
            = Inr (objSet (labelsDescendants opts) (VArr (da @ db)) (mergeAll2 a b))"
      by (simp add: doMergeElements_def da db concatValues_def)
    then show ?thesis
      using da db
      by (simp add: descendantsAreList_def descendantsList_def objGet_objSet objHas_objGet)
  qed
qed

lemma reduceMerge_descendants:
  "list_all isObject bases \<Longrightarrow> list_all (descendantsAreList opts) bases
   \<Longrightarrow> descendantsAreList opts acc
   \<Longrightarrow> \<exists>m. reduceMerge opts acc bases = Inr m \<and> descendantsAreList opts m
         \<and> objHas (labelsDescendants opts) m
             = (objHas (labelsDescendants opts) acc
                \<or> list_ex (objHas (labelsDescendants opts)) bases)
         \<and> descendantsList opts m
             = descendantsList opts acc @ concat (map (descendantsList opts) bases)"
proof (induction bases arbitrary: acc)
  case Nil
  then show ?case by simp
next
  case (Cons b bases)
  obtain m1 where m1: "doMergeElements opts acc b = Inr m1" and d1: "descendantsAreList opts m1"
    and h1: "objHas (labelsDescendants opts) m1
               = (objHas (labelsDescendants opts) acc \<or> objHas (labelsDescendants opts) b)"
    and l1: "descendantsList opts m1 = descendantsList opts acc @ descendantsList opts b"
    using doMergeElements_descendants [of b opts acc] Cons.prems by auto
  obtain m where m: "reduceMerge opts m1 bases = Inr m" and dm: "descendantsAreList opts m"
    and hm: "objHas (labelsDescendants opts) m
               = (objHas (labelsDescendants opts) m1
                  \<or> list_ex (objHas (labelsDescendants opts)) bases)"
    and lm: "descendantsList opts m
               = descendantsList opts m1 @ concat (map (descendantsList opts) bases)"
    using Cons.IH [of m1] Cons.prems d1 by auto
  show ?case using m1 m dm hm lm h1 l1 by simp
qed

lemma recurseThroughAttribute_merges:
  assumes id: "identifierOf element (idKey (getElementInfo opts pi (nodeName node))) = ident"
    and ne: "ident \<noteq> VStr []"
    and rec: "recurseOf (getElementInfo opts pi (nodeName node)) \<noteq> []"
    and unseen: "\<not> includesValue ident seen"
    and refs: "references opts pi node \<noteq> []"
    and built: "inheritedElements build (nodeName node)
                  (idKey (getElementInfo opts pi (nodeName node))) parentNode (seen @ [ident])
                  (references opts pi node) = Some (Inr bases)"
  shows "recurseThroughAttribute build opts pi element node parentNode seen
         = (if length (references opts pi node) > 1
            then (case reduceMerge opts [] bases of
                    Inl e \<Rightarrow> Some (Inl e)
                  | Inr merged \<Rightarrow> Some (Inr (mergeAll2 merged element)))
            else Some (Inr (mergeAll2 (hd bases) element)))"
proof -
  let ?info = "getElementInfo opts pi (nodeName node)"
  let ?attr = "getAttribute node (recurseOf ?info)"
  let ?refs = "references opts pi node"
  have attr: "?attr \<noteq> []" and sp: "split '','' ?attr = ?refs"
    using refs by (auto simp: references_def Let_def split: if_splits)
  note nth = inheritedElements_nth [OF built]
  show ?thesis
  proof (cases "length ?refs > 1")
    case True
    then show ?thesis
      using id ne rec unseen attr sp built
      by (simp add: recurseThroughAttribute_def Let_def inheritSeveral_def)
  next
    case False
    then obtain ref where one: "?refs = [ref]" using refs by (cases ?refs) auto
    then obtain b where bb: "bases = [b]"
      and ib: "inheritedBuild build (nodeName node) (idKey ?info) parentNode (seen @ [ident]) ref
                = Some (Inr b)"
      using nth by (cases bases) auto
    have "inheritSingle build element (nodeName node) (idKey ?info) parentNode (seen @ [ident]) ref
            = Some (Inr (mergeAll2 b element))"
      using ib by (auto simp: inheritSingle_def inheritedBuild_def split: option.splits sum.splits)
    then show ?thesis
      using id ne rec unseen attr sp one bb False
      by (simp add: recurseThroughAttribute_def Let_def)
  qed
qed

lemma descendantsAreList_empty: "descendantsAreList opts []"
  by (simp add: descendantsAreList_def objGet_def)

lemma resolved_descendants:
  assumes id: "identifierOf element (idKey (getElementInfo opts pi (nodeName node))) = ident"
    and ne: "ident \<noteq> VStr []"
    and rec: "recurseOf (getElementInfo opts pi (nodeName node)) \<noteq> []"
    and unseen: "\<not> includesValue ident seen"
    and refs: "references opts pi node \<noteq> []"
    and built: "inheritedElements build (nodeName node)
                  (idKey (getElementInfo opts pi (nodeName node))) parentNode (seen @ [ident])
                  (references opts pi node) = Some (Inr bases)"
    and objs: "list_all isObject bases"
    and obj: "isObject element"
    and dls: "list_all (descendantsAreList opts) bases"
  shows "\<exists>r. recurseThroughAttribute build opts pi element node parentNode seen = Some (Inr r)
           \<and> objGet r (labelsDescendants opts)
               = (case objGet element (labelsDescendants opts) of
                    Some v \<Rightarrow> Some v
                  | None \<Rightarrow> inheritedDescendants opts bases)
           \<and> (\<forall>k. objGet r k = (case objGet element k of Some v \<Rightarrow> Some v
                                 | None \<Rightarrow> objGet r k))"
proof -
  let ?d = "labelsDescendants opts"
  note shape = recurseThroughAttribute_merges [OF id ne rec unseen refs built]
  have len: "length bases = length (references opts pi node)"
    using inheritedElements_nth [OF built] by simp
  have own: "\<And>m k. objGet (mergeAll2 m element) k
               = (case objGet element k of Some v \<Rightarrow> Some v | None \<Rightarrow> objGet m k)"
    using obj by (simp add: objGet_mergeAll2)
  show ?thesis
  proof (cases "length (references opts pi node) > 1")
    case True
    obtain m where m: "reduceMerge opts [] bases = Inr m" and dm: "descendantsAreList opts m"
      and hm: "objHas ?d m = (objHas ?d ([] :: 'a element) \<or> list_ex (objHas ?d) bases)"
      and lm: "descendantsList opts m
                 = descendantsList opts [] @ concat (map (descendantsList opts) bases)"
      using reduceMerge_descendants [OF objs dls descendantsAreList_empty] by blast
    have e1: "\<not> objHas ?d ([] :: 'a element)" by (simp add: objHas_objGet objGet_def)
    have e2: "descendantsList opts [] = []" by (simp add: descendantsList_def objGet_def)
    have "objGet m ?d = inheritedDescendants opts bases"
      using descendantsAreList_cases [OF dm] hm lm e1 e2
      by (simp add: inheritedDescendants_def)
    then show ?thesis using shape True m own by (auto split: option.splits)
  next
    case False
    then obtain b where bb: "bases = [b]" using len refs
      by (cases bases; cases "references opts pi node") auto
    have db: "descendantsAreList opts b" using dls bb by simp
    have "objGet b ?d = inheritedDescendants opts bases"
      using descendantsAreList_cases [OF db] bb by (simp add: inheritedDescendants_def)
    then show ?thesis using shape False bb own by (auto split: option.splits)
  qed
qed

section \<open>New children and inherited descendants\<close>

lemma isObject_inheritedElements:
  assumes "\<And>p nd sn e. build p nd sn = Some (Inr e) \<Longrightarrow> isObject e"
  shows "inheritedElements build name k parentNode seen refs = Some (Inr bases)
         \<Longrightarrow> list_all isObject bases"
proof (induction refs arbitrary: bases)
  case Nil
  then show ?case by simp
next
  case (Cons r refs)
  obtain found b bs where b: "build (Some (fst found)) (snd found) seen = Some (Inr b)"
    and bs: "inheritedElements build name k parentNode seen refs = Some (Inr bs)"
    and eq: "bases = b # bs"
    using Cons.prems by (auto split: option.splits sum.splits)
  show ?case using Cons.IH [OF bs] assms [OF b] eq by simp
qed

lemma isObject_localElement: "localElement opts node = Inr element \<Longrightarrow> isObject element"
  by (auto simp: localElement_def isObject_objSet isObject_buildLocalAttributes
        split: sum.splits)

lemma localElement_name:
  "localElement opts node = Inr element
   \<Longrightarrow> objGet element (labelsElement opts) = Some (VStr (nodeName node))"
  by (auto simp: localElement_def objGet_objSet split: sum.splits)

lemma indexDescendants_result:
  assumes "labelsElement opts \<noteq> labelsDescendants opts"
    and "elementInfoOf opts pi element = info"
  shows "keepsList info children
         \<Longrightarrow> indexDescendants opts pi (objSet (labelsDescendants opts) (VArr ds) element) children
             = Inr (objSet (labelsDescendants opts) (VArr ds) element)"
    and "rekeysBy info children ''index''
         \<Longrightarrow> missingThrows info
             \<longrightarrow> \<not> (\<exists>i j. i < j \<and> j < length ds \<and> sameKey opts (idKey info) (ds ! j) (ds ! i))
         \<Longrightarrow> indexDescendants opts pi (objSet (labelsDescendants opts) (VArr ds) element) children
             = Inr (objSet (labelsDescendants opts) (indexBy opts (idKey info) ds)
                      (objSet (labelsDescendants opts) (VArr ds) element))"
    and "rekeysBy info children ''group''
         \<Longrightarrow> indexDescendants opts pi (objSet (labelsDescendants opts) (VArr ds) element) children
             = Inr (objSet (labelsDescendants opts) (groupBy opts (idKey info) ds)
                      (objSet (labelsDescendants opts) (VArr ds) element))"
proof -
  have info: "elementInfoOf opts pi (objSet (labelsDescendants opts) (VArr ds) element) = info"
    using assms by (simp add: elementInfoOf_objSet)
  show "keepsList info children
         \<Longrightarrow> indexDescendants opts pi (objSet (labelsDescendants opts) (VArr ds) element) children
             = Inr (objSet (labelsDescendants opts) (VArr ds) element)"
    by (auto simp: indexDescendants_def Let_def info keepsList_def descendantsPolicy_def
          missingThrows_def split: option.splits if_splits)
  show "rekeysBy info children ''group''
         \<Longrightarrow> indexDescendants opts pi (objSet (labelsDescendants opts) (VArr ds) element) children
             = Inr (objSet (labelsDescendants opts) (groupBy opts (idKey info) ds)
                      (objSet (labelsDescendants opts) (VArr ds) element))"
    by (auto simp: indexDescendants_def Let_def info rekeysBy_def descendantsPolicy_def
          descendantsList_objSet split: option.splits)
  assume rk: "rekeysBy info children ''index''"
    and free: "missingThrows info
             \<longrightarrow> \<not> (\<exists>i j. i < j \<and> j < length ds \<and> sameKey opts (idKey info) (ds ! j) (ds ! i))"
  from rk obtain dinfo where pol: "infoDescendants info = Some dinfo"
    and byI: "descBy dinfo = Some ''index''"
    and all: "list_all (objHas (idKey info)) children"
    by (auto simp: rekeysBy_def descendantsPolicy_def split: option.splits)
  have "isTrue (throwIfMissing dinfo) \<Longrightarrow> collisionCheck opts (idKey info) [] ds = Inr ()"
    using free pol collisionCheck_none [of ds opts "idKey info"]
    by (simp add: missingThrows_def)
  then show "indexDescendants opts pi (objSet (labelsDescendants opts) (VArr ds) element) children
             = Inr (objSet (labelsDescendants opts) (indexBy opts (idKey info) ds)
                      (objSet (labelsDescendants opts) (VArr ds) element))"
    using pol byI all
    by (simp add: indexDescendants_def Let_def info descendantsList_objSet)
qed

lemma buildElement_inherited_children:
  assumes loc: "localElement opts node = Inr element"
    and el: "isElement node"
    and id: "identifierOf element (idKey (getElementInfo opts pi (nodeName node))) = ident"
    and ne: "ident \<noteq> VStr []"
    and rec: "recurseOf (getElementInfo opts pi (nodeName node)) \<noteq> []"
    and unseen: "\<not> includesValue ident seen"
    and refs: "references opts pi node \<noteq> []"
    and bases: "inheritedElements (buildElement n opts pi) (nodeName node)
                  (idKey (getElementInfo opts pi (nodeName node))) parentNode (seen @ [ident])
                  (references opts pi node) = Some (Inr bases)"
    and dls: "list_all (descendantsAreList opts) bases"
    and inh: "list_ex (objHas (labelsDescendants opts)) bases"
    and own: "\<not> objHas (labelsDescendants opts) element"
    and disc: "labelsDescendants opts \<notin> set (discardsOf (getElementInfo opts pi (nodeName node)))"
    and kids: "filter isElement (childNodes node) \<noteq> []"
    and built: "buildChildElements (buildElement n opts pi) node seen
                  (filter isElement (childNodes node)) = Some (Inr children)"
  shows "\<exists>kept. elementInfoOf opts pi kept = childrenInfo opts pi node
           \<and> buildElement (Suc n) opts pi parentNode node seen
               = (case indexDescendants opts pi
                         (objSet (labelsDescendants opts)
                            (VArr (map VObj children @ concat (map (descendantsList opts) bases)))
                            kept)
                         children of
                    Inl e \<Rightarrow> Some (Inl e)
                  | Inr indexed \<Rightarrow> Some (Inr (attachText opts node indexed)))"
proof -
  let ?d = "labelsDescendants opts"
  let ?info = "getElementInfo opts pi (nodeName node)"
  let ?build = "buildElement n opts pi"
  have obj: "isObject element" using loc by (rule isObject_localElement)
  have objs: "list_all isObject bases"
    using isObject_inheritedElements [of ?build, OF isObject_buildElement bases] .
  obtain r where rta: "recurseThroughAttribute ?build opts pi element node parentNode seen
                         = Some (Inr r)"
    and rd: "objGet r ?d = (case objGet element ?d of Some v \<Rightarrow> Some v
                            | None \<Rightarrow> inheritedDescendants opts bases)"
    and keys: "\<forall>k. objGet r k = (case objGet element k of Some v \<Rightarrow> Some v
                                 | None \<Rightarrow> objGet r k)"
    using resolved_descendants [OF id ne rec unseen refs bases objs obj dls] by blast
  let ?kept = "discardAttributes (discardsOf ?info) r"
  have rd': "objGet r ?d = Some (VArr (concat (map (descendantsList opts) bases)))"
    using rd own inh by (simp add: objHas_objGet inheritedDescendants_def)
  have kd: "objGet ?kept ?d = Some (VArr (concat (map (descendantsList opts) bases)))"
    using rd' disc by (simp add: objGet_discardAttributes)
  have dlk: "descendantsAreList opts ?kept" using kd by (simp add: descendantsAreList_def)
  have dll: "descendantsList opts ?kept = concat (map (descendantsList opts) bases)"
    using kd by (simp add: descendantsList_def)
  have cn: "childNodes node \<noteq> []" using kids by auto
  have body: "buildElement (Suc n) opts pi parentNode node seen
                = buildChildren ?build opts pi ?kept node seen"
    using loc el rec rta cn
    by (auto simp: buildElementBody_def localElement_def Let_def split: sum.splits)
  have name: "objGet r (labelsElement opts) = Some (VStr (nodeName node))"
    using keys localElement_name [OF loc] by (auto split: option.splits)
  have info: "elementInfoOf opts pi ?kept = childrenInfo opts pi node"
    using name by (simp add: elementInfoOf_def childrenInfo_def objGet_discardAttributes)
  show ?thesis
    using buildChildren_unfold [OF kids built dlk] body info dll by auto
qed

text \<open>
  The tests of the repository for inherited children: a command with single
  inheritance has four children, a command at the end of a chain of three has three,
  and so has a command with two bases; the children of the command itself come first.
\<close>

lemma repository_inheritance_tests:
  "buildElement 5 exampleOptions testParseInfo (Some singleDocument) singleTest []
     = Some (Inr [(''name'', VStr ''test''), (''_'', VStr ''Command''),
          (''_children'',
           VArr [VObj (builtRefs ''Arguments'' [''config'', ''expr'', ''input'']),
                 VObj (builtGroups [''input'', ''expr'', ''input'']),
                 VObj (builtRefs ''Arguments'' [''from'', ''to'']),
                 VObj (builtGroups [''from'', ''to''])]),
          (''describe'', VStr ''Test regular expression definitions'')])"
  "buildElement 5 exampleOptions testParseInfo (Some chainDocument) chainTest []
     = Some (Inr [(''name'', VStr ''test''), (''_'', VStr ''Command''),
          (''_children'',
           VArr [VObj (builtRefs ''Arguments'' [''config'', ''expr'', ''input'']),
                 VObj (builtRefs ''Arguments'' [''from'', ''to'']),
                 VObj (builtRefs ''Arguments'' [''path'', ''filesys'', ''tree''])]),
          (''describe'', VStr ''Test regular expression definitions'')])"
  "buildElement 4 exampleOptions testParseInfo (Some dualArguments) dualTest []
     = Some (Inr [(''name'', VStr ''test''), (''_'', VStr ''Command''),
          (''_children'',
           VArr [VObj (builtRefs ''Arguments'' [''config'', ''expr'', ''input'']),
                 VObj (builtRefs ''Arguments'' [''from'', ''to'']),
                 VObj (builtRefs ''Arguments'' [''path'', ''filesys'', ''tree''])]),
          (''describe'', VStr ''Test regular expression definitions'')])"
  by code_simp+

text \<open>
  C5, as the claim states it, fails. Under the parse info of the tests a command with
  a child that has the id key inherits the two children of its base, and its final
  descendants are not the list of the three: \<open>R.indexBy\<close> has made a mapping of it, in
  which the first inherited child is overwritten by the second. And when the discards
  of the tag name the descendants label, the inherited list is removed before the
  children are built.
\<close>

theorem inherited_list_rekeyed_counterexample:
  "buildElement 2 exampleOptions testParseInfo (Some keyedDocument) keyedBase [VStr ''leaf'']
     = Some (Inr [(''name'', VStr ''base''), (''_'', VStr ''Command''),
                  (''_children'', VArr [VObj [(''_'', VStr ''Arguments'')],
                                        VObj [(''_'', VStr ''Groups'')]])])
   \<and> buildElement 3 exampleOptions testParseInfo (Some keyedDocument) keyedLeaf []
     = Some (Inr [(''name'', VStr ''leaf''), (''_'', VStr ''Command''),
                  (''_children'',
                   VObj [(''x'', VObj [(''name'', VStr ''x''), (''_'', VStr ''Command'')]),
                         (''undefined'', VObj [(''_'', VStr ''Groups'')])])])
   \<and> buildElement 3 exampleOptions discardChildrenParseInfo (Some keyedDocument) keyedLeaf []
     = Some (Inr [(''name'', VStr ''leaf''), (''_'', VStr ''Command''),
                  (''_children'',
                   VArr [VObj [(''name'', VStr ''x''), (''_'', VStr ''Command'')]])])"
  by code_simp

text \<open>
  C5, amended. Let an element have newly built children and a descendants list
  inherited through its recurse attribute: its references build to the elements
  \<open>bases\<close>, what they have under the descendants label are lists, the element has no
  attribute of its own named by the descendants label, and the discards of its tag do
  not name that label. Let \<open>ds\<close> be the new children followed by the descendants of the
  bases in listed order. Then \<open>buildElement\<close> returns an element whose descendants are
  the list \<open>ds\<close> whenever the descendants policy leaves the list alone; when every new
  child has the id key and the policy is \<open>by: index\<close> (with \<open>throwIfMissing\<close>: and no
  two entries of \<open>ds\<close> share a key value) the descendants are the mapping
  \<open>R.indexBy\<close> makes of \<open>ds\<close>, and when the policy is \<open>by: group\<close> the mapping
  \<open>R.groupBy\<close> makes of it.
\<close>

theorem children_precede_inherited:
  assumes "localElement opts node = Inr element"
    and "isElement node"
    and "identifierOf element (idKey (getElementInfo opts pi (nodeName node))) = ident"
    and "ident \<noteq> VStr []"
    and "recurseOf (getElementInfo opts pi (nodeName node)) \<noteq> []"
    and "\<not> includesValue ident seen"
    and "references opts pi node \<noteq> []"
    and "inheritedElements (buildElement n opts pi) (nodeName node)
           (idKey (getElementInfo opts pi (nodeName node))) parentNode (seen @ [ident])
           (references opts pi node) = Some (Inr bases)"
    and "list_all (descendantsAreList opts) bases"
    and "list_ex (objHas (labelsDescendants opts)) bases"
    and "\<not> objHas (labelsDescendants opts) element"
    and "labelsDescendants opts \<notin> set (discardsOf (getElementInfo opts pi (nodeName node)))"
    and "filter isElement (childNodes node) \<noteq> []"
    and "buildChildElements (buildElement n opts pi) node seen
           (filter isElement (childNodes node)) = Some (Inr children)"
    and "labelsElement opts \<noteq> labelsDescendants opts"
    and "labelsText opts \<noteq> labelsDescendants opts"
    and "ds = map VObj children @ concat (map (descendantsList opts) bases)"
    and "info = childrenInfo opts pi node"
  shows "(keepsList info children
          \<longrightarrow> (\<exists>final. buildElement (Suc n) opts pi parentNode node seen = Some (Inr final)
                 \<and> objGet final (labelsDescendants opts) = Some (VArr ds)))
       \<and> (rekeysBy info children ''index''
            \<and> (missingThrows info
                 \<longrightarrow> \<not> (\<exists>i j. i < j \<and> j < length ds
                            \<and> sameKey opts (idKey info) (ds ! j) (ds ! i)))
          \<longrightarrow> (\<exists>final. buildElement (Suc n) opts pi parentNode node seen = Some (Inr final)
                 \<and> objGet final (labelsDescendants opts) = Some (indexBy opts (idKey info) ds)))
       \<and> (rekeysBy info children ''group''
          \<longrightarrow> (\<exists>final. buildElement (Suc n) opts pi parentNode node seen = Some (Inr final)
                 \<and> objGet final (labelsDescendants opts) = Some (groupBy opts (idKey info) ds)))"
proof -
  obtain kept where info: "elementInfoOf opts pi kept = info"
    and res: "buildElement (Suc n) opts pi parentNode node seen
               = (case indexDescendants opts pi
                         (objSet (labelsDescendants opts) (VArr ds) kept) children of
                    Inl e \<Rightarrow> Some (Inl e)
                  | Inr indexed \<Rightarrow> Some (Inr (attachText opts node indexed)))"
    using buildElement_inherited_children [OF assms(1-14)] assms(17,18) by auto
  note ix = indexDescendants_result [OF assms(15) info, of children ds]
  have atx: "\<And>e. objGet (attachText opts node e) (labelsDescendants opts)
                    = objGet e (labelsDescendants opts)"
    using assms(16) by (simp add: objGet_attachText)
  have a: "\<exists>final. buildElement (Suc n) opts pi parentNode node seen = Some (Inr final)
                 \<and> objGet final (labelsDescendants opts) = Some (VArr ds)"
    if "keepsList info children"
    using ix(1) [OF that] by (simp add: res atx objGet_objSet del: buildElement.simps)
  have b: "\<exists>final. buildElement (Suc n) opts pi parentNode node seen = Some (Inr final)
                 \<and> objGet final (labelsDescendants opts) = Some (indexBy opts (idKey info) ds)"
    if "rekeysBy info children ''index''"
      and "missingThrows info
                 \<longrightarrow> \<not> (\<exists>i j. i < j \<and> j < length ds
                            \<and> sameKey opts (idKey info) (ds ! j) (ds ! i))"
    using ix(2) [OF that] by (simp add: res atx objGet_objSet del: buildElement.simps)
  have c: "\<exists>final. buildElement (Suc n) opts pi parentNode node seen = Some (Inr final)
                 \<and> objGet final (labelsDescendants opts) = Some (groupBy opts (idKey info) ds)"
    if "rekeysBy info children ''group''"
    using ix(3) [OF that] by (simp add: res atx objGet_objSet del: buildElement.simps)
  show ?thesis using a b c by blast
qed

theorem children_precede_inherited_witness:
  "(\<exists>final. buildElement (Suc 4) exampleOptions testParseInfo (Some singleDocument) singleTest []
               = Some (Inr final)
        \<and> objGet final ''_children''
            = Some (VArr [VObj (builtRefs ''Arguments'' [''config'', ''expr'', ''input'']),
                          VObj (builtGroups [''input'', ''expr'', ''input'']),
                          VObj (builtRefs ''Arguments'' [''from'', ''to'']),
                          VObj (builtGroups [''from'', ''to''])]))
   \<and> (\<exists>final. buildElement (Suc 2) exampleOptions testParseInfo (Some keyedDocument) keyedLeaf []
               = Some (Inr final)
        \<and> objGet final ''_children''
            = Some (VObj [(''x'', VObj [(''name'', VStr ''x''), (''_'', VStr ''Command'')]),
                          (''undefined'', VObj [(''_'', VStr ''Groups'')])]))
   \<and> (\<exists>final. buildElement (Suc 2) exampleOptions groupParseInfo (Some keyedDocument) keyedLeaf []
               = Some (Inr final)
        \<and> objGet final ''_children''
            = Some (VObj [(''x'', VArr [VObj [(''name'', VStr ''x''), (''_'', VStr ''Command'')]]),
                          (''undefined'', VArr [VObj [(''_'', VStr ''Arguments'')],
                                                VObj [(''_'', VStr ''Groups'')]])]))"
proof -
  let ?testElement = "[(''name'', VStr ''test''),
      (''describe'', VStr ''Test regular expression definitions''),
      (''inherits'', VStr ''duo-command''), (''_'', VStr ''Command'')] :: int element"
  let ?duo = "[(''name'', VStr ''duo-command''), (''_'', VStr ''Command''),
      (''_children'', VArr [VObj (builtRefs ''Arguments'' [''from'', ''to'']),
                            VObj (builtGroups [''from'', ''to''])])] :: int element"
  let ?testChildren = "[builtRefs ''Arguments'' [''config'', ''expr'', ''input''],
      builtGroups [''input'', ''expr'', ''input'']]"
  let ?testList = "[VObj (builtRefs ''Arguments'' [''config'', ''expr'', ''input'']),
                    VObj (builtGroups [''input'', ''expr'', ''input'']),
                    VObj (builtRefs ''Arguments'' [''from'', ''to'']),
                    VObj (builtGroups [''from'', ''to''])] :: int jvalue list"
  let ?leafElement = "[(''name'', VStr ''leaf''), (''inherits'', VStr ''base''),
      (''_'', VStr ''Command'')] :: int element"
  let ?base = "[(''name'', VStr ''base''), (''_'', VStr ''Command''),
      (''_children'', VArr [VObj [(''_'', VStr ''Arguments'')],
                            VObj [(''_'', VStr ''Groups'')]])] :: int element"
  let ?x = "[(''name'', VStr ''x''), (''_'', VStr ''Command'')] :: int element"
  let ?leafList = "[VObj ?x, VObj [(''_'', VStr ''Arguments'')],
                    VObj [(''_'', VStr ''Groups'')]] :: int jvalue list"
  have lab: "labelsDescendants exampleOptions = ''_children''" by code_simp
  have labels: "labelsElement exampleOptions \<noteq> labelsDescendants exampleOptions"
    "labelsText exampleOptions \<noteq> labelsDescendants exampleOptions" by code_simp+
  have a: "\<exists>final. buildElement (Suc 4) exampleOptions testParseInfo (Some singleDocument)
                     singleTest [] = Some (Inr final)
             \<and> objGet final ''_children'' = Some (VArr ?testList)"
  proof -
    have h1: "localElement exampleOptions singleTest = Inr ?testElement" by code_simp
    have h2: "isElement singleTest" by code_simp
    have h3: "identifierOf ?testElement
                (idKey (getElementInfo exampleOptions testParseInfo (nodeName singleTest)))
              = VStr ''test''" by code_simp
    have h4: "VStr ''test'' \<noteq> (VStr [] :: int jvalue)" by simp
    have h5: "recurseOf (getElementInfo exampleOptions testParseInfo (nodeName singleTest)) \<noteq> []"
      by code_simp
    have h6: "\<not> includesValue (VStr ''test'' :: int jvalue) []" by code_simp
    have h7: "references exampleOptions testParseInfo singleTest \<noteq> []" by code_simp
    have h8: "inheritedElements (buildElement 4 exampleOptions testParseInfo) (nodeName singleTest)
                (idKey (getElementInfo exampleOptions testParseInfo (nodeName singleTest)))
                (Some singleDocument) ([] @ [VStr ''test''])
                (references exampleOptions testParseInfo singleTest) = Some (Inr [?duo])"
      by code_simp
    have h9: "list_all (descendantsAreList exampleOptions) [?duo]" by code_simp
    have h10: "list_ex (objHas (labelsDescendants exampleOptions)) [?duo]" by code_simp
    have h11: "\<not> objHas (labelsDescendants exampleOptions) ?testElement" by code_simp
    have h12: "labelsDescendants exampleOptions
                 \<notin> set (discardsOf (getElementInfo exampleOptions testParseInfo
                                       (nodeName singleTest)))" by code_simp
    have h13: "filter isElement (childNodes singleTest) \<noteq> []" by code_simp
    have h14: "buildChildElements (buildElement 4 exampleOptions testParseInfo) singleTest []
                 (filter isElement (childNodes singleTest)) = Some (Inr ?testChildren)"
      by code_simp
    have h17: "?testList = map VObj ?testChildren
                 @ concat (map (descendantsList exampleOptions) [?duo])" by code_simp
    have keeps: "keepsList (childrenInfo exampleOptions testParseInfo singleTest) ?testChildren"
      by code_simp
    show ?thesis
      using children_precede_inherited [OF h1 h2 h3 h4 h5 h6 h7 h8 h9 h10 h11 h12 h13 h14
              labels h17 refl] keeps
      unfolding lab by blast
  qed
  have b: "\<exists>final. buildElement (Suc 2) exampleOptions testParseInfo (Some keyedDocument)
                     keyedLeaf [] = Some (Inr final)
             \<and> objGet final ''_children''
                 = Some (VObj [(''x'', VObj ?x), (''undefined'', VObj [(''_'', VStr ''Groups'')])])"
  proof -
    have h1: "localElement exampleOptions keyedLeaf = Inr ?leafElement" by code_simp
    have h2: "isElement keyedLeaf" by code_simp
    have h3: "identifierOf ?leafElement
                (idKey (getElementInfo exampleOptions testParseInfo (nodeName keyedLeaf)))
              = VStr ''leaf''" by code_simp
    have h4: "VStr ''leaf'' \<noteq> (VStr [] :: int jvalue)" by simp
    have h5: "recurseOf (getElementInfo exampleOptions testParseInfo (nodeName keyedLeaf)) \<noteq> []"
      by code_simp
    have h6: "\<not> includesValue (VStr ''leaf'' :: int jvalue) []" by code_simp
    have h7: "references exampleOptions testParseInfo keyedLeaf \<noteq> []" by code_simp
    have h8: "inheritedElements (buildElement 2 exampleOptions testParseInfo) (nodeName keyedLeaf)
                (idKey (getElementInfo exampleOptions testParseInfo (nodeName keyedLeaf)))
                (Some keyedDocument) ([] @ [VStr ''leaf''])
                (references exampleOptions testParseInfo keyedLeaf) = Some (Inr [?base])"
      by code_simp
    have h9: "list_all (descendantsAreList exampleOptions) [?base]" by code_simp
    have h10: "list_ex (objHas (labelsDescendants exampleOptions)) [?base]" by code_simp
    have h11: "\<not> objHas (labelsDescendants exampleOptions) ?leafElement" by code_simp
    have h12: "labelsDescendants exampleOptions
                 \<notin> set (discardsOf (getElementInfo exampleOptions testParseInfo
                                       (nodeName keyedLeaf)))" by code_simp
    have h13: "filter isElement (childNodes keyedLeaf) \<noteq> []" by code_simp
    have h14: "buildChildElements (buildElement 2 exampleOptions testParseInfo) keyedLeaf []
                 (filter isElement (childNodes keyedLeaf)) = Some (Inr [?x])"
      by code_simp
    have h17: "?leafList = map VObj [?x]
                 @ concat (map (descendantsList exampleOptions) [?base])" by code_simp
    have rk: "rekeysBy (childrenInfo exampleOptions testParseInfo keyedLeaf) [?x] ''index''"
      by code_simp
    have nt: "\<not> missingThrows (childrenInfo exampleOptions testParseInfo keyedLeaf)"
      by code_simp
    have ix: "indexBy exampleOptions (idKey (childrenInfo exampleOptions testParseInfo keyedLeaf))
                ?leafList
              = VObj [(''x'', VObj ?x), (''undefined'', VObj [(''_'', VStr ''Groups'')])]"
      by code_simp
    show ?thesis
      using children_precede_inherited [OF h1 h2 h3 h4 h5 h6 h7 h8 h9 h10 h11 h12 h13 h14
              labels h17 refl] rk nt
      unfolding lab ix by blast
  qed
  have c: "\<exists>final. buildElement (Suc 2) exampleOptions groupParseInfo (Some keyedDocument)
                     keyedLeaf [] = Some (Inr final)
             \<and> objGet final ''_children''
                 = Some (VObj [(''x'', VArr [VObj ?x]),
                               (''undefined'', VArr [VObj [(''_'', VStr ''Arguments'')],
                                                     VObj [(''_'', VStr ''Groups'')]])])"
  proof -
    have h1: "localElement exampleOptions keyedLeaf = Inr ?leafElement" by code_simp
    have h2: "isElement keyedLeaf" by code_simp
    have h3: "identifierOf ?leafElement
                (idKey (getElementInfo exampleOptions groupParseInfo (nodeName keyedLeaf)))
              = VStr ''leaf''" by code_simp
    have h4: "VStr ''leaf'' \<noteq> (VStr [] :: int jvalue)" by simp
    have h5: "recurseOf (getElementInfo exampleOptions groupParseInfo (nodeName keyedLeaf)) \<noteq> []"
      by code_simp
    have h6: "\<not> includesValue (VStr ''leaf'' :: int jvalue) []" by code_simp
    have h7: "references exampleOptions groupParseInfo keyedLeaf \<noteq> []" by code_simp
    have h8: "inheritedElements (buildElement 2 exampleOptions groupParseInfo) (nodeName keyedLeaf)
                (idKey (getElementInfo exampleOptions groupParseInfo (nodeName keyedLeaf)))
                (Some keyedDocument) ([] @ [VStr ''leaf''])
                (references exampleOptions groupParseInfo keyedLeaf) = Some (Inr [?base])"
      by code_simp
    have h9: "list_all (descendantsAreList exampleOptions) [?base]" by code_simp
    have h10: "list_ex (objHas (labelsDescendants exampleOptions)) [?base]" by code_simp
    have h11: "\<not> objHas (labelsDescendants exampleOptions) ?leafElement" by code_simp
    have h12: "labelsDescendants exampleOptions
                 \<notin> set (discardsOf (getElementInfo exampleOptions groupParseInfo
                                       (nodeName keyedLeaf)))" by code_simp
    have h13: "filter isElement (childNodes keyedLeaf) \<noteq> []" by code_simp
    have h14: "buildChildElements (buildElement 2 exampleOptions groupParseInfo) keyedLeaf []
                 (filter isElement (childNodes keyedLeaf)) = Some (Inr [?x])"
      by code_simp
    have h17: "?leafList = map VObj [?x]
                 @ concat (map (descendantsList exampleOptions) [?base])" by code_simp
    have rk: "rekeysBy (childrenInfo exampleOptions groupParseInfo keyedLeaf) [?x] ''group''"
      by code_simp
    have gx: "groupBy exampleOptions (idKey (childrenInfo exampleOptions groupParseInfo keyedLeaf))
                ?leafList
              = VObj [(''x'', VArr [VObj ?x]),
                      (''undefined'', VArr [VObj [(''_'', VStr ''Arguments'')],
                                            VObj [(''_'', VStr ''Groups'')]])]"
      by code_simp
    show ?thesis
      using children_precede_inherited [OF h1 h2 h3 h4 h5 h6 h7 h8 h9 h10 h11 h12 h13 h14
              labels h17 refl] rk
      unfolding lab gx by blast
  qed
  show ?thesis using a b c by blast
qed

section \<open>Descendants are kept by the merges of inheritance\<close>

text \<open>
  C3, as the claim states it, fails. The leaf has an attribute named by the descendants
  label, so that the built leaf and its built base both have a non-empty list under
  that label; \<open>R.mergeAll\<close> of the base with the leaf keeps the list of the leaf alone,
  and the two children of the base are not in the built element.
\<close>

theorem overlay_drops_inherited_descendants_counterexample:
  "localElement exampleOptions ownLeaf
     = Inr [(''name'', VStr ''leaf''), (''inherits'', VStr ''base''),
            (''_children'', VArr [VNum 1]), (''_'', VStr ''Command'')]
   \<and> buildElement 2 exampleOptions testParseInfo (Some ownDocument) keyedBase [VStr ''leaf'']
     = Some (Inr [(''name'', VStr ''base''), (''_'', VStr ''Command''),
                  (''_children'', VArr [VObj [(''_'', VStr ''Arguments'')],
                                        VObj [(''_'', VStr ''Groups'')]])])
   \<and> buildElement 3 exampleOptions testParseInfo (Some ownDocument) ownLeaf []
     = Some (Inr [(''name'', VStr ''leaf''), (''_'', VStr ''Command''),
                  (''_children'', VArr [VNum 1])])"
  by code_simp

text \<open>
  C3, amended. Let the references of an element build to the elements \<open>bases\<close>, each
  with a list, if anything, under the descendants label. Then the inheritance resolver
  returns an element, and under the descendants label it has the element's own value
  when the element has one, and otherwise the descendants lists of the bases one after
  the other in listed order (nothing when no base has descendants): the merges among
  the bases drop no entry, and the overlay of the element drops the inherited entries
  exactly when the element has a value of its own under the descendants label. Each
  \<open>doMergeElements\<close> step concatenates the lists of its operands, and
  \<open>buildChildren\<close> puts the new children before the list already present, which is
  the final list when the descendants policy leaves it alone.
\<close>

theorem inherited_descendants_merged:
  assumes "identifierOf element (idKey (getElementInfo opts pi (nodeName node))) = ident"
    and "ident \<noteq> VStr []"
    and "recurseOf (getElementInfo opts pi (nodeName node)) \<noteq> []"
    and "\<not> includesValue ident seen"
    and "references opts pi node \<noteq> []"
    and "inheritedElements build (nodeName node)
           (idKey (getElementInfo opts pi (nodeName node))) parentNode (seen @ [ident])
           (references opts pi node) = Some (Inr bases)"
    and "list_all isObject bases"
    and "isObject element"
    and "list_all (descendantsAreList opts) bases"
  shows "(\<exists>r. recurseThroughAttribute build opts pi element node parentNode seen = Some (Inr r)
            \<and> objGet r (labelsDescendants opts)
                = (case objGet element (labelsDescendants opts) of
                     Some v \<Rightarrow> Some v
                   | None \<Rightarrow> inheritedDescendants opts bases))
       \<and> (isObject b \<and> descendantsAreList opts a \<and> descendantsAreList opts b
          \<longrightarrow> (\<exists>m. doMergeElements opts a b = Inr m
                 \<and> objHas (labelsDescendants opts) m
                     = (objHas (labelsDescendants opts) a \<or> objHas (labelsDescendants opts) b)
                 \<and> descendantsList opts m = descendantsList opts a @ descendantsList opts b))
       \<and> (filter isElement (childNodes node) \<noteq> []
            \<and> buildChildElements build node seen (filter isElement (childNodes node))
                = Some (Inr children)
            \<and> descendantsAreList opts resolved
            \<and> labelsElement opts \<noteq> labelsDescendants opts
            \<and> keepsList (elementInfoOf opts pi resolved) children
          \<longrightarrow> buildChildren build opts pi resolved node seen
                = Some (Inr (attachText opts node
                    (objSet (labelsDescendants opts)
                       (VArr (map VObj children @ descendantsList opts resolved)) resolved))))"
proof -
  have a: "\<exists>r. recurseThroughAttribute build opts pi element node parentNode seen = Some (Inr r)
            \<and> objGet r (labelsDescendants opts)
                = (case objGet element (labelsDescendants opts) of
                     Some v \<Rightarrow> Some v
                   | None \<Rightarrow> inheritedDescendants opts bases)"
    using resolved_descendants [OF assms] by blast
  have b: "\<exists>m. doMergeElements opts a b = Inr m
                 \<and> objHas (labelsDescendants opts) m
                     = (objHas (labelsDescendants opts) a \<or> objHas (labelsDescendants opts) b)
                 \<and> descendantsList opts m = descendantsList opts a @ descendantsList opts b"
    if "isObject b" and "descendantsAreList opts a" and "descendantsAreList opts b"
    using doMergeElements_descendants [OF that] by blast
  have c: "buildChildren build opts pi resolved node seen
                = Some (Inr (attachText opts node
                    (objSet (labelsDescendants opts)
                       (VArr (map VObj children @ descendantsList opts resolved)) resolved)))"
    if "filter isElement (childNodes node) \<noteq> []"
      and "buildChildElements build node seen (filter isElement (childNodes node))
             = Some (Inr children)"
      and "descendantsAreList opts resolved"
      and "labelsElement opts \<noteq> labelsDescendants opts"
      and "keepsList (elementInfoOf opts pi resolved) children"
    using buildChildren_unfold [OF that(1,2,3)]
      indexDescendants_result(1) [OF that(4) refl that(5)]
    by simp
  show ?thesis using a b c by blast
qed

theorem inherited_descendants_merged_witness:
  "(\<exists>r. recurseThroughAttribute (buildElement 3 exampleOptions testParseInfo) exampleOptions
           testParseInfo dualTestElement dualTest (Some dualArguments) [] = Some (Inr r)
        \<and> objGet r ''_children''
            = Some (VArr [VObj (builtRefs ''Arguments'' [''from'', ''to'']),
                          VObj (builtRefs ''Arguments'' [''path'', ''filesys'', ''tree''])]))
   \<and> (\<exists>m. doMergeElements exampleOptions
             (builtCommand ''duo-command'' [builtRefs ''Arguments'' [''from'', ''to'']])
             (builtCommand ''uni-command''
                [builtRefs ''Arguments'' [''path'', ''filesys'', ''tree'']]) = Inr m
        \<and> descendantsList exampleOptions m
            = [VObj (builtRefs ''Arguments'' [''from'', ''to'']),
               VObj (builtRefs ''Arguments'' [''path'', ''filesys'', ''tree''])])
   \<and> buildChildren (buildElement 3 exampleOptions testParseInfo) exampleOptions testParseInfo
        (builtCommand ''test'' [builtRefs ''Arguments'' [''from'', ''to''],
                                builtRefs ''Arguments'' [''path'', ''filesys'', ''tree'']])
        dualTest []
       = Some (Inr (builtCommand ''test''
                      [builtRefs ''Arguments'' [''config'', ''expr'', ''input''],
                       builtRefs ''Arguments'' [''from'', ''to''],
                       builtRefs ''Arguments'' [''path'', ''filesys'', ''tree'']]))
   \<and> (\<exists>r. recurseThroughAttribute (buildElement 4 exampleOptions testParseInfo) exampleOptions
           testParseInfo singleTestElement singleTest (Some singleDocument) [] = Some (Inr r)
        \<and> objGet r ''_children''
            = Some (VArr [VObj (builtRefs ''Arguments'' [''from'', ''to'']),
                          VObj (builtGroups [''from'', ''to''])]))"
proof -
  let ?duo = "builtCommand ''duo-command'' [builtRefs ''Arguments'' [''from'', ''to'']]"
  let ?uni = "builtCommand ''uni-command''
                [builtRefs ''Arguments'' [''path'', ''filesys'', ''tree'']]"
  let ?resolved = "builtCommand ''test'' [builtRefs ''Arguments'' [''from'', ''to''],
                     builtRefs ''Arguments'' [''path'', ''filesys'', ''tree'']]"
  let ?children = "[builtRefs ''Arguments'' [''config'', ''expr'', ''input'']]"
  let ?single = "builtCommand ''duo-command''
                   [builtRefs ''Arguments'' [''from'', ''to''], builtGroups [''from'', ''to'']]"
  have lab: "labelsDescendants exampleOptions = ''_children''" by code_simp
  have d1: "identifierOf dualTestElement
              (idKey (getElementInfo exampleOptions testParseInfo (nodeName dualTest)))
            = VStr ''test''" by code_simp
  have h2: "VStr ''test'' \<noteq> (VStr [] :: int jvalue)" by simp
  have d3: "recurseOf (getElementInfo exampleOptions testParseInfo (nodeName dualTest)) \<noteq> []"
    by code_simp
  have h4: "\<not> includesValue (VStr ''test'' :: int jvalue) []" by code_simp
  have d5: "references exampleOptions testParseInfo dualTest \<noteq> []" by code_simp
  have d6: "inheritedElements (buildElement 3 exampleOptions testParseInfo) (nodeName dualTest)
              (idKey (getElementInfo exampleOptions testParseInfo (nodeName dualTest)))
              (Some dualArguments) ([] @ [VStr ''test''])
              (references exampleOptions testParseInfo dualTest) = Some (Inr [?duo, ?uni])"
    by code_simp
  have d7: "list_all isObject [?duo, ?uni]" by code_simp
  have d8: "isObject dualTestElement" by code_simp
  have d9: "list_all (descendantsAreList exampleOptions) [?duo, ?uni]" by code_simp
  have own: "objGet dualTestElement ''_children'' = None" by code_simp
  have inh: "inheritedDescendants exampleOptions [?duo, ?uni]
             = Some (VArr [VObj (builtRefs ''Arguments'' [''from'', ''to'']),
                           VObj (builtRefs ''Arguments'' [''path'', ''filesys'', ''tree''])])"
    by code_simp
  have ab: "isObject ?uni" "descendantsAreList exampleOptions ?duo"
    "descendantsAreList exampleOptions ?uni" by code_simp+
  have lists: "descendantsList exampleOptions ?duo @ descendantsList exampleOptions ?uni
               = [VObj (builtRefs ''Arguments'' [''from'', ''to'']),
                  VObj (builtRefs ''Arguments'' [''path'', ''filesys'', ''tree''])]"
    by code_simp
  have kids: "filter isElement (childNodes dualTest) \<noteq> []" by code_simp
  have built: "buildChildElements (buildElement 3 exampleOptions testParseInfo) dualTest []
                 (filter isElement (childNodes dualTest)) = Some (Inr ?children)" by code_simp
  have dlr: "descendantsAreList exampleOptions ?resolved" by code_simp
  have labels: "labelsElement exampleOptions \<noteq> labelsDescendants exampleOptions" by code_simp
  have keeps: "keepsList (elementInfoOf exampleOptions testParseInfo ?resolved) ?children"
    by code_simp
  have final: "attachText exampleOptions dualTest
                 (objSet ''_children''
                    (VArr (map VObj ?children @ descendantsList exampleOptions ?resolved))
                    ?resolved)
               = builtCommand ''test''
                      [builtRefs ''Arguments'' [''config'', ''expr'', ''input''],
                       builtRefs ''Arguments'' [''from'', ''to''],
                       builtRefs ''Arguments'' [''path'', ''filesys'', ''tree'']]"
    by code_simp
  note dual = inherited_descendants_merged [OF d1 h2 d3 h4 d5 d6 d7 d8 d9,
      where a = ?duo and b = ?uni and children = ?children and resolved = ?resolved,
      unfolded lab own inh lists final]
  have s1: "identifierOf singleTestElement
              (idKey (getElementInfo exampleOptions testParseInfo (nodeName singleTest)))
            = VStr ''test''" by code_simp
  have s3: "recurseOf (getElementInfo exampleOptions testParseInfo (nodeName singleTest)) \<noteq> []"
    by code_simp
  have s5: "references exampleOptions testParseInfo singleTest \<noteq> []" by code_simp
  have s6: "inheritedElements (buildElement 4 exampleOptions testParseInfo) (nodeName singleTest)
              (idKey (getElementInfo exampleOptions testParseInfo (nodeName singleTest)))
              (Some singleDocument) ([] @ [VStr ''test''])
              (references exampleOptions testParseInfo singleTest) = Some (Inr [?single])"
    by code_simp
  have s7: "list_all isObject [?single]" by code_simp
  have s8: "isObject singleTestElement" by code_simp
  have s9: "list_all (descendantsAreList exampleOptions) [?single]" by code_simp
  have sown: "objGet singleTestElement ''_children'' = None" by code_simp
  have sinh: "inheritedDescendants exampleOptions [?single]
             = Some (VArr [VObj (builtRefs ''Arguments'' [''from'', ''to'']),
                           VObj (builtGroups [''from'', ''to''])])"
    by code_simp
  note single = inherited_descendants_merged [OF s1 h2 s3 h4 s5 s6 s7 s8 s9,
      unfolded lab sown sinh, THEN conjunct1]
  have w1: "\<exists>r. recurseThroughAttribute (buildElement 3 exampleOptions testParseInfo)
                 exampleOptions testParseInfo dualTestElement dualTest (Some dualArguments) []
               = Some (Inr r)
        \<and> objGet r ''_children''
            = Some (VArr [VObj (builtRefs ''Arguments'' [''from'', ''to'']),
                          VObj (builtRefs ''Arguments'' [''path'', ''filesys'', ''tree''])])"
    using dual [THEN conjunct1] by simp
  have w2: "\<exists>m. doMergeElements exampleOptions ?duo ?uni = Inr m
        \<and> descendantsList exampleOptions m
            = [VObj (builtRefs ''Arguments'' [''from'', ''to'']),
               VObj (builtRefs ''Arguments'' [''path'', ''filesys'', ''tree''])]"
    using dual [THEN conjunct2, THEN conjunct1] ab by blast
  have w3: "buildChildren (buildElement 3 exampleOptions testParseInfo) exampleOptions
              testParseInfo ?resolved dualTest []
       = Some (Inr (builtCommand ''test''
                      [builtRefs ''Arguments'' [''config'', ''expr'', ''input''],
                       builtRefs ''Arguments'' [''from'', ''to''],
                       builtRefs ''Arguments'' [''path'', ''filesys'', ''tree'']]))"
    using dual [THEN conjunct2, THEN conjunct2] kids built dlr labels [unfolded lab] keeps
    by blast
  have w4: "\<exists>r. recurseThroughAttribute (buildElement 4 exampleOptions testParseInfo)
                 exampleOptions testParseInfo singleTestElement singleTest
                 (Some singleDocument) [] = Some (Inr r)
        \<and> objGet r ''_children''
            = Some (VArr [VObj (builtRefs ''Arguments'' [''from'', ''to'']),
                          VObj (builtGroups [''from'', ''to''])])"
    using single by simp
  show ?thesis using w1 w2 w3 w4 by blast
qed

section \<open>Elements without inheritance\<close>








end
